theory Spec2Isabelle
  imports Main "HOL-Library.Word"
begin

section \<open>Python values used by \<open>keylime/tpm/tpm_main.py\<close>\<close>

text \<open>
  Python integers are unbounded: \<open>int\<close>. A Python \<open>str\<close> is a \<open>string\<close> whose
  characters are code points below 256; \<open>bytes\<close> is a list of 8-bit words. Every
  \<open>raise\<close> of the source is a value \<open>Inl e\<close> of the result type \<open>exn + 'a\<close>.
\<close>

type_synonym byte = "8 word"
type_synonym bytes = "byte list"

datatype exn =
    Exception string
  | IndexError
  | KeyError
  | ValueError
  | TypeError
  | AttributeError
  | BinasciiError

text \<open>\<open>s.split(sep)\<close> for a one-character separator: always at least one token.\<close>

fun split_on :: "char \<Rightarrow> string \<Rightarrow> string list" where
  "split_on c [] = [[]]"
| "split_on c (x # xs) =
     (if x = c then [] # split_on c xs
      else (case split_on c xs of
              [] \<Rightarrow> [[x]]
            | t # ts \<Rightarrow> (x # t) # ts))"

section \<open>Clock information of a quote\<close>

text \<open>
  \<open>keylime.agentstates.TPMClockInfo\<close>: the class is outside the source file, its four
  attributes are the ones \<open>check_quote_timing\<close> reads. They are Python integers; the
  source compares \<open>safe\<close> with the integer 1.
\<close>

record TPMClockInfo =
  clock :: int
  resetcount :: int
  restartcount :: int
  safe :: int

section \<open>Digits, hexadecimal and the extend primitive\<close>

text \<open>\<open>str(n)\<close> of a Python integer.\<close>

definition digit_char :: "nat \<Rightarrow> char" where
  "digit_char n = ''0123456789abcdef'' ! n"

fun str_nat :: "nat \<Rightarrow> string" where
  "str_nat n = (if n < 10 then [digit_char n] else str_nat (n div 10) @ [digit_char (n mod 10)])"

declare str_nat.simps [simp del]

definition str_int :: "int \<Rightarrow> string" where
  "str_int i = (if i < 0 then CHR ''-'' # str_nat (nat (- i)) else str_nat (nat i))"

text \<open>Lower-case hexadecimal digits of a natural number, and \<open>hex(i)\<close>.\<close>

fun hex_nat :: "nat \<Rightarrow> string" where
  "hex_nat n = (if n < 16 then [digit_char n] else hex_nat (n div 16) @ [digit_char (n mod 16)])"

declare hex_nat.simps [simp del]

definition py_hex :: "int \<Rightarrow> string" where
  "py_hex i = (if i < 0 then ''-0x'' @ hex_nat (nat (- i)) else ''0x'' @ hex_nat (nat i))"

text \<open>\<open>bytes.hex()\<close>: two lower-case digits per byte.\<close>

definition bytes_hex :: "bytes \<Rightarrow> string" where
  "bytes_hex bs = concat (map (\<lambda>b. [digit_char (unat b div 16), digit_char (unat b mod 16)]) bs)"

text \<open>\<open>str.encode("utf-8")\<close> on code points below 256.\<close>

definition utf8_encode :: "string \<Rightarrow> bytes" where
  "utf8_encode s =
     concat (map (\<lambda>c. let n = (of_char c :: nat) in
                        if n < 128 then [of_nat n]
                        else [of_nat (192 + n div 64), of_nat (128 + n mod 64)]) s)"

text \<open>
  \<open>keylime.common.algorithms.Hash\<close>: the class is outside the source file. The three
  things the file asks of a hash algorithm are its name (\<open>str(hash_alg)\<close>), its
  one-way function (\<open>hash_alg.hash\<close>) and its initial PCR value
  (\<open>hash_alg.get_start_hash()\<close>).
\<close>

record Hash =
  hash_name :: string
  hash :: "bytes \<Rightarrow> bytes"
  get_start_hash :: bytes

text \<open>\<open>Tpm.sim_extend\<close>.\<close>

definition sim_extend :: "string \<Rightarrow> Hash \<Rightarrow> string" where
  "sim_extend hashval_1 hash_alg =
     (let hdata = hash hash_alg (utf8_encode hashval_1);
          hext = hash hash_alg (get_start_hash hash_alg @ hdata)
      in bytes_hex hext)"

text \<open>
  \<open>int(k)\<close> on a string: surrounding white space, an optional sign, decimal digits
  with single underscores between them. \<open>None\<close> is \<open>ValueError\<close>.
\<close>

definition is_space :: "char \<Rightarrow> bool" where
  "is_space c = ((of_char c :: nat) \<in> {9, 10, 11, 12, 13, 32, 133, 160})"

definition is_digit :: "char \<Rightarrow> bool" where
  "is_digit c = (48 \<le> (of_char c :: nat) \<and> (of_char c :: nat) \<le> 57)"

definition digit_value :: "char \<Rightarrow> nat" where
  "digit_value c = of_char c - 48"

fun digits_value :: "nat \<Rightarrow> string \<Rightarrow> nat option" where
  "digits_value acc [] = Some acc"
| "digits_value acc [c] = (if is_digit c then Some (10 * acc + digit_value c) else None)"
| "digits_value acc (c # d # cs) =
     (if is_digit c then digits_value (10 * acc + digit_value c) (d # cs)
      else if c = CHR ''_'' \<and> is_digit d then digits_value acc (d # cs)
      else None)"

definition unsigned_value :: "string \<Rightarrow> nat option" where
  "unsigned_value s =
     (case s of [] \<Rightarrow> None | c # cs \<Rightarrow> if is_digit c then digits_value 0 s else None)"

definition strip :: "string \<Rightarrow> string" where
  "strip s = rev (dropWhile is_space (rev (dropWhile is_space s)))"

definition py_int :: "string \<Rightarrow> int option" where
  "py_int s =
     (case strip s of
        [] \<Rightarrow> None
      | c # cs \<Rightarrow>
          if c = CHR ''-'' then map_option (\<lambda>n. - int n) (unsigned_value cs)
          else if c = CHR ''+'' then map_option int (unsigned_value cs)
          else map_option int (unsigned_value (c # cs)))"

section \<open>Documents and dictionaries\<close>

text \<open>
  The parsed event log is a tree of YAML values. A dictionary is an association list in
  insertion order with distinct keys; \<open>dict_set\<close> is \<open>d[k] = v\<close>.
\<close>

datatype key = KStr string | KInt int

datatype doc =
    DNull
  | DBool bool
  | DInt int
  | DStr string
  | DList "doc list"
  | DDict "(key \<times> doc) list"

fun dict_set :: "'k \<Rightarrow> 'v \<Rightarrow> ('k \<times> 'v) list \<Rightarrow> ('k \<times> 'v) list" where
  "dict_set k v [] = [(k, v)]"
| "dict_set k v ((k', v') # kvs) =
     (if k' = k then (k', v) # kvs else (k', v') # dict_set k v kvs)"

text \<open>Truth value of a document, as \<open>if x:\<close> and \<open>not x\<close> read it.\<close>

fun truthy :: "doc \<Rightarrow> bool" where
  "truthy DNull = False"
| "truthy (DBool b) = b"
| "truthy (DInt i) = (i \<noteq> 0)"
| "truthy (DStr s) = (s \<noteq> [])"
| "truthy (DList xs) = (xs \<noteq> [])"
| "truthy (DDict kvs) = (kvs \<noteq> [])"

definition str_key :: "key \<Rightarrow> string" where
  "str_key k = (case k of KStr s \<Rightarrow> s | KInt i \<Rightarrow> str_int i)"

section \<open>Failure reports\<close>

text \<open>
  Modelled from the spec: the classes \<open>Failure\<close>, \<open>Event\<close> and \<open>Component\<close> of
  \<open>keylime.failure\<close> are outside the source file. The spec's data model gives an event
  as a name, a context and a flag, scoped to a component and an optional sub-path, a
  report as the list of its events, merging as concatenation and the truth value of a
  report as "has at least one event". \<open>add_event\<close> stores its three arguments, in the
  order the source passes them. The third says whether the failure is recoverable: the
  source passes \<open>False\<close> where its comment (line 522) calls the failure irrecoverable.
  An event the spec calls fatal is one with \<open>recoverable = False\<close>.
\<close>

datatype Component = QUOTE_VALIDATION | PCR_VALIDATION | MEASURED_BOOT | IMA

text \<open>
  A context is a string or a dictionary of fields. \<open>VRepr\<close> holds the lines whose
  \<open>str()\<close> the source stores.
\<close>

datatype ctx_val =
    VStr string
  | VStrs "string list"
  | VInts "int list"
  | VDoc doc
  | VDocOpt "doc option"
  | VRepr "bytes list"

datatype Context = Text string | Fields "(string \<times> ctx_val) list"

datatype Event =
  Event (ev_component: Component) (ev_sub_components: "string list")
        (name: string) (ctx: Context) (recoverable: bool)

record Failure =
  component :: Component
  sub_components :: "string list"
  events :: "Event list"

definition new_Failure :: "Component \<Rightarrow> string list \<Rightarrow> Failure" where
  "new_Failure c sub = \<lparr>component = c, sub_components = sub, events = []\<rparr>"

definition add_event :: "Failure \<Rightarrow> string \<Rightarrow> Context \<Rightarrow> bool \<Rightarrow> Failure" where
  "add_event f event_id cx is_recoverable =
     f\<lparr>events := events f @ [Event (component f) (sub_components f) event_id cx is_recoverable]\<rparr>"

definition merge :: "Failure \<Rightarrow> Failure \<Rightarrow> Failure" where
  "merge f other = f\<lparr>events := events f @ events other\<rparr>"

definition failed :: "Failure \<Rightarrow> bool" where
  "failed f = (events f \<noteq> [])"

section \<open>Event-log enrichment\<close>

text \<open>\<open>Tpm.__stringify_pcr_keys\<close>: the log comes back changed in place.\<close>

definition stringify_cells :: "(key \<times> doc) list \<Rightarrow> (key \<times> doc) list" where
  "stringify_cells cells = foldl (\<lambda>new (index, val). dict_set (KStr (str_key index)) val new) [] cells"

definition stringify_pcr_keys :: "doc \<Rightarrow> doc" where
  "stringify_pcr_keys log =
     (case log of
        DDict kvs \<Rightarrow>
          (case map_of kvs (KStr ''pcrs'') of
             None \<Rightarrow> log
           | Some old_pcrs \<Rightarrow>
               (case old_pcrs of
                  DDict algs \<Rightarrow>
                    let new_pcrs =
                          foldl (\<lambda>new (hash_alg, cells).
                                   dict_set hash_alg
                                     (case cells of
                                        DDict cs \<Rightarrow> DDict (stringify_cells cs)
                                      | _ \<Rightarrow> cells) new) [] algs
                    in DDict (dict_set (KStr ''pcrs'') (DDict new_pcrs) kvs)
                | _ \<Rightarrow> log))
      | _ \<Rightarrow> log)"

text \<open>
  A class of \<open>hashlib\<close>: its digest size and its function from the bytes fed so far to
  the digest. A hash object is the class with the bytes it has been fed: \<open>update\<close>
  appends, \<open>hexdigest\<close> reads. \<open>hashlib\<close> itself is a parameter: the name of an
  attribute to its class, \<open>None\<close> where \<open>getattr\<close>, the constructor or
  \<open>hexdigest()\<close> raises.
\<close>

record hashclass =
  digest_size :: nat
  digest :: "bytes \<Rightarrow> bytes"

record hashobj =
  hclass :: hashclass
  fed :: bytes

definition hash_new :: "hashclass \<Rightarrow> hashobj" where
  "hash_new hc = \<lparr>hclass = hc, fed = []\<rparr>"

definition hash_update :: "hashobj \<Rightarrow> bytes \<Rightarrow> hashobj" where
  "hash_update h bs = h\<lparr>fed := fed h @ bs\<rparr>"

definition hexdigest :: "hashobj \<Rightarrow> string" where
  "hexdigest h = bytes_hex (digest (hclass h) (fed h))"

text \<open>
  The format \<open>f"{v:0{width}x}"\<close> of an integer: sign-aware zero padding to the width.
\<close>

definition format_0x :: "nat \<Rightarrow> int \<Rightarrow> string" where
  "format_0x width v =
     (if v < 0
      then CHR ''-'' # replicate (width - 1 - length (hex_nat (nat (- v)))) CHR ''0''
             @ hex_nat (nat (- v))
      else replicate (width - length (hex_nat (nat v))) CHR ''0'' @ hex_nat (nat v))"

text \<open>\<open>bytes.fromhex\<close>: pairs of hexadecimal digits, ASCII white space between pairs.\<close>

definition hex_value :: "char \<Rightarrow> nat option" where
  "hex_value c =
     (let n = (of_char c :: nat) in
      if 48 \<le> n \<and> n \<le> 57 then Some (n - 48)
      else if 97 \<le> n \<and> n \<le> 102 then Some (n - 87)
      else if 65 \<le> n \<and> n \<le> 70 then Some (n - 55)
      else None)"

definition is_ascii_space :: "char \<Rightarrow> bool" where
  "is_ascii_space c = ((of_char c :: nat) \<in> {9, 10, 11, 12, 13, 32})"

fun bytes_fromhex :: "string \<Rightarrow> bytes option" where
  "bytes_fromhex [] = Some []"
| "bytes_fromhex [c] = (if is_ascii_space c then Some [] else None)"
| "bytes_fromhex (c # d # cs) =
     (if is_ascii_space c then bytes_fromhex (d # cs)
      else (case (hex_value c, hex_value d) of
              (Some hi, Some lo) \<Rightarrow>
                map_option (\<lambda>bs. of_nat (16 * hi + lo) # bs) (bytes_fromhex cs)
            | _ \<Rightarrow> None))"

text \<open>
  One pass of the inner loop of \<open>Tpm.__add_boot_aggregate\<close>: the bytes fed to the hash
  object for one PCR value, \<open>None\<close> where the format or \<open>bytes.fromhex\<close> raises (a
  value that is no integer, a negative one, an odd number of digits).
\<close>

definition pcr_bytes :: "nat \<Rightarrow> doc \<Rightarrow> bytes option" where
  "pcr_bytes dsize pcrstrg =
     (case pcrstrg of
        DInt v \<Rightarrow> bytes_fromhex (format_0x (dsize * 2) v)
      | DBool b \<Rightarrow> bytes_fromhex (format_0x (dsize * 2) (if b then 1 else 0))
      | _ \<Rightarrow> None)"

fun feed_pcrs :: "doc \<Rightarrow> nat list \<Rightarrow> hashobj \<Rightarrow> hashobj option" where
  "feed_pcrs cells [] h = Some h"
| "feed_pcrs cells (pcrno # rest) h =
     (case cells of
        DDict cs \<Rightarrow>
          (case map_of cs (KStr (str_nat pcrno)) of
             None \<Rightarrow> None
           | Some pcrstrg \<Rightarrow>
               (case pcr_bytes (digest_size (hclass h)) pcrstrg of
                  None \<Rightarrow> None
                | Some bs \<Rightarrow> feed_pcrs cells rest (hash_update h bs)))
      | _ \<Rightarrow> None)"

text \<open>
  The body of the \<open>try\<close> for one hash algorithm and one range size: \<open>None\<close> where it
  raises and the \<open>except\<close> swallows the exception.
\<close>

definition boot_aggregate ::
  "(string \<Rightarrow> hashclass option) \<Rightarrow> (key \<times> doc) list \<Rightarrow> key \<Rightarrow> nat \<Rightarrow> string option" where
  "boot_aggregate hashlib pcrs hashalg maxpcr =
     (case hashalg of
        KInt i \<Rightarrow> None
      | KStr nm \<Rightarrow>
          (case hashlib nm of
             None \<Rightarrow> None
           | Some hashclass \<Rightarrow>
               (case map_of pcrs hashalg of
                  None \<Rightarrow> None
                | Some cells \<Rightarrow>
                    map_option hexdigest (feed_pcrs cells [0..<maxpcr] (hash_new hashclass)))))"

text \<open>
  \<open>Tpm.__add_boot_aggregate\<close>. \<open>log["pcrs"].keys()\<close> stands outside the \<open>try\<close>: a
  \<open>pcrs\<close> entry that is no dictionary raises.
\<close>

definition add_boot_aggregate :: "(string \<Rightarrow> hashclass option) \<Rightarrow> doc \<Rightarrow> exn + doc" where
  "add_boot_aggregate hashlib log =
     (case log of
        DDict kvs \<Rightarrow>
          (case map_of kvs (KStr ''pcrs'') of
             None \<Rightarrow> Inr log
           | Some pcrs \<Rightarrow>
               (case pcrs of
                  DDict algs \<Rightarrow>
                    let aggs =
                          foldl (\<lambda>acc hashalg.
                                   dict_set hashalg
                                     (DList (map DStr
                                        (List.map_filter (boot_aggregate hashlib algs hashalg) [8, 10])))
                                     acc) [] (map fst algs)
                    in Inr (DDict (dict_set (KStr ''boot_aggregates'') (DDict aggs) kvs))
                | _ \<Rightarrow> Inl AttributeError))
      | _ \<Rightarrow> Inr log)"

text \<open>
  \<open>str.replace(old, new)\<close>: every occurrence, left to right, without overlap;
  \<open>str.rstrip(chars)\<close>.
\<close>

function py_replace :: "string \<Rightarrow> string \<Rightarrow> string \<Rightarrow> string" where
  "py_replace old new s =
     (if old = [] then new @ concat (map (\<lambda>c. c # new) s)
      else if s = [] then []
      else if take (length old) s = old
      then new @ py_replace old new (drop (length old) s)
      else hd s # py_replace old new (tl s))"
  by pat_completeness auto
termination
  by (relation "measure (\<lambda>(old, new, s). length s)") (auto simp: neq_Nil_conv)

declare py_replace.simps [simp del]

definition rstrip :: "string \<Rightarrow> string \<Rightarrow> string" where
  "rstrip chars s = rev (dropWhile (\<lambda>c. c \<in> set chars) (rev s))"

text \<open>The table \<open>escaped_chars\<close> of \<open>Tpm.__unescape_eventlog\<close>: (original, escaped).\<close>

definition escaped_chars :: "(string \<times> string) list" where
  "escaped_chars =
     [([CHR 0x00], [CHR 0x5C, CHR ''0'']),
      ([CHR 0x07], [CHR 0x5C, CHR ''a'']),
      ([CHR 0x08], [CHR 0x5C, CHR ''b'']),
      ([CHR 0x09], [CHR 0x5C, CHR ''t'']),
      ([CHR 0x0B], [CHR 0x5C, CHR ''v'']),
      ([CHR 0x0C], [CHR 0x5C, CHR ''f'']),
      ([CHR 0x0D], [CHR 0x5C, CHR ''r'']),
      ([CHR 0x1B], [CHR 0x5C, CHR ''e'']),
      ([CHR 0x27], [CHR 0x5C, CHR 0x27]),
      ([CHR 0x5C], [CHR 0x5C, CHR 0x5C])]"

text \<open>The string case of \<open>recursive_unescape\<close>.\<close>

definition unescape_str :: "string \<Rightarrow> string" where
  "unescape_str data =
     (if data \<noteq> [] \<and> hd data = CHR 0x22 \<and> last data = CHR 0x22
      then
        let data1 = butlast (tl data);
            data2 = foldl (\<lambda>d (orig, escaped). py_replace escaped orig d) data1 escaped_chars
        in rstrip [CHR 0x00] data2
      else data)"

primrec recursive_unescape :: "doc \<Rightarrow> doc" where
  "recursive_unescape DNull = DNull"
| "recursive_unescape (DBool b) = DBool b"
| "recursive_unescape (DInt i) = DInt i"
| "recursive_unescape (DStr s) = DStr (unescape_str s)"
| "recursive_unescape (DList xs) = DList (map recursive_unescape xs)"
| "recursive_unescape (DDict kvs) = DDict (map (map_prod id recursive_unescape) kvs)"

text \<open>
  The class attribute \<open>Tpm.tools_version\<close> (line 33). The version detection assigns
  \<open>self.tools_version\<close>, an attribute of the object, and nothing in the file assigns
  the attribute of the class: it keeps its initial value, the empty string.
\<close>

definition Tpm_tools_version :: string where
  "Tpm_tools_version = []"

text \<open>
  \<open>Tpm.__unescape_eventlog\<close>, a static method: its test reads the class attribute.
  The log is changed in place: the result of \<open>recursive_unescape\<close> on the log itself
  is dropped, so a log that is a bare string stays as it is.
\<close>

definition unescape_eventlog :: "doc \<Rightarrow> doc" where
  "unescape_eventlog log =
     (if Tpm_tools_version \<in> set [''3.2'', ''4.0'', ''4.2''] then log
      else (case log of
              DStr s \<Rightarrow> log
            | _ \<Rightarrow> recursive_unescape log))"

text \<open>
  Modelled from the spec: the escaping done by the external tool is no code of the
  repository. The spec gives it as the inverse reading of the table \<open>escaped_chars\<close>:
  each special character is replaced by its escape sequence, any other character is kept,
  and the result is put between double quotes. \<open>escape_with\<close> escapes by a part of the
  table; the escape set is the set of the special characters.
\<close>

definition escape_with :: "(string \<times> string) list \<Rightarrow> char \<Rightarrow> string" where
  "escape_with table c = (case map_of table [c] of None \<Rightarrow> [c] | Some escaped \<Rightarrow> escaped)"

definition escape_str :: "string \<Rightarrow> string" where
  "escape_str s = CHR 0x22 # concat (map (escape_with escaped_chars) s) @ [CHR 0x22]"

definition escape_set :: "char set" where
  "escape_set = {c. [c] \<in> set (map fst escaped_chars)}"

section \<open>Collaborators and configuration\<close>

text \<open>
  \<open>keylime.agentstates.AgentAttestState\<close>, as far as the file reads and writes it.
\<close>

record AgentAttestState =
  agent_id :: string
  tpm_clockinfo :: TPMClockInfo

text \<open>The result of \<open>cmd_exec.run\<close>.\<close>

record RetDict =
  code :: int
  retout :: "bytes list"
  reterr :: "bytes list"

definition EXIT_SUCCESS :: int where
  "EXIT_SUCCESS = 0"

type_synonym clock_info_dict = "(string \<times> int) list"
type_synonym policy_dict = "(string \<times> string list) list"

text \<open>
  The constants of \<open>keylime.config\<close> and \<open>keylime.ima.ima\<close> the file reads. The
  modules are outside the source file, so the constants are parameters.
\<close>

record config =
  TPM_DATA_PCR :: int
  IMA_PCR :: int
  MEASUREDBOOT_PCRS :: "int list"
  LIBEFIVAR :: string
  EMPTY_RUNTIME_POLICY :: doc

text \<open>
  The functions of other modules the file calls, as parameters:
  \<^item> \<open>base64.b64decode\<close>, with and without \<open>validate=True\<close>, and \<open>zlib.decompress\<close>;
  \<^item> \<open>tpm2_objects.get_tpms_attest_clock_info\<close> (a dictionary of the clock fields) and
    \<open>TPMClockInfo.from_dict\<close>;
  \<^item> \<open>pubkey_pem\<close>: \<open>tpm2_objects.pubkey_from_tpm2b_public(...).public_bytes(...)\<close>;
  \<^item> \<open>tpm_util.checkquote\<close>: the quoted PCRs, or \<open>Inl\<close> of \<open>str(e)\<close> for the
    exception \<open>e\<close> it raises;
  \<^item> \<open>json.loads\<close>, \<open>measured_boot.get_policy\<close>, \<open>measured_boot.evaluate_policy\<close> and
    \<open>ima.process_measurement_list\<close> (its failure report);
  \<^item> \<open>cmd_exec.run\<close> on a command and the content of the temporary file the command
    reads, \<open>config.yaml_to_dict\<close>, the import of \<open>tpm_bootlog_enrich\<close> (\<open>Inl\<close> of
    \<open>str(e)\<close> when the import raises, else its function \<open>enrich\<close>) and \<open>hashlib\<close>;
  \<^item> \<open>set_order\<close>: the rank of an element in the iteration over the set made from a
    list, and \<open>self_tools_version\<close>: the instance attribute \<open>self.tools_version\<close>
    that \<open>__get_tpm2_tools\<close> assigns when the object is made (\<open>3.2\<close>, \<open>4.0\<close>,
    \<open>4.2\<close> or \<open>5.4\<close>).
\<close>

record tpm_env =
  b64decode :: "string \<Rightarrow> exn + bytes"
  b64decode_validate :: "string \<Rightarrow> exn + bytes"
  zlib_decompress :: "bytes \<Rightarrow> exn + bytes"
  get_tpms_attest_clock_info :: "bytes \<Rightarrow> exn + clock_info_dict"
  from_dict :: "clock_info_dict \<Rightarrow> exn + TPMClockInfo"
  pubkey_pem :: "bytes \<Rightarrow> exn + bytes"
  checkquote :: "bytes \<Rightarrow> string \<Rightarrow> bytes \<Rightarrow> bytes \<Rightarrow> bytes \<Rightarrow> string
                   \<Rightarrow> string + (int \<times> string) list"
  json_loads :: "string \<Rightarrow> exn + policy_dict"
  get_policy :: "string option \<Rightarrow> doc \<times> string \<times> doc"
  evaluate_policy :: "doc \<Rightarrow> string \<Rightarrow> doc \<Rightarrow> doc \<Rightarrow> int set \<Rightarrow> string \<Rightarrow> Failure"
  process_measurement_list ::
    "AgentAttestState \<Rightarrow> string list \<Rightarrow> doc \<Rightarrow> string \<Rightarrow> doc option \<Rightarrow> doc option
       \<Rightarrow> Hash \<Rightarrow> Failure"
  cmd_exec_run :: "string list \<Rightarrow> bytes \<Rightarrow> exn + RetDict"
  yaml_to_dict :: "bytes list \<Rightarrow> doc option"
  import_tpm_bootlog_enrich :: "string + (doc \<Rightarrow> exn + doc)"
  hashlib :: "string \<Rightarrow> hashclass option"
  set_order :: "int list \<Rightarrow> int \<Rightarrow> int"
  self_tools_version :: string

section \<open>The clock check\<close>

text \<open>
  \<open>Tpm._tpm2_clock_info_from_quote\<close>: raises on a quote that is empty, not of type
  \<open>r\<close>, not compound, or whose first segment does not decode; an exception of the
  attest decoder itself is caught and becomes the empty dictionary.
\<close>

definition tpm2_clock_info_from_quote ::
  "tpm_env \<Rightarrow> string \<Rightarrow> bool \<Rightarrow> exn + clock_info_dict" where
  "tpm2_clock_info_from_quote env quote compressed =
     (case quote of
        [] \<Rightarrow> Inl IndexError
      | q0 # quote' \<Rightarrow>
          if q0 \<noteq> CHR ''r'' then Inl (Exception (''Invalid quote type '' @ [q0]))
          else
            let quote_tokens = split_on CHR '':'' quote' in
            if length quote_tokens < 3
            then Inl (Exception (''Quote is not compound! '' @ quote'))
            else
              (case b64decode env (hd quote_tokens) of
                 Inl e \<Rightarrow> Inl e
               | Inr quoteblob \<Rightarrow>
                   (case (if compressed then zlib_decompress env quoteblob
                          else Inr quoteblob) of
                      Inl e \<Rightarrow> Inl e
                    | Inr quoteblob' \<Rightarrow>
                        (case get_tpms_attest_clock_info env quoteblob' of
                           Inl e \<Rightarrow> Inr []
                         | Inr d \<Rightarrow> Inr d))))"

text \<open>
  \<open>Tpm.check_quote_timing\<close>: the pair (error string, clock information to store).
  \<open>not (resetdiff and restartdiff)\<close> holds unless both differences are non-zero.
\<close>

definition check_quote_timing ::
  "tpm_env \<Rightarrow> TPMClockInfo \<Rightarrow> string \<Rightarrow> bool
     \<Rightarrow> exn + (string option \<times> TPMClockInfo option)" where
  "check_quote_timing env previous_clockinfo quote compressed =
     (case tpm2_clock_info_from_quote env quote compressed of
        Inl e \<Rightarrow> Inl e
      | Inr clock_info_dict \<Rightarrow>
          if clock_info_dict = []
          then Inr (Some ''_tpm2_clock_info_from_quote failed '', None)
          else
            (case from_dict env clock_info_dict of
               Inl e \<Rightarrow> Inl e
             | Inr tentative_current_clockinfo \<Rightarrow>
                 let resetdiff = resetcount tentative_current_clockinfo
                                   - resetcount previous_clockinfo;
                     restartdiff = restartcount tentative_current_clockinfo
                                   - restartcount previous_clockinfo
                 in
                 if resetdiff < 0
                 then Inr (Some ''resetCount value decreased on TPM between two consecutive quotes'', None)
                 else if restartdiff < 0
                 then Inr (Some ''restartCount value decreased on TPM between two consecutive quotes'', None)
                 else if safe tentative_current_clockinfo \<noteq> 1
                 then Inr (Some ''clock safe flag is disabled'', None)
                 else if \<not> (resetdiff \<noteq> 0 \<and> restartdiff \<noteq> 0)
                 then
                   (if clock tentative_current_clockinfo - clock previous_clockinfo \<le> 0
                    then Inr (Some ''clock timestamp did issued by TPM did not increase between two consecutive quotes'', None)
                    else Inr (None, Some tentative_current_clockinfo))
                 else Inr (None, None)))"

section \<open>Parsing the measured-boot log\<close>

text \<open>
  \<open>Tpm.__run\<close>: the lock changes nothing in the result. The text of the exception is
  shortened; its only reader, \<open>parse_binary_bootlog\<close>, drops it.
\<close>

definition run :: "tpm_env \<Rightarrow> string list \<Rightarrow> bytes \<Rightarrow> exn + RetDict" where
  "run env cmd tmp =
     (case cmd_exec_run env cmd tmp of
        Inl e \<Rightarrow> Inl e
      | Inr retDict \<Rightarrow>
          if code retDict \<noteq> EXIT_SUCCESS
          then Inl (Exception ''Command returned a code other than EXIT_SUCCESS'')
          else Inr retDict)"

text \<open>\<open>Tpm.parse_binary_bootlog\<close>: the failure report and the enriched log.\<close>

definition parse_binary_bootlog ::
  "tpm_env \<Rightarrow> config \<Rightarrow> bytes \<Rightarrow> exn + (Failure \<times> doc option)" where
  "parse_binary_bootlog env cfg log_bin =
     (let failure = new_Failure MEASURED_BOOT [''parser''] in
      case run env [''tpm2_eventlog'', ''--eventlog-version=2''] log_bin of
        Inl e \<Rightarrow>
          Inr (add_event failure ''tpm2_eventlog'' (Text ''running tpm2_eventlog failed'') True,
               None)
      | Inr retDict_tpm2 \<Rightarrow>
          if length (reterr retDict_tpm2) > 0
          then Inr (add_event failure ''tpm2_eventlog.warning''
                      (Fields [(''context'', VStr ''tpm2_eventlog exited with warnings''),
                               (''data'', VRepr (reterr retDict_tpm2))]) True,
                    None)
          else
            (case yaml_to_dict env (retout retDict_tpm2) of
               None \<Rightarrow>
                 Inr (add_event failure ''yaml''
                        (Text ''yaml output of tpm2_eventlog could not be parsed!'') True,
                      None)
             | Some log_parsed_data \<Rightarrow>
                 (case import_tpm_bootlog_enrich env of
                    Inl msg \<Rightarrow>
                      Inr (add_event failure ''bootlog_enrich''
                             (Text (''Could not load tpm_bootlog_enrich (which depends on ''
                                     @ LIBEFIVAR cfg @ ''): '' @ msg)) True,
                           None)
                  | Inr enrich \<Rightarrow>
                      (case enrich log_parsed_data of
                         Inl e \<Rightarrow> Inl e
                       | Inr log1 \<Rightarrow>
                           (case add_boot_aggregate (hashlib env) (stringify_pcr_keys log1) of
                              Inl e \<Rightarrow> Inl e
                            | Inr log3 \<Rightarrow>
                                Inr (failure, Some (unescape_eventlog log3)))))))"

text \<open>\<open>Tpm._parse_mb_bootlog\<close>: only \<open>binascii.Error\<close> is caught.\<close>

definition parse_mb_bootlog' ::
  "tpm_env \<Rightarrow> config \<Rightarrow> string \<Rightarrow> exn + (Failure \<times> doc option)" where
  "parse_mb_bootlog' env cfg log_b64 =
     (let failure = new_Failure MEASURED_BOOT [''parser''];
          caught = Inr (add_event failure ''log.base64decode''
                          (Text ''Measured boot log could not be decoded'') True, None)
      in
      case b64decode_validate env log_b64 of
        Inl e \<Rightarrow> if e = BinasciiError then caught else Inl e
      | Inr log_bin \<Rightarrow>
          (case parse_binary_bootlog env cfg log_bin of
             Inl e \<Rightarrow> if e = BinasciiError then caught else Inl e
           | Inr (failure_mb, result) \<Rightarrow>
               if failed failure_mb then Inr (merge failure failure_mb, None)
               else Inr (failure, result)))"

text \<open>
  \<open>Tpm.parse_mb_bootlog\<close>: the PCR values of the log for the hash algorithm, the boot
  aggregates, the log, and the failure report. \<open>.get\<close> on a log that is true and no
  dictionary raises.
\<close>

definition parse_mb_bootlog ::
  "tpm_env \<Rightarrow> config \<Rightarrow> string option \<Rightarrow> Hash
     \<Rightarrow> exn + ((key \<times> doc) list \<times> doc option \<times> doc \<times> Failure)" where
  "parse_mb_bootlog env cfg mb_measurement_list hash_alg =
     (let failure = new_Failure MEASURED_BOOT [''parser''] in
      case mb_measurement_list of
        None \<Rightarrow> Inr ([], None, DDict [], failure)
      | Some ml \<Rightarrow>
          if ml = [] then Inr ([], None, DDict [], failure)
          else
            (case parse_mb_bootlog' env cfg ml of
               Inl e \<Rightarrow> Inl e
             | Inr (failure_mb, mb_measurement_data) \<Rightarrow>
                 (case mb_measurement_data of
                    None \<Rightarrow> Inr ([], None, DDict [], merge failure failure_mb)
                  | Some data \<Rightarrow>
                      if \<not> truthy data then Inr ([], None, DDict [], merge failure failure_mb)
                      else
                        (case data of
                           DDict kvs \<Rightarrow>
                             (case map_of kvs (KStr ''pcrs'') of
                                Some (DDict log_pcrs) \<Rightarrow>
                                  (case map_of log_pcrs (KStr (hash_name hash_alg)) of
                                     Some (DDict pcr_hashes) \<Rightarrow>
                                       if pcr_hashes = []
                                       then Inr ([], None, DDict [],
                                              add_event failure ''invalid_pcrs_hashes''
                                                (Fields [(''got'', VDocOpt (Some (DDict pcr_hashes)))]) True)
                                       else
                                         (case map_of kvs (KStr ''boot_aggregates'') of
                                            Some (DDict boot_aggregates) \<Rightarrow>
                                              if boot_aggregates = []
                                              then Inr ([], None, DDict [],
                                                     add_event failure ''invalid_boot_aggregates''
                                                       (Fields [(''got'', VDocOpt (Some (DDict boot_aggregates)))]) True)
                                              else Inr (pcr_hashes, Some (DDict boot_aggregates), data, failure)
                                          | other \<Rightarrow>
                                              Inr ([], None, DDict [],
                                                add_event failure ''invalid_boot_aggregates''
                                                  (Fields [(''got'', VDocOpt other)]) True))
                                   | other \<Rightarrow>
                                       Inr ([], None, DDict [],
                                         add_event failure ''invalid_pcrs_hashes''
                                           (Fields [(''got'', VDocOpt other)]) True))
                              | other \<Rightarrow>
                                  Inr ([], None, DDict [],
                                    add_event failure ''invalid_pcrs''
                                      (Fields [(''got'', VDocOpt other)]) True))
                         | _ \<Rightarrow> Inl AttributeError))))"

section \<open>The PCR policy evaluator\<close>

text \<open>\<open>Tpm.__check_ima\<close>.\<close>

definition check_ima ::
  "tpm_env \<Rightarrow> AgentAttestState \<Rightarrow> string \<Rightarrow> string \<Rightarrow> doc \<Rightarrow> doc option \<Rightarrow> doc option
     \<Rightarrow> Hash \<Rightarrow> Failure" where
  "check_ima env agentAttestState pcrval ima_measurement_list runtime_policy ima_keyrings
     boot_aggregates hash_alg =
     (let failure = new_Failure IMA [];
          ima_failure = process_measurement_list env agentAttestState
                          (split_on (CHR 0x0A) ima_measurement_list) runtime_policy pcrval
                          ima_keyrings boot_aggregates hash_alg
      in merge failure ima_failure)"

text \<open>
  The allowlist of \<open>check_pcrs\<close>: the policy without its \<open>mask\<close> entry, the keys
  converted by \<open>int\<close>. A key that is no integer raises \<open>ValueError\<close>.
\<close>

fun int_keys :: "(string \<times> 'v) list \<Rightarrow> (int \<times> 'v) list \<Rightarrow> exn + (int \<times> 'v) list" where
  "int_keys [] acc = Inr acc"
| "int_keys ((k, v) # kvs) acc =
     (case py_int k of
        None \<Rightarrow> Inl ValueError
      | Some i \<Rightarrow> int_keys kvs (dict_set i v acc))"

definition pcr_allowlist_of :: "policy_dict \<Rightarrow> exn + (int \<times> string list) list" where
  "pcr_allowlist_of tpm_policy_dict =
     int_keys (filter (\<lambda>(k, v). k \<noteq> ''mask'') tpm_policy_dict) []"

text \<open>
  The two variables the blocks of \<open>check_pcrs\<close> update: the failure report and the set
  \<open>pcrs_in_quote\<close> of the indices already used for some validation.
\<close>

record pcr_state =
  failure :: Failure
  pcrs_in_quote :: "int set"

text \<open>
  Iteration over a Python set of integers. The order is the interpreter's (that of its hash
  table), so it is a parameter: the elements are visited by ascending \<open>set_order\<close>,
  elements of equal rank in the order of the list the set was made from. Every order of
  the elements is the order of some \<open>set_order\<close>.
\<close>

definition set_iter :: "tpm_env \<Rightarrow> int list \<Rightarrow> int list" where
  "set_iter env xs = sort_key (set_order env xs) (remdups xs)"

text \<open>A \<open>for\<close> loop whose body may raise.\<close>

fun for_each :: "('a \<Rightarrow> 's \<Rightarrow> exn + 's) \<Rightarrow> 'a list \<Rightarrow> 's \<Rightarrow> exn + 's" where
  "for_each body [] st = Inr st"
| "for_each body (x # xs) st =
     (case body x st of
        Inl e \<Rightarrow> Inl e
      | Inr st' \<Rightarrow> for_each body xs st')"

text \<open>
  The block "Validate data PCR". The test \<open>config.TPM_DATA_PCR in pcr_nums\<close> and the
  reads \<open>pcrs_dict[config.TPM_DATA_PCR]\<close> are one lookup.
\<close>

definition validate_data_pcr ::
  "config \<Rightarrow> (int \<times> string) list \<Rightarrow> string option \<Rightarrow> Hash \<Rightarrow> pcr_state \<Rightarrow> pcr_state" where
  "validate_data_pcr cfg pcrs_dict data hash_alg st =
     (case (map_of pcrs_dict (TPM_DATA_PCR cfg), data) of
        (Some quoted, Some d) \<Rightarrow>
          let expectedval = sim_extend d hash_alg in
          st\<lparr>failure :=
                (if expectedval \<noteq> quoted
                 then add_event (failure st) (''invalid_pcr_'' @ str_int (TPM_DATA_PCR cfg))
                        (Fields [(''got'', VStr quoted), (''expected'', VStr expectedval)]) True
                 else failure st),
              pcrs_in_quote := insert (TPM_DATA_PCR cfg) (pcrs_in_quote st)\<rparr>
      | _ \<Rightarrow>
          st\<lparr>failure :=
                add_event (failure st) (''missing_pcr_'' @ str_int (TPM_DATA_PCR cfg))
                  (Text (''Data PCR '' @ str_int (TPM_DATA_PCR cfg)
                          @ '' is missing in quote, but is required'')) True\<rparr>)"

text \<open>The block "Check for ima PCR".\<close>

definition check_ima_pcr ::
  "tpm_env \<Rightarrow> config \<Rightarrow> AgentAttestState \<Rightarrow> (int \<times> string) list \<Rightarrow> string option \<Rightarrow> doc
     \<Rightarrow> doc option \<Rightarrow> doc option \<Rightarrow> Hash \<Rightarrow> pcr_state \<Rightarrow> pcr_state" where
  "check_ima_pcr env cfg agentAttestState pcrs_dict ima_measurement_list runtime_policy
     ima_keyrings boot_aggregates hash_alg st =
     (case map_of pcrs_dict (IMA_PCR cfg) of
        None \<Rightarrow> st
      | Some pcrval \<Rightarrow>
          st\<lparr>failure :=
                (case ima_measurement_list of
                   None \<Rightarrow>
                     add_event (failure st) (''unused_pcr_'' @ str_int (IMA_PCR cfg))
                       (Text ''IMA PCR in policy, but no measurement list provided'') True
                 | Some ml \<Rightarrow>
                     merge (failure st)
                       (check_ima env agentAttestState pcrval ml runtime_policy ima_keyrings
                          boot_aggregates hash_alg)),
              pcrs_in_quote := insert (IMA_PCR cfg) (pcrs_in_quote st)\<rparr>)"

text \<open>
  \<open>hex(x)\<close> of a value of the log: \<open>None\<close> is \<open>TypeError\<close>. \<open>lstrip("0")\<close>.
\<close>

definition doc_hex :: "doc \<Rightarrow> string option" where
  "doc_hex x =
     (case x of
        DInt i \<Rightarrow> Some (py_hex i)
      | DBool b \<Rightarrow> Some (py_hex (if b then 1 else 0))
      | _ \<Rightarrow> None)"

definition lstrip0 :: "string \<Rightarrow> string" where
  "lstrip0 s = dropWhile (\<lambda>c. c = CHR ''0'') s"

text \<open>
  One pass of the loop over the measured-boot PCRs of the quote. The state is the pair of
  the two variables above and the report \<open>mb_pcr_failure\<close>. The \<open>continue\<close> after
  \<open>unused_pcr\<close> leaves the index out of \<open>pcrs_in_quote\<close>; without reference state
  the body does nothing.
\<close>

definition mb_pcr_step ::
  "(int \<times> string list) list \<Rightarrow> (int \<times> string) list \<Rightarrow> doc \<Rightarrow> string option
     \<Rightarrow> (key \<times> doc) list \<Rightarrow> int \<Rightarrow> pcr_state \<times> Failure \<Rightarrow> exn + (pcr_state \<times> Failure)" where
  "mb_pcr_step pcr_allowlist pcrs_dict mb_refstate_data mb_measurement_list mb_pcrs_hashes
     pcr_num stf =
     (let st = fst stf; mb_pcr_failure = snd stf in
      if truthy mb_refstate_data then
        if mb_measurement_list = None \<or> mb_measurement_list = Some []
        then Inr (st\<lparr>failure :=
                       add_event (failure st) (''unused_pcr_'' @ str_int pcr_num)
                         (Text (''Measured Boot PCR '' @ str_int pcr_num
                                 @ '' in policy, but no measurement list provided'')) True\<rparr>,
                  mb_pcr_failure)
        else
          (case doc_hex (case map_of mb_pcrs_hashes (KStr (str_int pcr_num)) of
                           None \<Rightarrow> DInt 0
                         | Some v \<Rightarrow> v) of
             None \<Rightarrow> Inl TypeError
           | Some h \<Rightarrow>
               (case map_of pcrs_dict pcr_num of
                  None \<Rightarrow> Inl KeyError
                | Some pcrval \<Rightarrow>
                    let val_from_log_hex = drop 2 h;
                        val_from_log_hex_stripped = lstrip0 val_from_log_hex;
                        pcrval_stripped = lstrip0 pcrval;
                        mb_pcr_failure' =
                          (if val_from_log_hex_stripped \<noteq> pcrval_stripped
                           then add_event mb_pcr_failure (''invalid_pcr_'' @ str_int pcr_num)
                                  (Fields [(''context'', VStr ''SHA256 boot event log PCR value does not match''),
                                           (''got'', VStr pcrval),
                                           (''expected'', VStr val_from_log_hex)]) True
                           else mb_pcr_failure);
                        failure' =
                          (case map_of pcr_allowlist pcr_num of
                             None \<Rightarrow> failure st
                           | Some allowed \<Rightarrow>
                               if pcrval \<notin> set allowed
                               then add_event (failure st) (''invalid_pcr_'' @ str_int pcr_num)
                                      (Fields [(''context'', VStr ''PCR value is not in allowlist''),
                                               (''got'', VStr pcrval),
                                               (''expected'', VStrs allowed)]) True
                               else failure st)
                    in Inr (st\<lparr>failure := failure',
                                pcrs_in_quote := insert pcr_num (pcrs_in_quote st)\<rparr>,
                            mb_pcr_failure')))
      else Inr stf)"

text \<open>
  The block "Collect mismatched measured boot PCRs": the loop runs only if the parsing
  worked, and \<open>mb_pcr_failure\<close> is merged after it.
\<close>

definition measured_boot_pcrs ::
  "tpm_env \<Rightarrow> config \<Rightarrow> (int \<times> string list) list \<Rightarrow> (int \<times> string) list \<Rightarrow> doc \<Rightarrow> string option
     \<Rightarrow> (key \<times> doc) list \<Rightarrow> Failure \<Rightarrow> pcr_state \<Rightarrow> exn + pcr_state" where
  "measured_boot_pcrs env cfg pcr_allowlist pcrs_dict mb_refstate_data mb_measurement_list
     mb_pcrs_hashes mb_failure st =
     (let mb_pcr_failure = new_Failure MEASURED_BOOT [] in
      case (if \<not> failed mb_failure
            then for_each
                   (mb_pcr_step pcr_allowlist pcrs_dict mb_refstate_data mb_measurement_list
                      mb_pcrs_hashes)
                   (set_iter env (filter (\<lambda>n. n \<in> set (map fst pcrs_dict)) (MEASUREDBOOT_PCRS cfg)))
                   (st, mb_pcr_failure)
            else Inr (st, mb_pcr_failure)) of
        Inl e \<Rightarrow> Inl e
      | Inr (st', mb_pcr_failure') \<Rightarrow>
          Inr (st'\<lparr>failure := merge (failure st') mb_pcr_failure'\<rparr>))"

text \<open>One pass of the loop "Check the remaining non validated PCRs".\<close>

definition remaining_pcr_step ::
  "(int \<times> string list) list \<Rightarrow> (int \<times> string) list \<Rightarrow> int \<Rightarrow> pcr_state \<Rightarrow> exn + pcr_state" where
  "remaining_pcr_step pcr_allowlist pcrs_dict pcr_num st =
     (case map_of pcr_allowlist pcr_num of
        None \<Rightarrow> Inr st
      | Some allowed \<Rightarrow>
          (case map_of pcrs_dict pcr_num of
             None \<Rightarrow> Inl KeyError
           | Some pcrval \<Rightarrow>
               Inr (st\<lparr>failure :=
                          (if pcrval \<notin> set allowed
                           then add_event (failure st) (''invalid_pcr_'' @ str_int pcr_num)
                                  (Fields [(''context'', VStr ''PCR value is not in allowlist''),
                                           (''got'', VStr pcrval),
                                           (''expected'', VStrs allowed)]) True
                           else failure st),
                        pcrs_in_quote := insert pcr_num (pcrs_in_quote st)\<rparr>)))"

definition remaining_pcrs ::
  "tpm_env \<Rightarrow> (int \<times> string list) list \<Rightarrow> (int \<times> string) list \<Rightarrow> pcr_state \<Rightarrow> exn + pcr_state" where
  "remaining_pcrs env pcr_allowlist pcrs_dict st =
     for_each (remaining_pcr_step pcr_allowlist pcrs_dict)
       (set_iter env (filter (\<lambda>n. n \<notin> pcrs_in_quote st) (map fst pcrs_dict))) st"

text \<open>The allowlist indices that no block has used, and their one event.\<close>

definition missing_pcrs :: "tpm_env \<Rightarrow> (int \<times> string list) list \<Rightarrow> pcr_state \<Rightarrow> pcr_state" where
  "missing_pcrs env pcr_allowlist st =
     (let missing = set_iter env (filter (\<lambda>n. n \<notin> pcrs_in_quote st) (map fst pcr_allowlist)) in
      if length missing > 0
      then st\<lparr>failure :=
                 add_event (failure st) ''missing_pcrs''
                   (Fields [(''context'', VStr ''PCRs are missing in quote''),
                            (''data'', VInts missing)]) True\<rparr>
      else st)"

text \<open>
  \<open>Tpm.check_pcrs\<close> up to its last block: the state before the call of the
  structural policy evaluator, with what that call needs.
\<close>

definition check_pcrs_blocks ::
  "tpm_env \<Rightarrow> config \<Rightarrow> AgentAttestState \<Rightarrow> string + policy_dict \<Rightarrow> (int \<times> string) list
     \<Rightarrow> string option \<Rightarrow> string option \<Rightarrow> doc \<Rightarrow> doc option \<Rightarrow> string option \<Rightarrow> string option
     \<Rightarrow> Hash \<Rightarrow> exn + (pcr_state \<times> Failure \<times> doc)" where
  "check_pcrs_blocks env cfg agentAttestState tpm_policy pcrs_dict data ima_measurement_list
     runtime_policy ima_keyrings mb_measurement_list mb_refstate_str hash_alg =
     (case (case tpm_policy of Inl str \<Rightarrow> json_loads env str | Inr d \<Rightarrow> Inr d) of
        Inl e \<Rightarrow> Inl e
      | Inr tpm_policy_dict \<Rightarrow>
          (case pcr_allowlist_of tpm_policy_dict of
             Inl e \<Rightarrow> Inl e
           | Inr pcr_allowlist \<Rightarrow>
               (case parse_mb_bootlog env cfg mb_measurement_list hash_alg of
                  Inl e \<Rightarrow> Inl e
                | Inr (mb_pcrs_hashes, boot_aggregates, mb_measurement_data, mb_failure) \<Rightarrow>
                    let mb_refstate_data = snd (snd (get_policy env mb_refstate_str));
                        st0 = \<lparr>failure = merge (new_Failure PCR_VALIDATION []) mb_failure,
                               pcrs_in_quote = {}\<rparr>;
                        st1 = validate_data_pcr cfg pcrs_dict data hash_alg st0;
                        st2 = check_ima_pcr env cfg agentAttestState pcrs_dict
                                ima_measurement_list runtime_policy ima_keyrings
                                boot_aggregates hash_alg st1
                    in
                    (case measured_boot_pcrs env cfg pcr_allowlist pcrs_dict mb_refstate_data
                            mb_measurement_list mb_pcrs_hashes mb_failure st2 of
                       Inl e \<Rightarrow> Inl e
                     | Inr st3 \<Rightarrow>
                         (case remaining_pcrs env pcr_allowlist pcrs_dict st3 of
                            Inl e \<Rightarrow> Inl e
                          | Inr st4 \<Rightarrow>
                              Inr (missing_pcrs env pcr_allowlist st4, mb_failure,
                                   mb_measurement_data))))))"

text \<open>\<open>Tpm.check_pcrs\<close>.\<close>

definition check_pcrs ::
  "tpm_env \<Rightarrow> config \<Rightarrow> AgentAttestState \<Rightarrow> string + policy_dict \<Rightarrow> (int \<times> string) list
     \<Rightarrow> string option \<Rightarrow> string option \<Rightarrow> doc \<Rightarrow> doc option \<Rightarrow> string option \<Rightarrow> string option
     \<Rightarrow> Hash \<Rightarrow> exn + Failure" where
  "check_pcrs env cfg agentAttestState tpm_policy pcrs_dict data ima_measurement_list
     runtime_policy ima_keyrings mb_measurement_list mb_refstate_str hash_alg =
     (case check_pcrs_blocks env cfg agentAttestState tpm_policy pcrs_dict data
             ima_measurement_list runtime_policy ima_keyrings mb_measurement_list
             mb_refstate_str hash_alg of
        Inl e \<Rightarrow> Inl e
      | Inr (st, mb_failure, mb_measurement_data) \<Rightarrow>
          (case get_policy env mb_refstate_str of
             (mb_policy, mb_policy_name, mb_refstate_data) \<Rightarrow>
               if \<not> failed mb_failure \<and> truthy mb_refstate_data
               then Inr (merge (failure st)
                           (evaluate_policy env mb_policy mb_policy_name mb_refstate_data
                              mb_measurement_data (pcrs_in_quote st)
                              (agent_id agentAttestState)))
               else Inr (failure st)))"

section \<open>The quote verification orchestrator\<close>

text \<open>
  \<open>Tpm._tpm2_checkquote\<close>: the quoted PCRs and an error string. An exception of
  \<open>tpm_util.checkquote\<close> is caught and its \<open>str()\<close> returned; bad input raises.
\<close>

definition tpm2_checkquote ::
  "tpm_env \<Rightarrow> string \<Rightarrow> string \<Rightarrow> string \<Rightarrow> string \<Rightarrow> bool
     \<Rightarrow> exn + ((int \<times> string) list \<times> string)" where
  "tpm2_checkquote env aikTpmFromRegistrar quote nonce hash_alg compressed =
     (case b64decode env aikTpmFromRegistrar of
        Inl e \<Rightarrow> Inl e
      | Inr aik \<Rightarrow>
     (case pubkey_pem env aik of
        Inl e \<Rightarrow> Inl e
      | Inr aikFromRegistrar \<Rightarrow>
     (case quote of
        [] \<Rightarrow> Inl IndexError
      | q0 # quote' \<Rightarrow>
          if q0 \<noteq> CHR ''r'' then Inl (Exception (''Invalid quote type '' @ [q0]))
          else
            (case split_on CHR '':'' quote' of
               t0 # t1 # t2 # ts \<Rightarrow>
                 (case b64decode env t0 of
                    Inl e \<Rightarrow> Inl e
                  | Inr quoteblob \<Rightarrow>
                 (case b64decode env t1 of
                    Inl e \<Rightarrow> Inl e
                  | Inr sigblob \<Rightarrow>
                 (case b64decode env t2 of
                    Inl e \<Rightarrow> Inl e
                  | Inr pcrblob \<Rightarrow>
                 (case (if compressed then zlib_decompress env quoteblob else Inr quoteblob) of
                    Inl e \<Rightarrow> Inl e
                  | Inr quoteblob' \<Rightarrow>
                 (case (if compressed then zlib_decompress env sigblob else Inr sigblob) of
                    Inl e \<Rightarrow> Inl e
                  | Inr sigblob' \<Rightarrow>
                 (case (if compressed then zlib_decompress env pcrblob else Inr pcrblob) of
                    Inl e \<Rightarrow> Inl e
                  | Inr pcrblob' \<Rightarrow>
                      (case checkquote env aikFromRegistrar nonce sigblob' quoteblob' pcrblob'
                              hash_alg of
                         Inl msg \<Rightarrow> Inr ([], msg)
                       | Inr pcrs_dict \<Rightarrow> Inr (pcrs_dict, []))))))))
             | _ \<Rightarrow> Inl (Exception (''Quote is not compound! '' @ quote'))))))"

text \<open>
  \<open>Tpm.check_quote\<close>: the failure report and the agent state, whose clock information
  the function replaces when the clock check hands one back. \<open>if err:\<close> and
  \<open>if clock_failure:\<close> test for a string that is not empty.
\<close>

definition check_quote ::
  "tpm_env \<Rightarrow> config \<Rightarrow> AgentAttestState \<Rightarrow> string \<Rightarrow> string option \<Rightarrow> string \<Rightarrow> string
     \<Rightarrow> (string + policy_dict) option \<Rightarrow> string option \<Rightarrow> doc option \<Rightarrow> Hash option
     \<Rightarrow> doc option \<Rightarrow> string option \<Rightarrow> string option \<Rightarrow> bool
     \<Rightarrow> exn + (Failure \<times> AgentAttestState)" where
  "check_quote env cfg agentAttestState nonce data quote aikTpmFromRegistrar tpm_policy
     ima_measurement_list runtime_policy hash_alg ima_keyrings mb_measurement_list mb_refstate
     compressed =
     (let tpm_policy' = (case tpm_policy of None \<Rightarrow> Inr [] | Some p \<Rightarrow> p);
          runtime_policy' = (case runtime_policy of
                               None \<Rightarrow> EMPTY_RUNTIME_POLICY cfg
                             | Some r \<Rightarrow> r);
          failure = new_Failure QUOTE_VALIDATION []
      in
      case hash_alg of
        None \<Rightarrow>
          Inr (add_event failure ''hash_alg_missing'' (Text ''Hash algorithm cannot be empty'') False,
               agentAttestState)
      | Some hash_alg' \<Rightarrow>
          (case tpm2_checkquote env aikTpmFromRegistrar quote nonce (hash_name hash_alg')
                  compressed of
             Inl e \<Rightarrow> Inl e
           | Inr (pcrs_dict, err) \<Rightarrow>
               if err \<noteq> []
               then Inr (add_event failure ''quote_validation''
                           (Fields [(''message'', VStr ''Quote data validation''),
                                    (''error'', VStr err)]) False,
                         agentAttestState)
               else
                 (case check_quote_timing env (tpm_clockinfo agentAttestState) quote compressed of
                    Inl e \<Rightarrow> Inl e
                  | Inr (clock_failure, current_clock_info) \<Rightarrow>
                      let clock_msg = (case clock_failure of None \<Rightarrow> [] | Some msg \<Rightarrow> msg) in
                      if clock_msg \<noteq> []
                      then Inr (add_event failure ''quote_validation''
                                  (Fields [(''message'', VStr ''Validation of clockinfo from quote using tpm2-tools''),
                                           (''data'', VStr clock_msg)]) False,
                                agentAttestState)
                      else
                        let agentAttestState' =
                              (case current_clock_info of
                                 None \<Rightarrow> agentAttestState
                               | Some ci \<Rightarrow> agentAttestState\<lparr>tpm_clockinfo := ci\<rparr>)
                        in
                        (case check_pcrs env cfg agentAttestState' tpm_policy' pcrs_dict data
                                ima_measurement_list runtime_policy' ima_keyrings
                                mb_measurement_list mb_refstate hash_alg' of
                           Inl e \<Rightarrow> Inl e
                         | Inr f \<Rightarrow> Inr (f, agentAttestState')))))"

section \<open>Stand-ins for the collaborators\<close>

text \<open>
  Concrete collaborators on which the theorems below are exercised. Base64 and zlib are
  the identity on the characters; a quote blob of four bytes is read as clock, reset
  count, restart count and safe flag; a quote with an empty signature blob does not
  verify, and the PCR blob lists the indices quoted (each with the value \<open>00\<close>).
  A set of small integers is visited by ascending remainder modulo 8, as the interpreter
  does for a set of few elements (\<open>{8, 1}\<close> as 8, 1); the tools version detected is
  \<open>5.4\<close>.
\<close>

definition test_env :: tpm_env where
  "test_env =
     \<lparr>b64decode = (\<lambda>s. Inr (map of_char s)),
      b64decode_validate = (\<lambda>s. Inr (map of_char s)),
      zlib_decompress = (\<lambda>bs. Inr bs),
      get_tpms_attest_clock_info =
        (\<lambda>bs. case bs of
                [c, rs, rt, sf] \<Rightarrow>
                  Inr [(''clock'', uint c), (''resetCount'', uint rs),
                       (''restartCount'', uint rt), (''safe'', uint sf)]
              | _ \<Rightarrow> Inl ValueError),
      from_dict =
        (\<lambda>d. case (map_of d ''clock'', map_of d ''resetCount'', map_of d ''restartCount'',
                    map_of d ''safe'') of
               (Some c, Some rs, Some rt, Some sf) \<Rightarrow>
                 Inr \<lparr>clock = c, resetcount = rs, restartcount = rt, safe = sf\<rparr>
             | _ \<Rightarrow> Inl KeyError),
      pubkey_pem = (\<lambda>bs. Inr bs),
      checkquote =
        (\<lambda>aik nonce sigblob quoteblob pcrblob alg.
           if sigblob = [] then Inl ''signature does not verify''
           else Inr (map (\<lambda>b. (uint b, ''00'')) pcrblob)),
      json_loads = (\<lambda>s. Inl ValueError),
      get_policy =
        (\<lambda>r. case r of
               None \<Rightarrow> (DNull, [], DDict [])
             | Some s \<Rightarrow> (DStr s, s, DDict [(KStr ''refstate'', DStr s)])),
      evaluate_policy = (\<lambda>pol nm refstate log claimed agent. new_Failure MEASURED_BOOT []),
      process_measurement_list =
        (\<lambda>agent lines pol pcrval keyrings aggs alg. new_Failure IMA []),
      cmd_exec_run = (\<lambda>cmd tmp. Inr \<lparr>code = 0, retout = [tmp], reterr = []\<rparr>),
      yaml_to_dict = (\<lambda>lines. None),
      import_tpm_bootlog_enrich = Inr (\<lambda>d. Inr d),
      hashlib =
        (\<lambda>nm. if nm = ''sha256''
              then Some \<lparr>digest_size = 1, digest = (\<lambda>bs. [of_nat (length bs)])\<rparr>
              else None),
      set_order = (\<lambda>xs n. n mod 8),
      self_tools_version = ''5.4''\<rparr>"

definition test_config :: config where
  "test_config =
     \<lparr>TPM_DATA_PCR = 16, IMA_PCR = 10,
      MEASUREDBOOT_PCRS = [0, 1, 2, 3, 4, 5, 6, 7, 8, 9, 11, 12, 13, 14, 15],
      LIBEFIVAR = ''libefivar.so'', EMPTY_RUNTIME_POLICY = DDict []\<rparr>"

definition test_hash :: Hash where
  "test_hash =
     \<lparr>hash_name = ''sha256'',
      hash = (\<lambda>bs. [of_nat (length bs), 0xAB]),
      get_start_hash = [0, 0]\<rparr>"

text \<open>
  A hash algorithm whose digest can be read: the function is the identity and the initial
  PCR value is one zero byte.
\<close>

definition plain_hash :: Hash where
  "plain_hash = \<lparr>hash_name = ''plain'', hash = (\<lambda>bs. bs), get_start_hash = [0]\<rparr>"


definition test_agent :: AgentAttestState where
  "test_agent =
     \<lparr>agent_id = ''agent-1'',
      tpm_clockinfo = \<lparr>clock = 100, resetcount = 0, restartcount = 0, safe = 1\<rparr>\<rparr>"

text \<open>The number a string of decimal digits stands for: the inverse of \<open>str_nat\<close>.\<close>

definition digits_nat :: "string \<Rightarrow> nat" where
  "digits_nat s = foldl (\<lambda>a c. 10 * a + digit_value c) 0 s"

section \<open>Notions used in the proofs\<close>

text \<open>
  \<open>adds N I st st'\<close>: from \<open>st\<close> to \<open>st'\<close> the report kept its scope and its events
  and gained events with names in \<open>N\<close> only, and the set of used indices grew by indices
  in \<open>I\<close> only. \<open>parser_names\<close> are the names of the events the log parser adds.
\<close>

definition adds :: "string set \<Rightarrow> int set \<Rightarrow> pcr_state \<Rightarrow> pcr_state \<Rightarrow> bool" where
  "adds N I st st' \<longleftrightarrow>
     component (failure st') = component (failure st) \<and>
     sub_components (failure st') = sub_components (failure st) \<and>
     (\<exists>more. events (failure st') = events (failure st) @ more \<and> (\<forall>e\<in>set more. name e \<in> N)) \<and>
     pcrs_in_quote st \<subseteq> pcrs_in_quote st' \<and>
     pcrs_in_quote st' \<subseteq> pcrs_in_quote st \<union> I"

definition parser_names :: "string set" where
  "parser_names =
     {''tpm2_eventlog'', ''tpm2_eventlog.warning'', ''yaml'', ''bootlog_enrich'',
      ''log.base64decode'', ''invalid_pcrs'', ''invalid_pcrs_hashes'',
      ''invalid_boot_aggregates''}"

definition collaborators_silent :: "tpm_env \<Rightarrow> string \<Rightarrow> bool" where
  "collaborators_silent env nm \<longleftrightarrow>
     (\<forall>agent lines rp v kr ba h.
        \<forall>e\<in>set (events (process_measurement_list env agent lines rp v kr ba h)). name e \<noteq> nm) \<and>
     (\<forall>pol pn rs log claimed aid.
        \<forall>e\<in>set (events (evaluate_policy env pol pn rs log claimed aid)). name e \<noteq> nm)"

section \<open>Properties of the clock check\<close>

lemma check_quote_timing_extracted:
  assumes "tpm2_clock_info_from_quote env quote compressed = Inr d"
    and "d \<noteq> []"
    and "from_dict env d = Inr cur"
  shows "check_quote_timing env prev quote compressed =
           (if resetcount cur - resetcount prev < 0
            then Inr (Some ''resetCount value decreased on TPM between two consecutive quotes'', None)
            else if restartcount cur - restartcount prev < 0
            then Inr (Some ''restartCount value decreased on TPM between two consecutive quotes'', None)
            else if safe cur \<noteq> 1
            then Inr (Some ''clock safe flag is disabled'', None)
            else if \<not> (resetcount cur - resetcount prev \<noteq> 0
                        \<and> restartcount cur - restartcount prev \<noteq> 0)
            then (if clock cur - clock prev \<le> 0
                  then Inr (Some ''clock timestamp did issued by TPM did not increase between two consecutive quotes'', None)
                  else Inr (None, Some cur))
            else Inr (None, None))"
  using assms by (simp add: check_quote_timing_def Let_def)

text \<open>
  Claim C3. Whenever a current clock information was extracted and its reset count or its
  restart count is below the previous one, \<open>check_quote_timing\<close> rejects: it returns
  an error string that is not empty, and no clock information to store.
\<close>

theorem counter_decrease_rejects:
  assumes "tpm2_clock_info_from_quote env quote compressed = Inr d"
    and "d \<noteq> []"
    and "from_dict env d = Inr cur"
    and "resetcount cur < resetcount prev \<or> restartcount cur < restartcount prev"
  shows "\<exists>msg. msg \<noteq> [] \<and> check_quote_timing env prev quote compressed = Inr (Some msg, None)"
  using assms(4) by (auto simp: check_quote_timing_extracted [OF assms(1-3)])

theorem counter_decrease_rejects_witness:
  "tpm2_clock_info_from_quote test_env
     (CHR ''r'' # [CHR 0x7F, CHR 0x02, CHR 0x00, CHR 0x01] @ ''::'') False =
     Inr [(''clock'', 127), (''resetCount'', 2), (''restartCount'', 0), (''safe'', 1)]
   \<and> (\<exists>msg. msg \<noteq> [] \<and>
         check_quote_timing test_env \<lparr>clock = 100, resetcount = 3, restartcount = 0, safe = 1\<rparr>
           (CHR ''r'' # [CHR 0x7F, CHR 0x02, CHR 0x00, CHR 0x01] @ ''::'') False =
         Inr (Some msg, None))"
proof -
  let ?q = "CHR ''r'' # [CHR 0x7F, CHR 0x02, CHR 0x00, CHR 0x01] @ ''::''"
  let ?prev = "\<lparr>clock = 100, resetcount = 3, restartcount = 0, safe = 1\<rparr>"
  let ?cur = "\<lparr>clock = 127, resetcount = 2, restartcount = 0, safe = 1\<rparr>"
  let ?d = "[(''clock'', 127), (''resetCount'', 2), (''restartCount'', 0), (''safe'', 1 :: int)]"
  have 1: "tpm2_clock_info_from_quote test_env ?q False = Inr ?d"
    by (simp add: tpm2_clock_info_from_quote_def test_env_def)
  have 2: "?d \<noteq> []" by simp
  have 3: "from_dict test_env ?d = Inr ?cur" by (simp add: test_env_def)
  have 4: "resetcount ?cur < resetcount ?prev \<or> restartcount ?cur < restartcount ?prev" by simp
  show ?thesis using 1 counter_decrease_rejects [OF 1 2 3 4] by blast
qed

text \<open>
  Claim C4. With clock information extracted, the safe flag 1 and both counter
  differences zero, \<open>check_quote_timing\<close> rejects when the clock did not advance
  and accepts when it did, handing back the current clock information.
\<close>

theorem unchanged_counters_need_clock_advance:
  assumes "tpm2_clock_info_from_quote env quote compressed = Inr d"
    and "d \<noteq> []"
    and "from_dict env d = Inr cur"
    and "safe cur = 1"
    and "resetcount cur - resetcount prev = 0"
    and "restartcount cur - restartcount prev = 0"
  shows "(clock cur \<le> clock prev \<longrightarrow>
            (\<exists>msg. msg \<noteq> [] \<and>
               check_quote_timing env prev quote compressed = Inr (Some msg, None)))
       \<and> (clock prev < clock cur \<longrightarrow>
            check_quote_timing env prev quote compressed = Inr (None, Some cur))"
  using assms(4-6) by (auto simp: check_quote_timing_extracted [OF assms(1-3)])

theorem unchanged_counters_need_clock_advance_witness:
  "(\<exists>msg. msg \<noteq> [] \<and>
      check_quote_timing test_env \<lparr>clock = 100, resetcount = 2, restartcount = 5, safe = 1\<rparr>
        (CHR ''r'' # [CHR 0x64, CHR 0x02, CHR 0x05, CHR 0x01] @ ''::'') False =
      Inr (Some msg, None))
   \<and> check_quote_timing test_env \<lparr>clock = 99, resetcount = 2, restartcount = 5, safe = 1\<rparr>
        (CHR ''r'' # [CHR 0x64, CHR 0x02, CHR 0x05, CHR 0x01] @ ''::'') False =
      Inr (None, Some \<lparr>clock = 100, resetcount = 2, restartcount = 5, safe = 1\<rparr>)"
proof -
  let ?q = "CHR ''r'' # [CHR 0x64, CHR 0x02, CHR 0x05, CHR 0x01] @ ''::''"
  let ?cur = "\<lparr>clock = 100, resetcount = 2, restartcount = 5, safe = 1\<rparr>"
  let ?d = "[(''clock'', 100), (''resetCount'', 2), (''restartCount'', 5), (''safe'', 1 :: int)]"
  have 1: "tpm2_clock_info_from_quote test_env ?q False = Inr ?d"
    by (simp add: tpm2_clock_info_from_quote_def test_env_def)
  have 2: "?d \<noteq> []" by simp
  have 3: "from_dict test_env ?d = Inr ?cur" by (simp add: test_env_def)
  have a: "\<exists>msg. msg \<noteq> [] \<and> check_quote_timing test_env ?cur ?q False = Inr (Some msg, None)"
    using unchanged_counters_need_clock_advance [OF 1 2 3, of ?cur] by simp
  have b: "check_quote_timing test_env \<lparr>clock = 99, resetcount = 2, restartcount = 5, safe = 1\<rparr>
             ?q False = Inr (None, Some ?cur)"
    using unchanged_counters_need_clock_advance
            [OF 1 2 3, of "\<lparr>clock = 99, resetcount = 2, restartcount = 5, safe = 1\<rparr>"]
    by simp
  show ?thesis using a b by blast
qed

text \<open>
  Claim C2 says the clock comparison is skipped as soon as one counter advanced. The
  source tests \<open>not (resetdiff and restartdiff)\<close>: with a reset and no restart the
  comparison still runs, and a clock that went back is rejected.
\<close>

theorem one_counter_advanced_counterexample:
  "tpm2_clock_info_from_quote test_env
     (CHR ''r'' # [CHR 0x32, CHR 0x01, CHR 0x00, CHR 0x01] @ ''::'') False =
     Inr [(''clock'', 50), (''resetCount'', 1), (''restartCount'', 0), (''safe'', 1)]
   \<and> from_dict test_env [(''clock'', 50), (''resetCount'', 1), (''restartCount'', 0), (''safe'', 1)] =
       Inr \<lparr>clock = 50, resetcount = 1, restartcount = 0, safe = 1\<rparr>
   \<and> check_quote_timing test_env \<lparr>clock = 100, resetcount = 0, restartcount = 0, safe = 1\<rparr>
       (CHR ''r'' # [CHR 0x32, CHR 0x01, CHR 0x00, CHR 0x01] @ ''::'') False =
       Inr (Some ''clock timestamp did issued by TPM did not increase between two consecutive quotes'',
            None)"
  by (simp add: check_quote_timing_def tpm2_clock_info_from_quote_def test_env_def)

text \<open>
  Claim C2, amended. With clock information extracted, no counter decreased and the safe
  flag 1: when both the reset count and the restart count advanced, the quote is accepted
  whatever the clock reads, and no clock information is handed back; when at most one of
  them advanced, the clock must have advanced.
\<close>

theorem both_counters_advanced_skip_clock:
  assumes "tpm2_clock_info_from_quote env quote compressed = Inr d"
    and "d \<noteq> []"
    and "from_dict env d = Inr cur"
    and "safe cur = 1"
    and "0 \<le> resetcount cur - resetcount prev"
    and "0 \<le> restartcount cur - restartcount prev"
  shows "check_quote_timing env prev quote compressed =
           (if 0 < resetcount cur - resetcount prev \<and> 0 < restartcount cur - restartcount prev
            then Inr (None, None)
            else if clock prev < clock cur
            then Inr (None, Some cur)
            else Inr (Some ''clock timestamp did issued by TPM did not increase between two consecutive quotes'', None))"
  using assms(4-6) by (auto simp: check_quote_timing_extracted [OF assms(1-3)])

theorem both_counters_advanced_skip_clock_witness:
  "check_quote_timing test_env \<lparr>clock = 100, resetcount = 0, restartcount = 0, safe = 1\<rparr>
     (CHR ''r'' # [CHR 0x32, CHR 0x01, CHR 0x01, CHR 0x01] @ ''::'') False = Inr (None, None)"
proof -
  let ?q = "CHR ''r'' # [CHR 0x32, CHR 0x01, CHR 0x01, CHR 0x01] @ ''::''"
  let ?cur = "\<lparr>clock = 50, resetcount = 1, restartcount = 1, safe = 1\<rparr>"
  let ?d = "[(''clock'', 50), (''resetCount'', 1), (''restartCount'', 1), (''safe'', 1 :: int)]"
  have 1: "tpm2_clock_info_from_quote test_env ?q False = Inr ?d"
    by (simp add: tpm2_clock_info_from_quote_def test_env_def)
  have 2: "?d \<noteq> []" by simp
  have 3: "from_dict test_env ?d = Inr ?cur" by (simp add: test_env_def)
  show ?thesis
    using both_counters_advanced_skip_clock
            [OF 1 2 3, of "\<lparr>clock = 100, resetcount = 0, restartcount = 0, safe = 1\<rparr>"]
    by simp
qed

section \<open>Properties of the orchestrator\<close>

lemma check_quote_timing_message:
  assumes "check_quote_timing env prev quote compressed = Inr (Some msg, ci)"
  shows "msg \<noteq> [] \<and> ci = None"
  using assms
  by (auto simp: check_quote_timing_def Let_def split: sum.splits if_splits)

text \<open>
  What the three short-circuits return. Without a hash algorithm, with an error string of
  \<open>_tpm2_checkquote\<close> that is not empty, and with an error of the clock check,
  \<open>check_quote\<close> returns at once: the report is exactly one event of the quote
  validation component, not recoverable, the agent state is unchanged, and nothing of what
  the PCR evaluator reads (policy, bound data, measurement lists) has a part in the result.
\<close>

lemma short_circuits_return_one_event:
  "(hash_alg = None \<longrightarrow>
      check_quote env cfg agent nonce data quote aik tpm_policy ima_ml runtime_policy hash_alg
        ima_keyrings mb_ml mb_refstate compressed =
      Inr (\<lparr>component = QUOTE_VALIDATION, sub_components = [],
            events = [Event QUOTE_VALIDATION [] ''hash_alg_missing''
                        (Text ''Hash algorithm cannot be empty'') False]\<rparr>, agent))
 \<and> (\<forall>h pcrs_dict err.
      hash_alg = Some h
      \<and> tpm2_checkquote env aik quote nonce (hash_name h) compressed = Inr (pcrs_dict, err)
      \<and> err \<noteq> [] \<longrightarrow>
      check_quote env cfg agent nonce data quote aik tpm_policy ima_ml runtime_policy hash_alg
        ima_keyrings mb_ml mb_refstate compressed =
      Inr (\<lparr>component = QUOTE_VALIDATION, sub_components = [],
            events = [Event QUOTE_VALIDATION [] ''quote_validation''
                        (Fields [(''message'', VStr ''Quote data validation''),
                                 (''error'', VStr err)]) False]\<rparr>, agent))
 \<and> (\<forall>h pcrs_dict msg ci.
      hash_alg = Some h
      \<and> tpm2_checkquote env aik quote nonce (hash_name h) compressed = Inr (pcrs_dict, [])
      \<and> check_quote_timing env (tpm_clockinfo agent) quote compressed = Inr (Some msg, ci) \<longrightarrow>
      check_quote env cfg agent nonce data quote aik tpm_policy ima_ml runtime_policy hash_alg
        ima_keyrings mb_ml mb_refstate compressed =
      Inr (\<lparr>component = QUOTE_VALIDATION, sub_components = [],
            events = [Event QUOTE_VALIDATION [] ''quote_validation''
                        (Fields [(''message'', VStr ''Validation of clockinfo from quote using tpm2-tools''),
                                 (''data'', VStr msg)]) False]\<rparr>, agent))"
proof (intro conjI allI impI)
  assume "hash_alg = None"
  then show "check_quote env cfg agent nonce data quote aik tpm_policy ima_ml runtime_policy hash_alg
        ima_keyrings mb_ml mb_refstate compressed =
      Inr (\<lparr>component = QUOTE_VALIDATION, sub_components = [],
            events = [Event QUOTE_VALIDATION [] ''hash_alg_missing''
                        (Text ''Hash algorithm cannot be empty'') False]\<rparr>, agent)"
    by (simp add: check_quote_def new_Failure_def add_event_def)
next
  fix h pcrs_dict err
  assume "hash_alg = Some h
      \<and> tpm2_checkquote env aik quote nonce (hash_name h) compressed = Inr (pcrs_dict, err)
      \<and> err \<noteq> []"
  then show "check_quote env cfg agent nonce data quote aik tpm_policy ima_ml runtime_policy hash_alg
        ima_keyrings mb_ml mb_refstate compressed =
      Inr (\<lparr>component = QUOTE_VALIDATION, sub_components = [],
            events = [Event QUOTE_VALIDATION [] ''quote_validation''
                        (Fields [(''message'', VStr ''Quote data validation''),
                                 (''error'', VStr err)]) False]\<rparr>, agent)"
    by (simp add: check_quote_def new_Failure_def add_event_def)
next
  fix h pcrs_dict msg ci
  assume a: "hash_alg = Some h
      \<and> tpm2_checkquote env aik quote nonce (hash_name h) compressed = Inr (pcrs_dict, [])
      \<and> check_quote_timing env (tpm_clockinfo agent) quote compressed = Inr (Some msg, ci)"
  then have "msg \<noteq> []" using check_quote_timing_message by blast
  with a show "check_quote env cfg agent nonce data quote aik tpm_policy ima_ml runtime_policy hash_alg
        ima_keyrings mb_ml mb_refstate compressed =
      Inr (\<lparr>component = QUOTE_VALIDATION, sub_components = [],
            events = [Event QUOTE_VALIDATION [] ''quote_validation''
                        (Fields [(''message'', VStr ''Validation of clockinfo from quote using tpm2-tools''),
                                 (''data'', VStr msg)]) False]\<rparr>, agent)"
    by (simp add: check_quote_def new_Failure_def add_event_def)
qed

lemma short_circuits_on_stand_ins:
  "check_quote test_env test_config test_agent ''nonce'' (Some ''data'') ''r::'' ''aik''
     None None None None None None None False =
   Inr (\<lparr>component = QUOTE_VALIDATION, sub_components = [],
         events = [Event QUOTE_VALIDATION [] ''hash_alg_missing''
                     (Text ''Hash algorithm cannot be empty'') False]\<rparr>, test_agent)
 \<and> check_quote test_env test_config test_agent ''nonce'' (Some ''data'')
     (CHR ''r'' # [CHR 0x32, CHR 0x01, CHR 0x00, CHR 0x01] @ ''::'') ''aik''
     None None None (Some test_hash) None None None False =
   Inr (\<lparr>component = QUOTE_VALIDATION, sub_components = [],
         events = [Event QUOTE_VALIDATION [] ''quote_validation''
                     (Fields [(''message'', VStr ''Quote data validation''),
                              (''error'', VStr ''signature does not verify'')]) False]\<rparr>,
        test_agent)
 \<and> check_quote test_env test_config test_agent ''nonce'' (Some ''data'')
     (CHR ''r'' # [CHR 0x32, CHR 0x01, CHR 0x00, CHR 0x01] @ '':s:'') ''aik''
     None None None (Some test_hash) None None None False =
   Inr (\<lparr>component = QUOTE_VALIDATION, sub_components = [],
         events = [Event QUOTE_VALIDATION [] ''quote_validation''
                     (Fields [(''message'', VStr ''Validation of clockinfo from quote using tpm2-tools''),
                              (''data'', VStr ''clock timestamp did issued by TPM did not increase between two consecutive quotes'')])
                     False]\<rparr>,
        test_agent)"
proof -
  let ?q1 = "CHR ''r'' # [CHR 0x32, CHR 0x01, CHR 0x00, CHR 0x01] @ ''::''"
  let ?q2 = "CHR ''r'' # [CHR 0x32, CHR 0x01, CHR 0x00, CHR 0x01] @ '':s:''"
  have sig: "tpm2_checkquote test_env ''aik'' ?q1 ''nonce'' (hash_name test_hash) False =
               Inr ([], ''signature does not verify'')"
    by (simp add: tpm2_checkquote_def test_env_def test_hash_def)
  have ok: "tpm2_checkquote test_env ''aik'' ?q2 ''nonce'' (hash_name test_hash) False = Inr ([], [])"
    by (simp add: tpm2_checkquote_def test_env_def test_hash_def)
  have clk: "check_quote_timing test_env (tpm_clockinfo test_agent) ?q2 False =
               Inr (Some ''clock timestamp did issued by TPM did not increase between two consecutive quotes'', None)"
    by (simp add: check_quote_timing_def tpm2_clock_info_from_quote_def test_env_def test_agent_def)
  note a = short_circuits_return_one_event
             [where hash_alg = None and env = test_env and cfg = test_config and agent = test_agent
                and nonce = "''nonce''" and data = "Some ''data''" and quote = "''r::''"
                and aik = "''aik''" and tpm_policy = None and ima_ml = None
                and runtime_policy = None and ima_keyrings = None and mb_ml = None
                and mb_refstate = None and compressed = False]
  note b = short_circuits_return_one_event
             [where hash_alg = "Some test_hash" and env = test_env and cfg = test_config
                and agent = test_agent and nonce = "''nonce''" and data = "Some ''data''"
                and quote = ?q1 and aik = "''aik''" and tpm_policy = None and ima_ml = None
                and runtime_policy = None and ima_keyrings = None and mb_ml = None
                and mb_refstate = None and compressed = False]
  note c = short_circuits_return_one_event
             [where hash_alg = "Some test_hash" and env = test_env and cfg = test_config
                and agent = test_agent and nonce = "''nonce''" and data = "Some ''data''"
                and quote = ?q2 and aik = "''aik''" and tpm_policy = None and ima_ml = None
                and runtime_policy = None and ima_keyrings = None and mb_ml = None
                and mb_refstate = None and compressed = False]
  have 1: "check_quote test_env test_config test_agent ''nonce'' (Some ''data'') ''r::'' ''aik''
     None None None None None None None False =
   Inr (\<lparr>component = QUOTE_VALIDATION, sub_components = [],
         events = [Event QUOTE_VALIDATION [] ''hash_alg_missing''
                     (Text ''Hash algorithm cannot be empty'') False]\<rparr>, test_agent)"
    using a by blast
  have 2: "check_quote test_env test_config test_agent ''nonce'' (Some ''data'') ?q1 ''aik''
     None None None (Some test_hash) None None None False =
   Inr (\<lparr>component = QUOTE_VALIDATION, sub_components = [],
         events = [Event QUOTE_VALIDATION [] ''quote_validation''
                     (Fields [(''message'', VStr ''Quote data validation''),
                              (''error'', VStr ''signature does not verify'')]) False]\<rparr>,
        test_agent)"
    using b sig by blast
  have 3: "check_quote test_env test_config test_agent ''nonce'' (Some ''data'') ?q2 ''aik''
     None None None (Some test_hash) None None None False =
   Inr (\<lparr>component = QUOTE_VALIDATION, sub_components = [],
         events = [Event QUOTE_VALIDATION [] ''quote_validation''
                     (Fields [(''message'', VStr ''Validation of clockinfo from quote using tpm2-tools''),
                              (''data'', VStr ''clock timestamp did issued by TPM did not increase between two consecutive quotes'')])
                     False]\<rparr>,
        test_agent)"
    using c ok clk by blast
  show ?thesis using 1 2 3 by blast
qed

text \<open>
  Claim C1. The error of the quote verification is tested by \<open>if err:\<close>, and
  \<open>_tpm2_checkquote\<close> hands back \<open>str(e)\<close> of the exception: when the verification
  raises an exception whose message is empty, the test is false. \<open>check_quote\<close> then
  does not return: it runs the clock check, replaces the clock information of the agent
  by that of the unverified quote and calls \<open>check_pcrs\<close> on the empty PCR
  dictionary. The report is that of \<open>check_pcrs\<close>; it holds no event of the quote
  validation and no event that is not recoverable.
\<close>

theorem unverified_quote_reaches_pcr_evaluator:
  "tpm2_checkquote (test_env\<lparr>checkquote := (\<lambda>aik nonce sigblob quoteblob pcrblob alg. Inl [])\<rparr>)
     ''aik'' (CHR ''r'' # [CHR 0x65, CHR 0x00, CHR 0x00, CHR 0x01] @ '':s:00'') ''nonce''
     (hash_name test_hash) False = Inr ([], [])
 \<and> check_quote (test_env\<lparr>checkquote := (\<lambda>aik nonce sigblob quoteblob pcrblob alg. Inl [])\<rparr>)
     test_config test_agent ''nonce'' (Some ''data'')
     (CHR ''r'' # [CHR 0x65, CHR 0x00, CHR 0x00, CHR 0x01] @ '':s:00'') ''aik''
     None None None (Some test_hash) None None None False =
   Inr (\<lparr>component = PCR_VALIDATION, sub_components = [],
         events = [Event PCR_VALIDATION [] ''missing_pcr_16''
                     (Text ''Data PCR 16 is missing in quote, but is required'') True]\<rparr>,
        test_agent\<lparr>tpm_clockinfo :=
                     \<lparr>clock = 101, resetcount = 0, restartcount = 0, safe = 1\<rparr>\<rparr>)
 \<and> check_quote (test_env\<lparr>checkquote := (\<lambda>aik nonce sigblob quoteblob pcrblob alg. Inl ''x'')\<rparr>)
     test_config test_agent ''nonce'' (Some ''data'')
     (CHR ''r'' # [CHR 0x65, CHR 0x00, CHR 0x00, CHR 0x01] @ '':s:00'') ''aik''
     None None None (Some test_hash) None None None False =
   Inr (\<lparr>component = QUOTE_VALIDATION, sub_components = [],
         events = [Event QUOTE_VALIDATION [] ''quote_validation''
                     (Fields [(''message'', VStr ''Quote data validation''),
                              (''error'', VStr ''x'')]) False]\<rparr>,
        test_agent)"
  by (simp add: check_quote_def tpm2_checkquote_def check_quote_timing_def
        tpm2_clock_info_from_quote_def check_pcrs_def check_pcrs_blocks_def pcr_allowlist_of_def
        parse_mb_bootlog_def validate_data_pcr_def check_ima_pcr_def measured_boot_pcrs_def
        remaining_pcrs_def missing_pcrs_def set_iter_def test_env_def test_config_def
        test_hash_def test_agent_def new_Failure_def add_event_def merge_def failed_def
        str_int_def str_nat.simps digit_char_def Let_def)

section \<open>Properties of the PCR policy evaluator\<close>

subsection \<open>Decimal strings\<close>

text \<open>\<open>str\<close> is injective on integers, so an event name tells its PCR index.\<close>

lemma digit_value_digit_char:
  assumes "n < 10"
  shows "digit_value (digit_char n) = n" and "digit_char n \<noteq> CHR ''-''"
proof -
  from assms have "n \<in> {0, 1, 2, 3, 4, 5, 6, 7, 8, 9}" by auto
  then show "digit_value (digit_char n) = n" and "digit_char n \<noteq> CHR ''-''"
    by (auto simp: digit_char_def digit_value_def)
qed

lemma digits_nat_str_nat: "digits_nat (str_nat n) = n"
proof (induction n rule: str_nat.induct)
  case (1 n)
  show ?case
  proof (cases "n < 10")
    case True
    then show ?thesis
      by (simp add: str_nat.simps [of n] digits_nat_def digit_value_digit_char)
  next
    case False
    with "1" have "digits_nat (str_nat (n div 10)) = n div 10" by simp
    with False show ?thesis
      by (simp add: str_nat.simps [of n] digits_nat_def digit_value_digit_char)
  qed
qed

lemma str_nat_no_sign: "hd (str_nat n) \<noteq> CHR ''-'' \<and> str_nat n \<noteq> []"
proof (induction n rule: str_nat.induct)
  case (1 n)
  show ?case
  proof (cases "n < 10")
    case True
    then show ?thesis by (simp add: str_nat.simps [of n] digit_value_digit_char)
  next
    case False
    with "1" show ?thesis by (simp add: str_nat.simps [of n])
  qed
qed

lemma str_nat_inj: "str_nat a = str_nat b \<Longrightarrow> a = b"
  by (metis digits_nat_str_nat)

lemma str_int_inj: "str_int a = str_int b \<Longrightarrow> a = b"
proof -
  assume eq: "str_int a = str_int b"
  have ns: "\<And>n m. CHR ''-'' # str_nat n \<noteq> str_nat m"
    by (metis list.sel(1) str_nat_no_sign)
  show "a = b"
  proof (cases "a < 0"; cases "b < 0")
    assume "a < 0" "b < 0"
    with eq have "nat (- a) = nat (- b)" by (auto simp: str_int_def dest: str_nat_inj)
    with \<open>a < 0\<close> \<open>b < 0\<close> show ?thesis by simp
  next
    assume "a < 0" "\<not> b < 0"
    with eq ns show ?thesis by (auto simp: str_int_def)
  next
    assume "\<not> a < 0" "b < 0"
    with eq ns [of "nat (- b)" "nat a"] show ?thesis by (auto simp: str_int_def)
  next
    assume "\<not> a < 0" "\<not> b < 0"
    with eq have "nat a = nat b" by (auto simp: str_int_def dest: str_nat_inj)
    with \<open>\<not> a < 0\<close> \<open>\<not> b < 0\<close> show ?thesis by simp
  qed
qed

lemma str_int_eq_iff [simp]: "str_int a = str_int b \<longleftrightarrow> a = b"
  using str_int_inj by blast

subsection \<open>Reports\<close>

lemma events_add_event [simp]:
  "events (add_event f n c b) = events f @ [Event (component f) (sub_components f) n c b]"
  by (simp add: add_event_def)

lemma component_add_event [simp]: "component (add_event f n c b) = component f"
  by (simp add: add_event_def)

lemma sub_components_add_event [simp]: "sub_components (add_event f n c b) = sub_components f"
  by (simp add: add_event_def)

lemma events_merge [simp]: "events (merge f g) = events f @ events g"
  by (simp add: merge_def)

lemma component_merge [simp]: "component (merge f g) = component f"
  by (simp add: merge_def)

lemma sub_components_merge [simp]: "sub_components (merge f g) = sub_components f"
  by (simp add: merge_def)

lemma new_Failure_simps [simp]:
  "events (new_Failure c s) = []" "component (new_Failure c s) = c"
  "sub_components (new_Failure c s) = s"
  by (simp_all add: new_Failure_def)

lemma failed_new_Failure [simp]: "\<not> failed (new_Failure c s)"
  by (simp add: failed_def)

subsection \<open>Loops\<close>

lemma for_each_invariant:
  assumes "for_each body xs st = Inr st'"
    and "P st"
    and "\<And>x s s'. x \<in> set xs \<Longrightarrow> P s \<Longrightarrow> body x s = Inr s' \<Longrightarrow> P s'"
  shows "P st'"
  using assms
proof (induction xs arbitrary: st)
  case Nil
  then show ?case by simp
next
  case (Cons x xs)
  from Cons.prems(1) obtain s1 where s1: "body x st = Inr s1" and rest: "for_each body xs s1 = Inr st'"
    by (auto split: sum.splits)
  have "P s1" using Cons.prems(3) [OF _ Cons.prems(2) s1] by simp
  moreover have "\<And>y s s'. y \<in> set xs \<Longrightarrow> P s \<Longrightarrow> body y s = Inr s' \<Longrightarrow> P s'"
    using Cons.prems(3) by (meson list.set_intros(2))
  ultimately show ?case using Cons.IH [OF rest] by blast
qed

lemma for_each_reaches:
  assumes "for_each body xs st = Inr st'"
    and "n \<in> set xs"
    and "\<And>s s'. body n s = Inr s' \<Longrightarrow> Q s'"
    and "\<And>x s s'. x \<in> set xs \<Longrightarrow> Q s \<Longrightarrow> body x s = Inr s' \<Longrightarrow> Q s'"
  shows "Q st'"
  using assms
proof (induction xs arbitrary: st)
  case Nil
  then show ?case by simp
next
  case (Cons x xs)
  from Cons.prems(1) obtain s1 where s1: "body x st = Inr s1" and rest: "for_each body xs s1 = Inr st'"
    by (auto split: sum.splits)
  have keep: "\<And>y s s'. y \<in> set xs \<Longrightarrow> Q s \<Longrightarrow> body y s = Inr s' \<Longrightarrow> Q s'"
    using Cons.prems(4) by (meson list.set_intros(2))
  show ?case
  proof (cases "x = n")
    case True
    with s1 Cons.prems(3) have "Q s1" by blast
    then show ?thesis using for_each_invariant [where P = Q, OF rest] keep by blast
  next
    case False
    with Cons.prems(2) have "n \<in> set xs" by simp
    show ?thesis
    proof (rule Cons.IH [OF rest])
      show "n \<in> set xs" by fact
      show "\<And>s s'. body n s = Inr s' \<Longrightarrow> Q s'" by (rule Cons.prems(3))
      show "\<And>x s s'. x \<in> set xs \<Longrightarrow> Q s \<Longrightarrow> body x s = Inr s' \<Longrightarrow> Q s'" by (rule keep)
    qed
  qed
qed

lemma set_set_iter [simp]: "set (set_iter env xs) = set xs"
  by (simp add: set_iter_def)

lemma parse_mb_bootlog_no_list:
  "parse_mb_bootlog env cfg None hash_alg = Inr ([], None, DDict [], new_Failure MEASURED_BOOT [''parser''])"
  by (simp add: parse_mb_bootlog_def)

subsection \<open>What a block adds\<close>

lemma adds_refl: "adds N I st st"
  by (simp add: adds_def)

lemma adds_trans: "adds N I a b \<Longrightarrow> adds N I b c \<Longrightarrow> adds N I a c"
  unfolding adds_def by (elim conjE exE, intro conjI) auto

lemma adds_member:
  "adds N I a b \<Longrightarrow> e \<in> set (events (failure a)) \<Longrightarrow> e \<in> set (events (failure b))"
  by (auto simp: adds_def)

lemma adds_claimed: "adds N I a b \<Longrightarrow> n \<in> pcrs_in_quote a \<Longrightarrow> n \<in> pcrs_in_quote b"
  by (auto simp: adds_def)

lemma adds_claimed_within:
  "adds N I a b \<Longrightarrow> pcrs_in_quote a \<subseteq> I \<Longrightarrow> pcrs_in_quote b \<subseteq> I"
  by (auto simp: adds_def)

lemma adds_names:
  "adds N I a b \<Longrightarrow> e \<in> set (events (failure b)) \<Longrightarrow>
     e \<in> set (events (failure a)) \<or> name e \<in> N"
  by (fastforce simp: adds_def)

lemma adds_filter:
  assumes "adds N I a b" and "\<And>e. name e \<in> N \<Longrightarrow> \<not> Q e"
  shows "filter Q (events (failure b)) = filter Q (events (failure a))"
proof -
  from assms(1) obtain more where m: "events (failure b) = events (failure a) @ more"
    and n: "(\<forall>e\<in>set more. name e \<in> N)"
    by (auto simp: adds_def)
  from n assms(2) have "filter Q more = []" by (auto simp: filter_empty_conv)
  with m show ?thesis by simp
qed

lemma for_each_reaches_inv:
  assumes "for_each body xs st = Inr st'"
    and "n \<in> set xs"
    and "Inv st"
    and "\<And>x s s'. x \<in> set xs \<Longrightarrow> Inv s \<Longrightarrow> body x s = Inr s' \<Longrightarrow> Inv s'"
    and "\<And>s s'. Inv s \<Longrightarrow> body n s = Inr s' \<Longrightarrow> Q s'"
    and "\<And>x s s'. x \<in> set xs \<Longrightarrow> Inv s \<Longrightarrow> Q s \<Longrightarrow> body x s = Inr s' \<Longrightarrow> Q s'"
  shows "Q st'"
  using assms
proof (induction xs arbitrary: st)
  case Nil
  from Nil.prems(2) show ?case by simp
next
  case (Cons x xs)
  from Cons.prems(1) obtain s1 where s1: "body x st = Inr s1" and rest: "for_each body xs s1 = Inr st'"
    by (auto split: sum.splits)
  have inv1: "Inv s1" using Cons.prems(4) [of x st s1] Cons.prems(3) s1 by simp
  have keepI: "Inv s'" if "y \<in> set xs" "Inv s" "body y s = Inr s'" for y s s'
    using Cons.prems(4) [of y s s'] that by simp
  have keepQ: "Q s'" if "y \<in> set xs" "Inv s" "Q s" "body y s = Inr s'" for y s s'
    using Cons.prems(6) [of y s s'] that by simp
  show ?case
  proof (cases "x = n")
    case True
    have q1: "Q s1" using Cons.prems(5) [of st s1] Cons.prems(3) s1 True by simp
    have "Inv st' \<and> Q st'"
    proof (rule for_each_invariant [where P = "\<lambda>s. Inv s \<and> Q s", OF rest])
      show "Inv s1 \<and> Q s1" using inv1 q1 ..
    next
      fix y s s' assume "y \<in> set xs" "Inv s \<and> Q s" "body y s = Inr s'"
      then show "Inv s' \<and> Q s'" using keepI [of y s s'] keepQ [of y s s'] by simp
    qed
    then show ?thesis ..
  next
    case False
    with Cons.prems(2) have nx: "n \<in> set xs" by simp
    show ?thesis
    proof (rule Cons.IH [of s1, OF rest nx inv1])
      show "\<And>x s s'. x \<in> set xs \<Longrightarrow> Inv s \<Longrightarrow> body x s = Inr s' \<Longrightarrow> Inv s'" by (rule keepI)
      show "\<And>s s'. Inv s \<Longrightarrow> body n s = Inr s' \<Longrightarrow> Q s'" by (rule Cons.prems(5))
      show "\<And>x s s'. x \<in> set xs \<Longrightarrow> Inv s \<Longrightarrow> Q s \<Longrightarrow> body x s = Inr s' \<Longrightarrow> Q s'" by (rule keepQ)
    qed
  qed
qed


lemma validate_data_pcr_adds:
  assumes "''invalid_pcr_'' @ str_int (TPM_DATA_PCR cfg) \<in> N"
    and "''missing_pcr_'' @ str_int (TPM_DATA_PCR cfg) \<in> N"
    and "map_of pd (TPM_DATA_PCR cfg) \<noteq> None \<Longrightarrow> data \<noteq> None \<Longrightarrow> TPM_DATA_PCR cfg \<in> I"
  shows "adds N I st (validate_data_pcr cfg pd data h st)"
  using assms
  by (auto simp: adds_def validate_data_pcr_def Let_def split: option.splits)

lemma check_ima_pcr_adds:
  assumes "''unused_pcr_'' @ str_int (IMA_PCR cfg) \<in> N"
    and "\<And>v ml. map_of pd (IMA_PCR cfg) = Some v \<Longrightarrow> iml = Some ml \<Longrightarrow>
           \<forall>e\<in>set (events (check_ima env agent v ml rp kr ba h)). name e \<in> N"
    and "map_of pd (IMA_PCR cfg) \<noteq> None \<Longrightarrow> IMA_PCR cfg \<in> I"
  shows "adds N I st (check_ima_pcr env cfg agent pd iml rp kr ba h st)"
  using assms
  by (auto simp: adds_def check_ima_pcr_def split: option.splits)

lemma mb_pcr_step_cases:
  assumes "mb_pcr_step al pd rs mbl ph n (st, mf) = Inr (st', mf')"
  obtains (skip) "\<not> truthy rs" "st' = st" "mf' = mf"
  | (unused) "truthy rs" "mbl = None \<or> mbl = Some []" "mf' = mf"
      "st' = st\<lparr>failure :=
                   add_event (failure st) (''unused_pcr_'' @ str_int n)
                     (Text (''Measured Boot PCR '' @ str_int n
                             @ '' in policy, but no measurement list provided'')) True\<rparr>"
  | (compare) h pcrval where "truthy rs" "mbl \<noteq> None" "mbl \<noteq> Some []"
      "doc_hex (case map_of ph (KStr (str_int n)) of None \<Rightarrow> DInt 0 | Some v \<Rightarrow> v) = Some h"
      "map_of pd n = Some pcrval"
      "mf' = (if lstrip0 (drop 2 h) \<noteq> lstrip0 pcrval
              then add_event mf (''invalid_pcr_'' @ str_int n)
                     (Fields [(''context'', VStr ''SHA256 boot event log PCR value does not match''),
                              (''got'', VStr pcrval), (''expected'', VStr (drop 2 h))]) True
              else mf)"
      "st' = st\<lparr>failure :=
                   (case map_of al n of
                      None \<Rightarrow> failure st
                    | Some allowed \<Rightarrow>
                        if pcrval \<notin> set allowed
                        then add_event (failure st) (''invalid_pcr_'' @ str_int n)
                               (Fields [(''context'', VStr ''PCR value is not in allowlist''),
                                        (''got'', VStr pcrval), (''expected'', VStrs allowed)]) True
                        else failure st),
                 pcrs_in_quote := insert n (pcrs_in_quote st)\<rparr>"
proof (cases "truthy rs")
  case False
  with assms that(1) show ?thesis by (simp add: mb_pcr_step_def)
next
  case t: True
  show ?thesis
  proof (cases "mbl = None \<or> mbl = Some []")
    case True
    with t assms that(2) show ?thesis by (simp add: mb_pcr_step_def)
  next
    case False
    then obtain ml where ml: "mbl = Some ml" "ml \<noteq> []" by (cases mbl) auto
    let ?v = "case map_of ph (KStr (str_int n)) of None \<Rightarrow> DInt 0 | Some v \<Rightarrow> v"
    from t ml assms obtain h where h: "doc_hex ?v = Some h"
      by (cases "doc_hex ?v") (simp_all add: mb_pcr_step_def)
    with t ml assms obtain pcrval where p: "map_of pd n = Some pcrval"
      by (cases "map_of pd n") (simp_all add: mb_pcr_step_def)
    from t ml h p assms have
      "mf' = (if lstrip0 (drop 2 h) \<noteq> lstrip0 pcrval
              then add_event mf (''invalid_pcr_'' @ str_int n)
                     (Fields [(''context'', VStr ''SHA256 boot event log PCR value does not match''),
                              (''got'', VStr pcrval), (''expected'', VStr (drop 2 h))]) True
              else mf)"
      "st' = st\<lparr>failure :=
                   (case map_of al n of
                      None \<Rightarrow> failure st
                    | Some allowed \<Rightarrow>
                        if pcrval \<notin> set allowed
                        then add_event (failure st) (''invalid_pcr_'' @ str_int n)
                               (Fields [(''context'', VStr ''PCR value is not in allowlist''),
                                        (''got'', VStr pcrval), (''expected'', VStrs allowed)]) True
                        else failure st),
                 pcrs_in_quote := insert n (pcrs_in_quote st)\<rparr>"
      by (simp_all add: mb_pcr_step_def Let_def)
    with t ml h p that(3) show ?thesis by blast
  qed
qed

lemma mb_pcr_step_adds:
  assumes "mb_pcr_step al pd rs mbl ph n (st, mf) = Inr (st', mf')"
    and "''invalid_pcr_'' @ str_int n \<in> N"
    and "''unused_pcr_'' @ str_int n \<in> N"
    and "n \<in> I"
  shows "adds N I st st' \<and> (\<exists>more. events mf' = events mf @ more \<and> (\<forall>e\<in>set more. name e \<in> N))"
  using assms(1)
proof (cases rule: mb_pcr_step_cases)
  case skip
  then show ?thesis by (simp add: adds_refl)
next
  case unused
  with assms(3) show ?thesis by (simp add: adds_def)
next
  case (compare h pcrval)
  with assms(2,4) show ?thesis by (auto simp: adds_def split: option.splits)
qed

lemma measured_boot_pcrs_adds:
  assumes "measured_boot_pcrs env cfg al pd rs mbl ph mbf st = Inr st'"
    and "\<And>n. n \<in> set (MEASUREDBOOT_PCRS cfg) \<Longrightarrow> n \<in> set (map fst pd) \<Longrightarrow>
           n \<in> I \<and> ''invalid_pcr_'' @ str_int n \<in> N \<and> ''unused_pcr_'' @ str_int n \<in> N"
  shows "adds N I st st'"
proof (cases "failed mbf")
  case True
  with assms(1) show ?thesis by (auto simp: measured_boot_pcrs_def adds_def)
next
  case False
  let ?L = "set_iter env (filter (\<lambda>n. n \<in> set (map fst pd)) (MEASUREDBOOT_PCRS cfg))"
  from False assms(1) obtain s3 mf where
    loop: "for_each (mb_pcr_step al pd rs mbl ph) ?L (st, new_Failure MEASURED_BOOT []) = Inr (s3, mf)"
    and st': "st' = s3\<lparr>failure := merge (failure s3) mf\<rparr>"
    by (auto simp: measured_boot_pcrs_def Let_def split: sum.splits)
  let ?P = "\<lambda>p. adds N I st (fst p) \<and> (\<forall>e\<in>set (events (snd p)). name e \<in> N)"
  have "?P (s3, mf)"
  proof (rule for_each_invariant [OF loop])
    show "?P (st, new_Failure MEASURED_BOOT [])" by (simp add: adds_refl)
  next
    fix x s s'
    assume x: "x \<in> set ?L" and p: "?P s" and b: "mb_pcr_step al pd rs mbl ph x s = Inr s'"
    from x assms(2) have n: "x \<in> I" "''invalid_pcr_'' @ str_int x \<in> N"
      "''unused_pcr_'' @ str_int x \<in> N" by auto
    from b have b': "mb_pcr_step al pd rs mbl ph x (fst s, snd s) = Inr (fst s', snd s')" by simp
    from mb_pcr_step_adds [OF b' n(2,3,1)] obtain more where
      a: "adds N I (fst s) (fst s')" and m: "events (snd s') = events (snd s) @ more"
      and nm: "\<forall>e\<in>set more. name e \<in> N" by blast
    from p a have "adds N I st (fst s')" by (blast intro: adds_trans)
    moreover from p m nm have "\<forall>e\<in>set (events (snd s')). name e \<in> N" by auto
    ultimately show "?P s'" ..
  qed
  then show ?thesis unfolding st' by (auto simp: adds_def)
qed

lemma remaining_pcr_step_adds:
  assumes "remaining_pcr_step al pd n st = Inr st'"
    and "map_of al n \<noteq> None \<Longrightarrow> n \<in> I \<and> ''invalid_pcr_'' @ str_int n \<in> N"
  shows "adds N I st st'"
  using assms
  by (auto simp: adds_def remaining_pcr_step_def split: option.splits if_splits)

lemma remaining_pcrs_adds:
  assumes "remaining_pcrs env al pd st = Inr st'"
    and "\<And>n. n \<in> set (map fst pd) \<Longrightarrow> n \<notin> pcrs_in_quote st \<Longrightarrow> map_of al n \<noteq> None \<Longrightarrow>
           n \<in> I \<and> ''invalid_pcr_'' @ str_int n \<in> N"
  shows "adds N I st st'"
proof (rule for_each_invariant [OF assms(1) [unfolded remaining_pcrs_def]])
  show "adds N I st st" by (rule adds_refl)
next
  fix x s s'
  assume x: "x \<in> set (set_iter env (filter (\<lambda>n. n \<notin> pcrs_in_quote st) (map fst pd)))"
    and p: "adds N I st s" and b: "remaining_pcr_step al pd x s = Inr s'"
  from x assms(2) have "map_of al x \<noteq> None \<Longrightarrow> x \<in> I \<and> ''invalid_pcr_'' @ str_int x \<in> N"
    by auto
  from remaining_pcr_step_adds [OF b this] p show "adds N I st s'"
    by (auto intro: adds_trans)
qed

lemma remaining_pcrs_claims:
  assumes "remaining_pcrs env al pd st = Inr st'"
    and "n \<in> set (map fst pd)"
    and "map_of al n \<noteq> None"
  shows "n \<in> pcrs_in_quote st'"
proof (cases "n \<in> pcrs_in_quote st")
  case True
  have "adds UNIV UNIV st st'" by (rule remaining_pcrs_adds [OF assms(1)]) simp
  with True show ?thesis by (rule adds_claimed [rotated])
next
  case False
  with assms(2) have n: "n \<in> set (set_iter env (filter (\<lambda>n. n \<notin> pcrs_in_quote st) (map fst pd)))"
    by simp
  show ?thesis
  proof (rule for_each_reaches [OF assms(1) [unfolded remaining_pcrs_def] n])
    fix s s' assume "remaining_pcr_step al pd n s = Inr s'"
    with assms(3) show "n \<in> pcrs_in_quote s'"
      by (auto simp: remaining_pcr_step_def split: option.splits)
  next
    fix x s s'
    assume "n \<in> pcrs_in_quote s" "remaining_pcr_step al pd x s = Inr s'"
    then show "n \<in> pcrs_in_quote s'"
      by (auto simp: remaining_pcr_step_def split: option.splits)
  qed
qed

lemma missing_pcrs_adds:
  assumes "''missing_pcrs'' \<in> N"
  shows "adds N I st (missing_pcrs env al st)"
  using assms by (auto simp: adds_def missing_pcrs_def Let_def)

subsection \<open>The blocks in sequence\<close>

lemma check_pcrs_blocks_cases:
  assumes "check_pcrs_blocks env cfg agent pol pd data iml rp kr mbl mbr h = Inr (st, mbf, mbd)"
  obtains dd al ph ba st3 st4 where
    "(case pol of Inl s \<Rightarrow> json_loads env s | Inr d \<Rightarrow> Inr d) = Inr dd"
    "pcr_allowlist_of dd = Inr al"
    "parse_mb_bootlog env cfg mbl h = Inr (ph, ba, mbd, mbf)"
    "measured_boot_pcrs env cfg al pd (snd (snd (get_policy env mbr))) mbl ph mbf
       (check_ima_pcr env cfg agent pd iml rp kr ba h
          (validate_data_pcr cfg pd data h
             \<lparr>failure = merge (new_Failure PCR_VALIDATION []) mbf, pcrs_in_quote = {}\<rparr>)) = Inr st3"
    "remaining_pcrs env al pd st3 = Inr st4"
    "st = missing_pcrs env al st4"
proof -
  from assms obtain dd where dd: "(case pol of Inl s \<Rightarrow> json_loads env s | Inr d \<Rightarrow> Inr d) = Inr dd"
    by (cases "case pol of Inl s \<Rightarrow> json_loads env s | Inr d \<Rightarrow> Inr d")
       (simp_all add: check_pcrs_blocks_def)
  with assms obtain al where al: "pcr_allowlist_of dd = Inr al"
    by (cases "pcr_allowlist_of dd") (simp_all add: check_pcrs_blocks_def)
  with dd assms obtain ph ba mbd' mbf' where p: "parse_mb_bootlog env cfg mbl h = Inr (ph, ba, mbd', mbf')"
    by (cases "parse_mb_bootlog env cfg mbl h") (auto simp: check_pcrs_blocks_def)
  let ?st2 = "check_ima_pcr env cfg agent pd iml rp kr ba h
          (validate_data_pcr cfg pd data h
             \<lparr>failure = merge (new_Failure PCR_VALIDATION []) mbf', pcrs_in_quote = {}\<rparr>)"
  let ?mb = "measured_boot_pcrs env cfg al pd (snd (snd (get_policy env mbr))) mbl ph mbf' ?st2"
  from dd al p assms obtain st3 where s3: "?mb = Inr st3"
    by (cases ?mb) (simp_all add: check_pcrs_blocks_def Let_def)
  with dd al p assms obtain st4 where s4: "remaining_pcrs env al pd st3 = Inr st4"
    by (cases "remaining_pcrs env al pd st3") (simp_all add: check_pcrs_blocks_def Let_def)
  from dd al p s3 s4 assms have "st = missing_pcrs env al st4" "mbf = mbf'" "mbd = mbd'"
    by (simp_all add: check_pcrs_blocks_def Let_def)
  with dd al p s3 s4 that show ?thesis by blast
qed

lemma check_pcrs_cases:
  assumes "check_pcrs env cfg agent pol pd data iml rp kr mbl mbr h = Inr f"
  obtains st mbf mbd where
    "check_pcrs_blocks env cfg agent pol pd data iml rp kr mbl mbr h = Inr (st, mbf, mbd)"
    "f = (if \<not> failed mbf \<and> truthy (snd (snd (get_policy env mbr)))
          then merge (failure st)
                 (evaluate_policy env (fst (get_policy env mbr)) (fst (snd (get_policy env mbr)))
                    (snd (snd (get_policy env mbr))) mbd (pcrs_in_quote st) (agent_id agent))
          else failure st)"
proof -
  from assms obtain st mbf mbd where
    b: "check_pcrs_blocks env cfg agent pol pd data iml rp kr mbl mbr h = Inr (st, mbf, mbd)"
    by (cases "check_pcrs_blocks env cfg agent pol pd data iml rp kr mbl mbr h")
       (auto simp: check_pcrs_def)
  with assms have "f = (if \<not> failed mbf \<and> truthy (snd (snd (get_policy env mbr)))
          then merge (failure st)
                 (evaluate_policy env (fst (get_policy env mbr)) (fst (snd (get_policy env mbr)))
                    (snd (snd (get_policy env mbr))) mbd (pcrs_in_quote st) (agent_id agent))
          else failure st)"
    by (auto simp: check_pcrs_def split: prod.splits if_splits)
  with b that show ?thesis by blast
qed

lemma parse_binary_bootlog_names:
  assumes "parse_binary_bootlog env cfg log_bin = Inr (f, r)"
  shows "\<forall>e\<in>set (events f). name e \<in> parser_names"
  using assms
  by (auto simp: parse_binary_bootlog_def parser_names_def Let_def
           split: sum.splits if_splits option.splits)

lemma parse_mb_bootlog'_names:
  assumes "parse_mb_bootlog' env cfg log_b64 = Inr (f, r)"
  shows "\<forall>e\<in>set (events f). name e \<in> parser_names"
proof -
  have c: "\<forall>e\<in>set (events (add_event (new_Failure MEASURED_BOOT [''parser'']) ''log.base64decode''
                          (Text ''Measured boot log could not be decoded'') True)). name e \<in> parser_names"
    by (simp add: parser_names_def)
  show ?thesis
  proof (cases "b64decode_validate env log_b64")
    case (Inl e)
    with assms c show ?thesis by (auto simp: parse_mb_bootlog'_def Let_def split: if_splits)
  next
    case (Inr log_bin)
    show ?thesis
    proof (cases "parse_binary_bootlog env cfg log_bin")
      case (Inl e)
      with Inr assms c show ?thesis by (auto simp: parse_mb_bootlog'_def Let_def split: if_splits)
    next
      case r: (Inr p)
      obtain fm res where p: "p = (fm, res)" by (cases p)
      from parse_binary_bootlog_names [OF r [unfolded p]] Inr r p assms show ?thesis
        by (auto simp: parse_mb_bootlog'_def Let_def split: if_splits)
    qed
  qed
qed


lemma parse_mb_bootlog_names:
  assumes "parse_mb_bootlog env cfg mbl h = Inr (ph, ba, d, f)"
  shows "\<forall>e\<in>set (events f). name e \<in> parser_names"
proof (cases "mbl = None \<or> mbl = Some []")
  case True
  with assms show ?thesis by (auto simp: parse_mb_bootlog_def)
next
  case False
  then obtain ml where ml: "mbl = Some ml" "ml \<noteq> []" by (cases mbl) auto
  from assms ml obtain fm res where p: "parse_mb_bootlog' env cfg ml = Inr (fm, res)"
    by (cases "parse_mb_bootlog' env cfg ml") (auto simp: parse_mb_bootlog_def)
  note n = parse_mb_bootlog'_names [OF p]
  from assms ml p n show ?thesis
    unfolding parse_mb_bootlog_def Let_def
    by (auto split: option.splits doc.splits if_splits simp: parser_names_def)
qed


lemma blocks_after_data_adds:
  assumes mb: "measured_boot_pcrs env cfg al pd rs mbl ph mbf
                 (check_ima_pcr env cfg agent pd iml rp kr ba h st1) = Inr st3"
    and rem: "remaining_pcrs env al pd st3 = Inr st4"
    and ima: "''unused_pcr_'' @ str_int (IMA_PCR cfg) \<in> N"
      "\<And>v ml. \<forall>e\<in>set (events (check_ima env agent v ml rp kr ba h)). name e \<in> N"
      "map_of pd (IMA_PCR cfg) \<noteq> None \<Longrightarrow> IMA_PCR cfg \<in> I"
    and mbc: "\<And>n. n \<in> set (MEASUREDBOOT_PCRS cfg) \<Longrightarrow> n \<in> set (map fst pd) \<Longrightarrow>
                n \<in> I \<and> ''invalid_pcr_'' @ str_int n \<in> N \<and> ''unused_pcr_'' @ str_int n \<in> N"
    and remc: "\<And>n. n \<in> set (map fst pd) \<Longrightarrow> n \<notin> pcrs_in_quote st1 \<Longrightarrow> map_of al n \<noteq> None \<Longrightarrow>
                n \<in> I \<and> ''invalid_pcr_'' @ str_int n \<in> N"
  shows "adds N I st1 st4"
proof -
  let ?st2 = "check_ima_pcr env cfg agent pd iml rp kr ba h st1"
  have a2: "adds N I st1 ?st2"
    by (rule check_ima_pcr_adds) (use ima in auto)
  have a3: "adds N I ?st2 st3"
    by (rule measured_boot_pcrs_adds [OF mb]) (use mbc in blast)
  from a2 a3 have a13: "adds N I st1 st3" by (rule adds_trans)
  have a4: "adds N I st3 st4"
  proof (rule remaining_pcrs_adds [OF rem])
    fix n assume n: "n \<in> set (map fst pd)" "n \<notin> pcrs_in_quote st3" "map_of al n \<noteq> None"
    from n(2) a13 have "n \<notin> pcrs_in_quote st1" by (auto dest: adds_claimed)
    with n remc show "n \<in> I \<and> ''invalid_pcr_'' @ str_int n \<in> N" by blast
  qed
  from a13 a4 show ?thesis by (rule adds_trans)
qed

lemma events_check_ima [simp]:
  "events (check_ima env agent v ml rp kr ba h) =
     events (process_measurement_list env agent (split_on (CHR 0x0A) ml) rp v kr ba h)"
  by (simp add: check_ima_def)

lemma silent_check_ima:
  "collaborators_silent env nm \<Longrightarrow> e \<in> set (events (check_ima env agent v ml rp kr ba h)) \<Longrightarrow>
     name e \<noteq> nm"
  unfolding collaborators_silent_def events_check_ima by blast

lemma silent_evaluate_policy:
  "collaborators_silent env nm \<Longrightarrow>
     e \<in> set (events (evaluate_policy env pol pn rs log claimed aid)) \<Longrightarrow> name e \<noteq> nm"
  unfolding collaborators_silent_def by blast

lemma map_of_keys: "map_of pd n \<noteq> None \<longleftrightarrow> n \<in> set (map fst pd)"
  by (simp add: map_of_eq_None_iff)

subsection \<open>The data PCR\<close>

lemma validate_data_pcr_present:
  assumes "map_of pd (TPM_DATA_PCR cfg) = Some quoted" and "data = Some d"
  shows "validate_data_pcr cfg pd data h st =
           st\<lparr>failure :=
                (if sim_extend d h \<noteq> quoted
                 then add_event (failure st) (''invalid_pcr_'' @ str_int (TPM_DATA_PCR cfg))
                        (Fields [(''got'', VStr quoted), (''expected'', VStr (sim_extend d h))]) True
                 else failure st),
              pcrs_in_quote := insert (TPM_DATA_PCR cfg) (pcrs_in_quote st)\<rparr>"
  using assms by (simp add: validate_data_pcr_def Let_def)

lemma parser_names_not_pcr:
  "''invalid_pcr_'' @ s \<notin> parser_names" "''missing_pcr_'' @ s \<notin> parser_names"
  "''unused_pcr_'' @ s \<notin> parser_names" "''missing_pcrs'' \<notin> parser_names"
  by (simp_all add: parser_names_def)

text \<open>
  The encodings in \<open>sim_extend\<close> lose nothing: two byte strings with the same
  hexadecimal form are equal, and so are two strings with the same UTF-8 encoding.
\<close>

lemma hex_value_digit_char: "n < 16 \<Longrightarrow> hex_value (digit_char n) = Some n"
proof -
  assume "n < 16"
  then have "n \<in> {0, 1, 2, 3, 4, 5, 6, 7, 8, 9, 10, 11, 12, 13, 14, 15}" by auto arith
  then show ?thesis
    by (elim insertE emptyE) (simp_all add: hex_value_def digit_char_def)
qed

lemma digit_char_inj:
  assumes "m < 16" and "n < 16" and "digit_char m = digit_char n"
  shows "m = n"
proof -
  from hex_value_digit_char [OF assms(1)] have "hex_value (digit_char n) = Some m"
    by (simp only: assms(3))
  with hex_value_digit_char [OF assms(2)] show ?thesis by simp
qed

lemma byte_of_nibbles:
  fixes a b :: byte
  assumes "unat a div 16 = unat b div 16" and "unat a mod 16 = unat b mod 16"
  shows "a = b"
proof -
  have "unat a = 16 * (unat a div 16) + unat a mod 16" by simp
  also have "\<dots> = 16 * (unat b div 16) + unat b mod 16" by (simp only: assms)
  also have "\<dots> = unat b" by simp
  finally show ?thesis by (simp add: word_unat_eq_iff)
qed

lemma bytes_hex_inj: "bytes_hex bs = bytes_hex bs' \<Longrightarrow> bs = bs'"
proof (induction bs arbitrary: bs')
  case Nil
  then show ?case by (cases bs') (simp_all add: bytes_hex_def)
next
  case (Cons b bs)
  from Cons.prems obtain c cs where bs': "bs' = c # cs"
    by (cases bs') (simp_all add: bytes_hex_def)
  have lt: "unat x div 16 < 16" "unat x mod 16 < 16" for x :: byte
  proof -
    have "unat x < 256" using unsigned_less [of x, where 'a = nat] by simp
    then show "unat x div 16 < 16" "unat x mod 16 < 16" by simp_all
  qed
  from Cons.prems bs' have d: "digit_char (unat b div 16) = digit_char (unat c div 16)"
    "digit_char (unat b mod 16) = digit_char (unat c mod 16)" and r: "bytes_hex bs = bytes_hex cs"
    by (simp_all add: bytes_hex_def)
  from d lt have "unat b div 16 = unat c div 16" "unat b mod 16 = unat c mod 16"
    by (auto intro: digit_char_inj)
  then have "b = c" by (rule byte_of_nibbles)
  with Cons.IH [OF r] bs' show ?case by simp
qed

lemma unat_byte_of_nat: "n < 256 \<Longrightarrow> unat (of_nat n :: byte) = n"
  by (simp add: unat_of_nat)

lemma of_char_lt_256: "(of_char c :: nat) < 256"
  by (cases c) (simp add: of_char_def)

lemma unat_utf8_encode:
  "map unat (utf8_encode s) =
     concat (map (\<lambda>c. if (of_char c :: nat) < 128 then [of_char c :: nat]
                        else [192 + of_char c div 64, 128 + of_char c mod 64]) s)"
proof (induction s)
  case Nil
  show ?case by (simp add: utf8_encode_def)
next
  case (Cons c s)
  have b: "(of_char c :: nat) < 256" by (rule of_char_lt_256)
  with less_mult_imp_div_less [of "of_char c" 4 64] have "(of_char c :: nat) div 64 < 4" by simp
  then have "192 + (of_char c :: nat) div 64 < 256" "128 + (of_char c :: nat) mod 64 < 256"
    by simp_all
  with b Cons show ?case
    by (simp add: utf8_encode_def Let_def unat_byte_of_nat del: of_nat_add)
qed

lemma utf8_nat_inj:
  "concat (map (\<lambda>c. if (of_char c :: nat) < 128 then [of_char c :: nat]
                      else [192 + of_char c div 64, 128 + of_char c mod 64]) s) =
   concat (map (\<lambda>c. if (of_char c :: nat) < 128 then [of_char c :: nat]
                      else [192 + of_char c div 64, 128 + of_char c mod 64]) s') \<Longrightarrow> s = s'"
proof (induction s arbitrary: s')
  case Nil
  then show ?case by (cases s') (simp_all split: if_splits)
next
  case (Cons c s)
  let ?e = "\<lambda>c. if (of_char c :: nat) < 128 then [of_char c :: nat]
                 else [192 + of_char c div 64, 128 + of_char c mod 64]"
  from Cons.prems obtain c' t where s': "s' = c' # t"
    by (cases s') (simp_all split: if_splits)
  have "(of_char c :: nat) = of_char c' \<and> concat (map ?e s) = concat (map ?e t)"
  proof (cases "(of_char c :: nat) < 128"; cases "(of_char c' :: nat) < 128")
    assume "(of_char c :: nat) < 128" "(of_char c' :: nat) < 128"
    with Cons.prems s' show ?thesis by simp
  next
    assume "(of_char c :: nat) < 128" "\<not> (of_char c' :: nat) < 128"
    with Cons.prems s' show ?thesis by simp
  next
    assume "\<not> (of_char c :: nat) < 128" "(of_char c' :: nat) < 128"
    with Cons.prems s' show ?thesis by simp
  next
    assume a: "\<not> (of_char c :: nat) < 128" "\<not> (of_char c' :: nat) < 128"
    with Cons.prems s' have d: "(of_char c :: nat) div 64 = of_char c' div 64"
      "(of_char c :: nat) mod 64 = of_char c' mod 64"
      and r: "concat (map ?e s) = concat (map ?e t)"
      by simp_all
    have "(of_char c :: nat) = 64 * (of_char c div 64) + of_char c mod 64" by simp
    also have "\<dots> = 64 * (of_char c' div 64) + of_char c' mod 64" by (simp only: d)
    also have "\<dots> = of_char c'" by simp
    finally show ?thesis using r by simp
  qed
  then have "c = c'" and r: "concat (map ?e s) = concat (map ?e t)"
    by simp_all
  with Cons.IH [OF r] s' show ?case by simp
qed

lemma utf8_encode_inj: "utf8_encode s = utf8_encode s' \<Longrightarrow> s = s'"
proof -
  assume "utf8_encode s = utf8_encode s'"
  then have "map unat (utf8_encode s) = map unat (utf8_encode s')" by simp
  then show ?thesis unfolding unat_utf8_encode by (rule utf8_nat_inj)
qed

lemma sim_extend_eq_iff:
  "sim_extend d' h = sim_extend d h \<longleftrightarrow>
     hash h (get_start_hash h @ hash h (utf8_encode d')) =
     hash h (get_start_hash h @ hash h (utf8_encode d))"
  by (auto simp: sim_extend_def Let_def dest: bytes_hex_inj)

lemma sim_extend_inj:
  assumes "inj (hash h)" and "sim_extend d' h = sim_extend d h"
  shows "d' = d"
proof -
  from assms(2) have "hash h (get_start_hash h @ hash h (utf8_encode d')) =
     hash h (get_start_hash h @ hash h (utf8_encode d))" by (simp add: sim_extend_eq_iff)
  with assms(1) have "hash h (utf8_encode d') = hash h (utf8_encode d)" by (simp add: inj_eq)
  with assms(1) have "utf8_encode d' = utf8_encode d" by (simp add: inj_eq)
  then show ?thesis by (rule utf8_encode_inj)
qed

text \<open>
  Claim C5. When the data PCR is in the quote and bound data is supplied, the quoted value
  is compared with \<open>sim_extend(data, hash_alg)\<close>, the hexadecimal digest of the start
  value followed by the digest of the UTF-8 encoding of the data: two data give the same
  expected value exactly if these digests agree, so under a hash function without
  collisions only the bound data itself gives it. On a mismatch \<open>check_pcrs\<close> reports
  the event \<open>invalid_pcr_<index>\<close> with flag \<open>True\<close> and the fields \<open>got\<close> and
  \<open>expected\<close>; on a match the block adds nothing, and the report of \<open>check_pcrs\<close>
  holds no event of that name (the index being no measured-boot PCR and the two outside
  evaluators reporting none). In both cases the index is in \<open>pcrs_in_quote\<close>.
\<close>

theorem data_pcr_compared_with_sim_extend:
  assumes q: "map_of pcrs_dict (TPM_DATA_PCR cfg) = Some quoted"
    and d: "data = Some d"
  shows "sim_extend d hash_alg =
           bytes_hex (hash hash_alg (get_start_hash hash_alg @ hash hash_alg (utf8_encode d)))
       \<and> (\<forall>d'. sim_extend d' hash_alg = sim_extend d hash_alg \<longleftrightarrow>
                 hash hash_alg (get_start_hash hash_alg @ hash hash_alg (utf8_encode d')) =
                 hash hash_alg (get_start_hash hash_alg @ hash hash_alg (utf8_encode d)))
       \<and> (\<forall>d'. utf8_encode d' = utf8_encode d \<longrightarrow> d' = d)
       \<and> (inj (hash hash_alg) \<longrightarrow>
            (\<forall>d'. sim_extend d' hash_alg = sim_extend d hash_alg \<longrightarrow> d' = d))
       \<and> validate_data_pcr cfg pcrs_dict data hash_alg st =
           st\<lparr>failure :=
                (if sim_extend d hash_alg \<noteq> quoted
                 then add_event (failure st) (''invalid_pcr_'' @ str_int (TPM_DATA_PCR cfg))
                        (Fields [(''got'', VStr quoted),
                                 (''expected'', VStr (sim_extend d hash_alg))]) True
                 else failure st),
              pcrs_in_quote := insert (TPM_DATA_PCR cfg) (pcrs_in_quote st)\<rparr>
       \<and> (\<forall>st' mbf mbd.
             check_pcrs_blocks env cfg agent tpm_policy pcrs_dict data ima_ml runtime_policy
               ima_keyrings mb_ml mb_refstate hash_alg = Inr (st', mbf, mbd) \<longrightarrow>
             TPM_DATA_PCR cfg \<in> pcrs_in_quote st')
       \<and> (\<forall>f.
             check_pcrs env cfg agent tpm_policy pcrs_dict data ima_ml runtime_policy
               ima_keyrings mb_ml mb_refstate hash_alg = Inr f \<longrightarrow>
             (sim_extend d hash_alg \<noteq> quoted \<longrightarrow>
                Event PCR_VALIDATION [] (''invalid_pcr_'' @ str_int (TPM_DATA_PCR cfg))
                  (Fields [(''got'', VStr quoted), (''expected'', VStr (sim_extend d hash_alg))])
                  True \<in> set (events f))
           \<and> (sim_extend d hash_alg = quoted
                \<and> TPM_DATA_PCR cfg \<notin> set (MEASUREDBOOT_PCRS cfg)
                \<and> collaborators_silent env (''invalid_pcr_'' @ str_int (TPM_DATA_PCR cfg)) \<longrightarrow>
                (\<forall>e\<in>set (events f). name e \<noteq> ''invalid_pcr_'' @ str_int (TPM_DATA_PCR cfg))))"
proof (intro conjI allI impI)
  show "sim_extend d hash_alg =
           bytes_hex (hash hash_alg (get_start_hash hash_alg @ hash hash_alg (utf8_encode d)))"
    by (simp add: sim_extend_def Let_def)
next
  fix d'
  show "sim_extend d' hash_alg = sim_extend d hash_alg \<longleftrightarrow>
          hash hash_alg (get_start_hash hash_alg @ hash hash_alg (utf8_encode d')) =
          hash hash_alg (get_start_hash hash_alg @ hash hash_alg (utf8_encode d))"
    by (rule sim_extend_eq_iff)
next
  fix d'
  assume "utf8_encode d' = utf8_encode d"
  then show "d' = d" by (rule utf8_encode_inj)
next
  fix d'
  assume "inj (hash hash_alg)" and "sim_extend d' hash_alg = sim_extend d hash_alg"
  then show "d' = d" by (rule sim_extend_inj)
next
  show "validate_data_pcr cfg pcrs_dict data hash_alg st =
           st\<lparr>failure :=
                (if sim_extend d hash_alg \<noteq> quoted
                 then add_event (failure st) (''invalid_pcr_'' @ str_int (TPM_DATA_PCR cfg))
                        (Fields [(''got'', VStr quoted),
                                 (''expected'', VStr (sim_extend d hash_alg))]) True
                 else failure st),
              pcrs_in_quote := insert (TPM_DATA_PCR cfg) (pcrs_in_quote st)\<rparr>"
    by (rule validate_data_pcr_present [OF q d])
next
  fix st' mbf mbd
  assume b: "check_pcrs_blocks env cfg agent tpm_policy pcrs_dict data ima_ml runtime_policy
               ima_keyrings mb_ml mb_refstate hash_alg = Inr (st', mbf, mbd)"
  from b obtain dd al ph ba st3 st4 where
    mb: "measured_boot_pcrs env cfg al pcrs_dict (snd (snd (get_policy env mb_refstate))) mb_ml ph mbf
       (check_ima_pcr env cfg agent pcrs_dict ima_ml runtime_policy ima_keyrings ba hash_alg
          (validate_data_pcr cfg pcrs_dict data hash_alg
             \<lparr>failure = merge (new_Failure PCR_VALIDATION []) mbf, pcrs_in_quote = {}\<rparr>)) = Inr st3"
    and rem: "remaining_pcrs env al pcrs_dict st3 = Inr st4"
    and st': "st' = missing_pcrs env al st4"
    by (rule check_pcrs_blocks_cases)
  let ?st1 = "validate_data_pcr cfg pcrs_dict data hash_alg
             \<lparr>failure = merge (new_Failure PCR_VALIDATION []) mbf, pcrs_in_quote = {}\<rparr>"
  have "adds UNIV UNIV ?st1 st4"
    by (rule blocks_after_data_adds [OF mb rem]) simp_all
  moreover have "adds UNIV UNIV st4 st'" unfolding st' by (rule missing_pcrs_adds) simp
  ultimately have "adds UNIV UNIV ?st1 st'" by (rule adds_trans)
  moreover have "TPM_DATA_PCR cfg \<in> pcrs_in_quote ?st1"
    by (simp add: validate_data_pcr_present [OF q d])
  ultimately show "TPM_DATA_PCR cfg \<in> pcrs_in_quote st'" by (rule adds_claimed)
next
  fix f
  assume c: "check_pcrs env cfg agent tpm_policy pcrs_dict data ima_ml runtime_policy
               ima_keyrings mb_ml mb_refstate hash_alg = Inr f"
    and ne: "sim_extend d hash_alg \<noteq> quoted"
  from c obtain st' mbf mbd where
    b: "check_pcrs_blocks env cfg agent tpm_policy pcrs_dict data ima_ml runtime_policy
               ima_keyrings mb_ml mb_refstate hash_alg = Inr (st', mbf, mbd)"
    and f: "set (events (failure st')) \<subseteq> set (events f)"
    by (rule check_pcrs_cases) auto
  from b obtain dd al ph ba st3 st4 where
    mb: "measured_boot_pcrs env cfg al pcrs_dict (snd (snd (get_policy env mb_refstate))) mb_ml ph mbf
       (check_ima_pcr env cfg agent pcrs_dict ima_ml runtime_policy ima_keyrings ba hash_alg
          (validate_data_pcr cfg pcrs_dict data hash_alg
             \<lparr>failure = merge (new_Failure PCR_VALIDATION []) mbf, pcrs_in_quote = {}\<rparr>)) = Inr st3"
    and rem: "remaining_pcrs env al pcrs_dict st3 = Inr st4"
    and st': "st' = missing_pcrs env al st4"
    by (rule check_pcrs_blocks_cases)
  let ?st1 = "validate_data_pcr cfg pcrs_dict data hash_alg
             \<lparr>failure = merge (new_Failure PCR_VALIDATION []) mbf, pcrs_in_quote = {}\<rparr>"
  let ?E = "Event PCR_VALIDATION [] (''invalid_pcr_'' @ str_int (TPM_DATA_PCR cfg))
                  (Fields [(''got'', VStr quoted), (''expected'', VStr (sim_extend d hash_alg))])
                  True"
  have "adds UNIV UNIV ?st1 st4"
    by (rule blocks_after_data_adds [OF mb rem]) simp_all
  moreover have "adds UNIV UNIV st4 st'" unfolding st' by (rule missing_pcrs_adds) simp
  ultimately have "adds UNIV UNIV ?st1 st'" by (rule adds_trans)
  moreover from ne have "?E \<in> set (events (failure ?st1))"
    by (simp add: validate_data_pcr_present [OF q d])
  ultimately have "?E \<in> set (events (failure st'))" by (rule adds_member)
  with f show "?E \<in> set (events f)" by blast
next
  fix f
  assume c: "check_pcrs env cfg agent tpm_policy pcrs_dict data ima_ml runtime_policy
               ima_keyrings mb_ml mb_refstate hash_alg = Inr f"
    and h: "sim_extend d hash_alg = quoted
                \<and> TPM_DATA_PCR cfg \<notin> set (MEASUREDBOOT_PCRS cfg)
                \<and> collaborators_silent env (''invalid_pcr_'' @ str_int (TPM_DATA_PCR cfg))"
  let ?nm = "''invalid_pcr_'' @ str_int (TPM_DATA_PCR cfg)"
  let ?N = "{x. x \<noteq> ?nm}"
  from h have eq: "sim_extend d hash_alg = quoted"
    and nmb: "TPM_DATA_PCR cfg \<notin> set (MEASUREDBOOT_PCRS cfg)"
    and sil: "collaborators_silent env ?nm" by simp_all
  from c obtain st' mbf mbd where
    b: "check_pcrs_blocks env cfg agent tpm_policy pcrs_dict data ima_ml runtime_policy
               ima_keyrings mb_ml mb_refstate hash_alg = Inr (st', mbf, mbd)"
    and f: "f = (if \<not> failed mbf \<and> truthy (snd (snd (get_policy env mb_refstate)))
          then merge (failure st')
                 (evaluate_policy env (fst (get_policy env mb_refstate))
                    (fst (snd (get_policy env mb_refstate)))
                    (snd (snd (get_policy env mb_refstate))) mbd (pcrs_in_quote st')
                    (agent_id agent))
          else failure st')"
    by (rule check_pcrs_cases)
  from b obtain dd al ph ba st3 st4 where
    parse: "parse_mb_bootlog env cfg mb_ml hash_alg = Inr (ph, ba, mbd, mbf)"
    and mb: "measured_boot_pcrs env cfg al pcrs_dict (snd (snd (get_policy env mb_refstate))) mb_ml ph mbf
       (check_ima_pcr env cfg agent pcrs_dict ima_ml runtime_policy ima_keyrings ba hash_alg
          (validate_data_pcr cfg pcrs_dict data hash_alg
             \<lparr>failure = merge (new_Failure PCR_VALIDATION []) mbf, pcrs_in_quote = {}\<rparr>)) = Inr st3"
    and rem: "remaining_pcrs env al pcrs_dict st3 = Inr st4"
    and st': "st' = missing_pcrs env al st4"
    by (rule check_pcrs_blocks_cases)
  let ?st1 = "validate_data_pcr cfg pcrs_dict data hash_alg
             \<lparr>failure = merge (new_Failure PCR_VALIDATION []) mbf, pcrs_in_quote = {}\<rparr>"
  have ev1: "events (failure ?st1) = events mbf" and cl1: "pcrs_in_quote ?st1 = {TPM_DATA_PCR cfg}"
    using eq by (simp_all add: validate_data_pcr_present [OF q d])
  have "adds ?N UNIV ?st1 st4"
  proof (rule blocks_after_data_adds [OF mb rem])
    show "''unused_pcr_'' @ str_int (IMA_PCR cfg) \<in> ?N" by simp
    show "\<And>v ml. \<forall>e\<in>set (events (check_ima env agent v ml runtime_policy ima_keyrings ba hash_alg)).
             name e \<in> ?N"
      using silent_check_ima [OF sil] by blast
    show "\<And>n. n \<in> set (MEASUREDBOOT_PCRS cfg) \<Longrightarrow> n \<in> set (map fst pcrs_dict) \<Longrightarrow>
            n \<in> UNIV \<and> ''invalid_pcr_'' @ str_int n \<in> ?N \<and> ''unused_pcr_'' @ str_int n \<in> ?N"
      using nmb by auto
    show "\<And>n. n \<in> set (map fst pcrs_dict) \<Longrightarrow> n \<notin> pcrs_in_quote ?st1 \<Longrightarrow> map_of al n \<noteq> None \<Longrightarrow>
            n \<in> UNIV \<and> ''invalid_pcr_'' @ str_int n \<in> ?N"
      unfolding cl1 by simp
  qed simp
  moreover have "adds ?N UNIV st4 st'" unfolding st' by (rule missing_pcrs_adds) simp
  ultimately have a: "adds ?N UNIV ?st1 st'" by (rule adds_trans)
  have "\<forall>e\<in>set (events (failure st')). name e \<noteq> ?nm"
  proof
    fix e assume "e \<in> set (events (failure st'))"
    from adds_names [OF a this] have "e \<in> set (events mbf) \<or> name e \<noteq> ?nm"
      unfolding ev1 by simp
    with parse_mb_bootlog_names [OF parse] parser_names_not_pcr(1) show "name e \<noteq> ?nm"
      by metis
  qed
  with f silent_evaluate_policy [OF sil]
  show "\<forall>e\<in>set (events f). name e \<noteq> ?nm"
    by (auto split: if_splits)
qed

text \<open>The definitions a concrete run of \<open>check_pcrs\<close> unfolds.\<close>

lemmas eval_defs =
  check_pcrs_def check_pcrs_blocks_def pcr_allowlist_of_def parse_mb_bootlog_def
  validate_data_pcr_def check_ima_pcr_def measured_boot_pcrs_def mb_pcr_step_def
  remaining_pcrs_def remaining_pcr_step_def missing_pcrs_def
  test_env_def test_config_def test_hash_def plain_hash_def test_agent_def
  new_Failure_def add_event_def merge_def failed_def set_iter_def
  sim_extend_def bytes_hex_def utf8_encode_def digit_char_def str_int_def str_nat.simps
  py_int_def strip_def unsigned_value_def is_digit_def is_space_def digit_value_def Let_def

theorem data_pcr_compared_with_sim_extend_witness:
  "sim_extend ''ab'' plain_hash = ''006162''
 \<and> sim_extend [CHR 0xE9] plain_hash = ''00c3a9''
 \<and> sim_extend ''cd'' plain_hash \<noteq> sim_extend ''ab'' plain_hash
 \<and> check_pcrs test_env test_config test_agent (Inr []) [(16, ''006162'')] (Some ''cd'') None
     (DDict []) None None None plain_hash =
   Inr \<lparr>component = PCR_VALIDATION, sub_components = [],
        events = [Event PCR_VALIDATION [] ''invalid_pcr_16''
                    (Fields [(''got'', VStr ''006162''), (''expected'', VStr ''006364'')]) True]\<rparr>
 \<and> Event PCR_VALIDATION [] (''invalid_pcr_'' @ str_int (TPM_DATA_PCR test_config))
       (Fields [(''got'', VStr ''006162''), (''expected'', VStr (sim_extend ''cd'' plain_hash))])
       True
     \<in> set (events (projr (check_pcrs test_env test_config test_agent (Inr []) [(16, ''006162'')]
                               (Some ''cd'') None (DDict []) None None None plain_hash)))
 \<and> check_pcrs test_env test_config test_agent (Inr [(''3'', [''bb''])])
     [(16, ''006162''), (3, ''aa'')] (Some ''ab'') None (DDict []) None None None plain_hash =
   Inr \<lparr>component = PCR_VALIDATION, sub_components = [],
        events = [Event PCR_VALIDATION [] ''invalid_pcr_3''
                    (Fields [(''context'', VStr ''PCR value is not in allowlist''),
                             (''got'', VStr ''aa''), (''expected'', VStrs [''bb''])]) True]\<rparr>
 \<and> list_all (\<lambda>e. name e \<noteq> ''invalid_pcr_'' @ str_int (TPM_DATA_PCR test_config))
       (events (projr (check_pcrs test_env test_config test_agent (Inr [(''3'', [''bb''])])
                         [(16, ''006162''), (3, ''aa'')] (Some ''ab'') None (DDict []) None None
                         None plain_hash)))"
proof -
  let ?F1 = "\<lparr>component = PCR_VALIDATION, sub_components = [],
        events = [Event PCR_VALIDATION [] ''invalid_pcr_16''
                    (Fields [(''got'', VStr ''006162''), (''expected'', VStr ''006364'')]) True]\<rparr>"
  let ?F2 = "\<lparr>component = PCR_VALIDATION, sub_components = [],
        events = [Event PCR_VALIDATION [] ''invalid_pcr_3''
                    (Fields [(''context'', VStr ''PCR value is not in allowlist''),
                             (''got'', VStr ''aa''), (''expected'', VStrs [''bb''])]) True]\<rparr>"
  have e1: "check_pcrs test_env test_config test_agent (Inr []) [(16, ''006162'')] (Some ''cd'')
              None (DDict []) None None None plain_hash = Inr ?F1"
    by (simp add: eval_defs)
  have e2: "check_pcrs test_env test_config test_agent (Inr [(''3'', [''bb''])])
              [(16, ''006162''), (3, ''aa'')] (Some ''ab'') None (DDict []) None None None
              plain_hash = Inr ?F2"
    by (simp add: eval_defs)
  have q1: "map_of [(16, ''006162'')] (TPM_DATA_PCR test_config) = Some ''006162''"
    by (simp add: test_config_def)
  have q2: "map_of [(16, ''006162''), (3, ''aa'')] (TPM_DATA_PCR test_config) = Some ''006162''"
    by (simp add: test_config_def)
  have v: "sim_extend ''ab'' plain_hash = ''006162''" "sim_extend ''cd'' plain_hash = ''006364''"
    "sim_extend [CHR 0xE9] plain_hash = ''00c3a9''"
    by (simp_all add: eval_defs)
  have ne: "sim_extend ''cd'' plain_hash \<noteq> ''006162''"
    by (simp add: v)
  have nmb: "TPM_DATA_PCR test_config \<notin> set (MEASUREDBOOT_PCRS test_config)"
    by (simp add: test_config_def)
  have sil: "collaborators_silent test_env (''invalid_pcr_'' @ str_int (TPM_DATA_PCR test_config))"
    by (simp add: collaborators_silent_def test_env_def)
  have i: "inj (hash plain_hash)"
    by (simp add: plain_hash_def)
  note t1 = data_pcr_compared_with_sim_extend
            [OF q1 refl, where hash_alg = plain_hash and env = test_env and agent = test_agent
               and tpm_policy = "Inr []" and ima_ml = None and runtime_policy = "DDict []"
               and ima_keyrings = None and mb_ml = None and mb_refstate = None]
  note t2 = data_pcr_compared_with_sim_extend
            [OF q2 refl, where hash_alg = plain_hash and env = test_env and agent = test_agent
               and tpm_policy = "Inr [(''3'', [''bb''])]" and ima_ml = None
               and runtime_policy = "DDict []"
               and ima_keyrings = None and mb_ml = None and mb_refstate = None]
  have m0: "sim_extend ''cd'' plain_hash \<noteq> sim_extend ''ab'' plain_hash"
  proof
    assume "sim_extend ''cd'' plain_hash = sim_extend ''ab'' plain_hash"
    with t2 i have "''cd'' = ''ab''" by blast
    then show False by simp
  qed
  have m1: "Event PCR_VALIDATION [] (''invalid_pcr_'' @ str_int (TPM_DATA_PCR test_config))
       (Fields [(''got'', VStr ''006162''), (''expected'', VStr (sim_extend ''cd'' plain_hash))])
       True \<in> set (events ?F1)"
    using t1 e1 ne by blast
  have m2: "\<forall>e\<in>set (events ?F2). name e \<noteq> ''invalid_pcr_'' @ str_int (TPM_DATA_PCR test_config)"
    using t2 e2 v(1) nmb sil by blast
  from m2 have m2': "list_all (\<lambda>e. name e \<noteq> ''invalid_pcr_'' @ str_int (TPM_DATA_PCR test_config))
                      (events ?F2)"
    by (simp only: list_all_iff)
  from v(1,3) m0 e1 e2 m1 m2' show ?thesis by simp
qed

subsection \<open>What the two loops report\<close>

lemma adds_scope:
  "adds N I a b \<Longrightarrow> component (failure b) = component (failure a) \<and>
     sub_components (failure b) = sub_components (failure a)"
  by (simp add: adds_def)

lemma remaining_pcrs_reports:
  assumes rem: "remaining_pcrs env al pd st = Inr st'"
    and n: "n \<in> set (map fst pd)" "n \<notin> pcrs_in_quote st"
    and al: "map_of al n = Some allowed"
    and v: "map_of pd n = Some v" "v \<notin> set allowed"
  shows "Event (component (failure st)) (sub_components (failure st))
           (''invalid_pcr_'' @ str_int n)
           (Fields [(''context'', VStr ''PCR value is not in allowlist''),
                    (''got'', VStr v), (''expected'', VStrs allowed)]) True
         \<in> set (events (failure st'))"
proof -
  let ?E = "Event (component (failure st)) (sub_components (failure st))
           (''invalid_pcr_'' @ str_int n)
           (Fields [(''context'', VStr ''PCR value is not in allowlist''),
                    (''got'', VStr v), (''expected'', VStrs allowed)]) True"
  let ?Inv = "\<lambda>s. component (failure s) = component (failure st) \<and>
                   sub_components (failure s) = sub_components (failure st)"
  let ?L = "set_iter env (filter (\<lambda>n. n \<notin> pcrs_in_quote st) (map fst pd))"
  from n have nL: "n \<in> set ?L" by simp
  have step: "adds UNIV UNIV s s'" if "remaining_pcr_step al pd x s = Inr s'" for x s s'
    by (rule remaining_pcr_step_adds [OF that]) simp
  show ?thesis
  proof (rule for_each_reaches_inv [where Inv = ?Inv and Q = "\<lambda>s. ?E \<in> set (events (failure s))",
          OF rem [unfolded remaining_pcrs_def] nL])
    show "?Inv st" by simp
  next
    fix x s s' assume "?Inv s" "remaining_pcr_step al pd x s = Inr s'"
    then show "?Inv s'" using adds_scope [OF step] by simp
  next
    fix s s' assume "?Inv s" "remaining_pcr_step al pd n s = Inr s'"
    with al v show "?E \<in> set (events (failure s'))"
      by (auto simp: remaining_pcr_step_def)
  next
    fix x s s' assume "?E \<in> set (events (failure s))" "remaining_pcr_step al pd x s = Inr s'"
    then show "?E \<in> set (events (failure s'))" using adds_member [OF step] by blast
  qed
qed

lemma measured_boot_pcrs_no_list:
  assumes mb: "measured_boot_pcrs env cfg al pd rs mbl ph mbf st = Inr st'"
    and nl: "mbl = None \<or> mbl = Some []"
  shows "pcrs_in_quote st' = pcrs_in_quote st"
proof (cases "failed mbf")
  case True
  with mb show ?thesis by (auto simp: measured_boot_pcrs_def)
next
  case False
  let ?L = "set_iter env (filter (\<lambda>n. n \<in> set (map fst pd)) (MEASUREDBOOT_PCRS cfg))"
  from False mb obtain s3 mf where
    loop: "for_each (mb_pcr_step al pd rs mbl ph) ?L (st, new_Failure MEASURED_BOOT []) = Inr (s3, mf)"
    and st': "st' = s3\<lparr>failure := merge (failure s3) mf\<rparr>"
    by (auto simp: measured_boot_pcrs_def Let_def split: sum.splits)
  have "pcrs_in_quote (fst (s3, mf)) = pcrs_in_quote st"
  proof (rule for_each_invariant [where P = "\<lambda>p. pcrs_in_quote (fst p) = pcrs_in_quote st", OF loop])
    show "pcrs_in_quote (fst (st, new_Failure MEASURED_BOOT [])) = pcrs_in_quote st" by simp
  next
    fix x s s'
    assume p: "pcrs_in_quote (fst s) = pcrs_in_quote st"
      and b: "mb_pcr_step al pd rs mbl ph x s = Inr s'"
    from b have "mb_pcr_step al pd rs mbl ph x (fst s, snd s) = Inr (fst s', snd s')" by simp
    then have "pcrs_in_quote (fst s') = pcrs_in_quote (fst s)"
      using nl by (cases rule: mb_pcr_step_cases) auto
    with p show "pcrs_in_quote (fst s') = pcrs_in_quote st" by simp
  qed
  with st' show ?thesis by simp
qed

lemma measured_boot_pcrs_reports_unused:
  assumes mb: "measured_boot_pcrs env cfg al pd rs mbl ph mbf st = Inr st'"
    and ok: "\<not> failed mbf"
    and rs: "truthy rs"
    and nl: "mbl = None \<or> mbl = Some []"
    and n: "n \<in> set (MEASUREDBOOT_PCRS cfg)" "n \<in> set (map fst pd)"
  shows "Event (component (failure st)) (sub_components (failure st))
           (''unused_pcr_'' @ str_int n)
           (Text (''Measured Boot PCR '' @ str_int n
                   @ '' in policy, but no measurement list provided'')) True
         \<in> set (events (failure st'))"
proof -
  let ?E = "Event (component (failure st)) (sub_components (failure st))
           (''unused_pcr_'' @ str_int n)
           (Text (''Measured Boot PCR '' @ str_int n
                   @ '' in policy, but no measurement list provided'')) True"
  let ?L = "set_iter env (filter (\<lambda>n. n \<in> set (map fst pd)) (MEASUREDBOOT_PCRS cfg))"
  let ?Inv = "\<lambda>p. component (failure (fst p)) = component (failure st) \<and>
                   sub_components (failure (fst p)) = sub_components (failure st)"
  from ok mb obtain s3 mf where
    loop: "for_each (mb_pcr_step al pd rs mbl ph) ?L (st, new_Failure MEASURED_BOOT []) = Inr (s3, mf)"
    and st': "st' = s3\<lparr>failure := merge (failure s3) mf\<rparr>"
    by (auto simp: measured_boot_pcrs_def Let_def split: sum.splits)
  from n have nL: "n \<in> set ?L" by simp
  have step: "adds UNIV UNIV (fst s) (fst s')" if "mb_pcr_step al pd rs mbl ph x s = Inr s'" for x s s'
  proof -
    from that have "mb_pcr_step al pd rs mbl ph x (fst s, snd s) = Inr (fst s', snd s')" by simp
    from mb_pcr_step_adds [OF this, of UNIV UNIV] show ?thesis by simp
  qed
  have "?E \<in> set (events (failure (fst (s3, mf))))"
  proof (rule for_each_reaches_inv
           [where Inv = ?Inv and Q = "\<lambda>p. ?E \<in> set (events (failure (fst p)))", OF loop nL])
    show "?Inv (st, new_Failure MEASURED_BOOT [])" by simp
  next
    fix x s s' assume "?Inv s" "mb_pcr_step al pd rs mbl ph x s = Inr s'"
    then show "?Inv s'" using adds_scope [OF step] by simp
  next
    fix s s' assume i: "?Inv s" and b: "mb_pcr_step al pd rs mbl ph n s = Inr s'"
    from b have "mb_pcr_step al pd rs mbl ph n (fst s, snd s) = Inr (fst s', snd s')" by simp
    then show "?E \<in> set (events (failure (fst s')))"
      using rs nl i by (cases rule: mb_pcr_step_cases) auto
  next
    fix x s s'
    assume "?E \<in> set (events (failure (fst s)))" "mb_pcr_step al pd rs mbl ph x s = Inr s'"
    then show "?E \<in> set (events (failure (fst s')))" using adds_member [OF step] by blast
  qed
  with st' show ?thesis by simp
qed

lemma validate_data_pcr_absent:
  "validate_data_pcr cfg pd None h st =
     st\<lparr>failure :=
          add_event (failure st) (''missing_pcr_'' @ str_int (TPM_DATA_PCR cfg))
            (Text (''Data PCR '' @ str_int (TPM_DATA_PCR cfg)
                    @ '' is missing in quote, but is required'')) True\<rparr>"
  by (simp add: validate_data_pcr_def split: option.splits)

text \<open>
  Claim C10. When the bound data is \<open>None\<close>, the data block adds the event
  \<open>missing_pcr_<index>\<close> with flag \<open>True\<close> whatever the quote holds, also when the
  data PCR is in it; it reads neither the quoted value nor the hash algorithm, and it
  leaves \<open>pcrs_in_quote\<close> as it was. The event is in the report of \<open>check_pcrs\<close>.
  An index that is neither the IMA PCR nor a measured-boot PCR then reaches the loop over
  the remaining PCRs: it is used exactly if it is quoted and has an allowlist entry, and a
  quoted value outside its allowlist entry is reported there.
\<close>

theorem absent_data_reports_missing_pcr:
  assumes d: "data = None"
  shows "validate_data_pcr cfg pcrs_dict data hash_alg st =
           st\<lparr>failure :=
                add_event (failure st) (''missing_pcr_'' @ str_int (TPM_DATA_PCR cfg))
                  (Text (''Data PCR '' @ str_int (TPM_DATA_PCR cfg)
                          @ '' is missing in quote, but is required'')) True\<rparr>
       \<and> (\<forall>f.
             check_pcrs env cfg agent tpm_policy pcrs_dict data ima_ml runtime_policy
               ima_keyrings mb_ml mb_refstate hash_alg = Inr f \<longrightarrow>
             Event PCR_VALIDATION [] (''missing_pcr_'' @ str_int (TPM_DATA_PCR cfg))
               (Text (''Data PCR '' @ str_int (TPM_DATA_PCR cfg)
                       @ '' is missing in quote, but is required'')) True \<in> set (events f))
       \<and> (\<forall>st' mbf mbd dd al.
             check_pcrs_blocks env cfg agent tpm_policy pcrs_dict data ima_ml runtime_policy
               ima_keyrings mb_ml mb_refstate hash_alg = Inr (st', mbf, mbd)
             \<and> (case tpm_policy of Inl s \<Rightarrow> json_loads env s | Inr p \<Rightarrow> Inr p) = Inr dd
             \<and> pcr_allowlist_of dd = Inr al
             \<and> TPM_DATA_PCR cfg \<noteq> IMA_PCR cfg
             \<and> TPM_DATA_PCR cfg \<notin> set (MEASUREDBOOT_PCRS cfg) \<longrightarrow>
             (TPM_DATA_PCR cfg \<in> pcrs_in_quote st' \<longleftrightarrow>
                TPM_DATA_PCR cfg \<in> set (map fst pcrs_dict) \<and> map_of al (TPM_DATA_PCR cfg) \<noteq> None)
           \<and> (\<forall>v allowed.
                 map_of pcrs_dict (TPM_DATA_PCR cfg) = Some v
                 \<and> map_of al (TPM_DATA_PCR cfg) = Some allowed \<and> v \<notin> set allowed \<longrightarrow>
                 Event PCR_VALIDATION [] (''invalid_pcr_'' @ str_int (TPM_DATA_PCR cfg))
                   (Fields [(''context'', VStr ''PCR value is not in allowlist''),
                            (''got'', VStr v), (''expected'', VStrs allowed)]) True
                 \<in> set (events (failure st'))))"
proof (intro conjI allI impI)
  show "validate_data_pcr cfg pcrs_dict data hash_alg st =
           st\<lparr>failure :=
                add_event (failure st) (''missing_pcr_'' @ str_int (TPM_DATA_PCR cfg))
                  (Text (''Data PCR '' @ str_int (TPM_DATA_PCR cfg)
                          @ '' is missing in quote, but is required'')) True\<rparr>"
    unfolding d by (rule validate_data_pcr_absent)
next
  fix f
  assume c: "check_pcrs env cfg agent tpm_policy pcrs_dict data ima_ml runtime_policy
               ima_keyrings mb_ml mb_refstate hash_alg = Inr f"
  from c obtain st' mbf mbd where
    b: "check_pcrs_blocks env cfg agent tpm_policy pcrs_dict data ima_ml runtime_policy
               ima_keyrings mb_ml mb_refstate hash_alg = Inr (st', mbf, mbd)"
    and f: "set (events (failure st')) \<subseteq> set (events f)"
    by (rule check_pcrs_cases) auto
  from b obtain dd al ph ba st3 st4 where
    mb: "measured_boot_pcrs env cfg al pcrs_dict (snd (snd (get_policy env mb_refstate))) mb_ml ph mbf
       (check_ima_pcr env cfg agent pcrs_dict ima_ml runtime_policy ima_keyrings ba hash_alg
          (validate_data_pcr cfg pcrs_dict data hash_alg
             \<lparr>failure = merge (new_Failure PCR_VALIDATION []) mbf, pcrs_in_quote = {}\<rparr>)) = Inr st3"
    and rem: "remaining_pcrs env al pcrs_dict st3 = Inr st4"
    and st': "st' = missing_pcrs env al st4"
    by (rule check_pcrs_blocks_cases)
  let ?st1 = "validate_data_pcr cfg pcrs_dict data hash_alg
             \<lparr>failure = merge (new_Failure PCR_VALIDATION []) mbf, pcrs_in_quote = {}\<rparr>"
  let ?E = "Event PCR_VALIDATION [] (''missing_pcr_'' @ str_int (TPM_DATA_PCR cfg))
               (Text (''Data PCR '' @ str_int (TPM_DATA_PCR cfg)
                       @ '' is missing in quote, but is required'')) True"
  have "adds UNIV UNIV ?st1 st4"
    by (rule blocks_after_data_adds [OF mb rem]) simp_all
  moreover have "adds UNIV UNIV st4 st'" unfolding st' by (rule missing_pcrs_adds) simp
  ultimately have "adds UNIV UNIV ?st1 st'" by (rule adds_trans)
  moreover have "?E \<in> set (events (failure ?st1))"
    unfolding d by (simp add: validate_data_pcr_absent)
  ultimately have "?E \<in> set (events (failure st'))" by (rule adds_member)
  with f show "?E \<in> set (events f)" by blast
next
  fix st' mbf mbd dd al
  assume h: "check_pcrs_blocks env cfg agent tpm_policy pcrs_dict data ima_ml runtime_policy
               ima_keyrings mb_ml mb_refstate hash_alg = Inr (st', mbf, mbd)
             \<and> (case tpm_policy of Inl s \<Rightarrow> json_loads env s | Inr p \<Rightarrow> Inr p) = Inr dd
             \<and> pcr_allowlist_of dd = Inr al
             \<and> TPM_DATA_PCR cfg \<noteq> IMA_PCR cfg
             \<and> TPM_DATA_PCR cfg \<notin> set (MEASUREDBOOT_PCRS cfg)"
  let ?idx = "TPM_DATA_PCR cfg"
  let ?keys = "set (map fst pcrs_dict)"
  from h have b: "check_pcrs_blocks env cfg agent tpm_policy pcrs_dict data ima_ml runtime_policy
               ima_keyrings mb_ml mb_refstate hash_alg = Inr (st', mbf, mbd)"
    and dd: "(case tpm_policy of Inl s \<Rightarrow> json_loads env s | Inr p \<Rightarrow> Inr p) = Inr dd"
    and al: "pcr_allowlist_of dd = Inr al"
    and nima: "?idx \<noteq> IMA_PCR cfg" and nmb: "?idx \<notin> set (MEASUREDBOOT_PCRS cfg)"
    by simp_all
  from b obtain dd' al' ph ba st3 st4 where
    dd': "(case tpm_policy of Inl s \<Rightarrow> json_loads env s | Inr p \<Rightarrow> Inr p) = Inr dd'"
    and al': "pcr_allowlist_of dd' = Inr al'"
    and mb': "measured_boot_pcrs env cfg al' pcrs_dict (snd (snd (get_policy env mb_refstate))) mb_ml ph mbf
       (check_ima_pcr env cfg agent pcrs_dict ima_ml runtime_policy ima_keyrings ba hash_alg
          (validate_data_pcr cfg pcrs_dict data hash_alg
             \<lparr>failure = merge (new_Failure PCR_VALIDATION []) mbf, pcrs_in_quote = {}\<rparr>)) = Inr st3"
    and rem': "remaining_pcrs env al' pcrs_dict st3 = Inr st4"
    and st': "st' = missing_pcrs env al' st4"
    by (rule check_pcrs_blocks_cases)
  from dd dd' al al' have same: "al' = al" by simp
  note mb = mb' [unfolded same] and rem = rem' [unfolded same]
  let ?st0 = "\<lparr>failure = merge (new_Failure PCR_VALIDATION []) mbf, pcrs_in_quote = {}\<rparr>"
  let ?st1 = "validate_data_pcr cfg pcrs_dict data hash_alg ?st0"
  let ?st2 = "check_ima_pcr env cfg agent pcrs_dict ima_ml runtime_policy ima_keyrings ba hash_alg ?st1"
  have cl1: "pcrs_in_quote ?st1 = {}" and sc1: "component (failure ?st1) = PCR_VALIDATION"
    "sub_components (failure ?st1) = []"
    unfolding d by (simp_all add: validate_data_pcr_absent)
  have a2: "adds UNIV {IMA_PCR cfg} ?st1 ?st2"
    by (rule check_ima_pcr_adds) simp_all
  have a3: "adds UNIV (set (MEASUREDBOOT_PCRS cfg)) ?st2 st3"
    by (rule measured_boot_pcrs_adds [OF mb]) simp
  from a2 a3 cl1 have cl3: "pcrs_in_quote st3 \<subseteq> {IMA_PCR cfg} \<union> set (MEASUREDBOOT_PCRS cfg)"
    by (auto simp: adds_def)
  with nima nmb have n3: "?idx \<notin> pcrs_in_quote st3" by auto
  from a2 a3 sc1 have sc3: "component (failure st3) = PCR_VALIDATION"
    "sub_components (failure st3) = []"
    by (simp_all add: adds_def)
  have cl': "pcrs_in_quote st' = pcrs_in_quote st4"
    unfolding st' same by (simp add: missing_pcrs_def Let_def)
  have a4: "adds UNIV {n \<in> ?keys. map_of al n \<noteq> None} st3 st4"
    by (rule remaining_pcrs_adds [OF rem]) simp
  show "?idx \<in> pcrs_in_quote st' \<longleftrightarrow> ?idx \<in> ?keys \<and> map_of al ?idx \<noteq> None"
  proof
    assume "?idx \<in> pcrs_in_quote st'"
    with cl' a4 n3 show "?idx \<in> ?keys \<and> map_of al ?idx \<noteq> None"
      by (auto simp: adds_def)
  next
    assume "?idx \<in> ?keys \<and> map_of al ?idx \<noteq> None"
    then have "?idx \<in> pcrs_in_quote st4" using remaining_pcrs_claims [OF rem] by blast
    with cl' show "?idx \<in> pcrs_in_quote st'" by simp
  qed
  fix v allowed
  assume va: "map_of pcrs_dict ?idx = Some v \<and> map_of al ?idx = Some allowed \<and> v \<notin> set allowed"
  then have k: "?idx \<in> ?keys" by (auto dest: map_of_SomeD intro: rev_image_eqI)
  from va have "Event (component (failure st3)) (sub_components (failure st3))
           (''invalid_pcr_'' @ str_int ?idx)
           (Fields [(''context'', VStr ''PCR value is not in allowlist''),
                    (''got'', VStr v), (''expected'', VStrs allowed)]) True
         \<in> set (events (failure st4))"
    using remaining_pcrs_reports [OF rem k n3] by blast
  moreover have "adds UNIV UNIV st4 st'" unfolding st' by (rule missing_pcrs_adds) simp
  ultimately show "Event PCR_VALIDATION [] (''invalid_pcr_'' @ str_int ?idx)
                   (Fields [(''context'', VStr ''PCR value is not in allowlist''),
                            (''got'', VStr v), (''expected'', VStrs allowed)]) True
                 \<in> set (events (failure st'))"
    unfolding sc3 by (rule adds_member [rotated])
qed

theorem absent_data_reports_missing_pcr_witness:
  "check_pcrs test_env test_config test_agent (Inr [(''16'', [''aaaa''])]) [(16, ''ffff'')] None
     None (DDict []) None None None test_hash =
   Inr \<lparr>component = PCR_VALIDATION, sub_components = [],
        events = [Event PCR_VALIDATION [] ''missing_pcr_16''
                    (Text ''Data PCR 16 is missing in quote, but is required'') True,
                  Event PCR_VALIDATION [] ''invalid_pcr_16''
                    (Fields [(''context'', VStr ''PCR value is not in allowlist''),
                             (''got'', VStr ''ffff''), (''expected'', VStrs [''aaaa''])]) True]\<rparr>
 \<and> Event PCR_VALIDATION [] (''missing_pcr_'' @ str_int (TPM_DATA_PCR test_config))
       (Text (''Data PCR '' @ str_int (TPM_DATA_PCR test_config)
               @ '' is missing in quote, but is required'')) True
     \<in> set (events (projr (check_pcrs test_env test_config test_agent
                               (Inr [(''16'', [''aaaa''])]) [(16, ''ffff'')] None None (DDict [])
                               None None None test_hash)))
 \<and> TPM_DATA_PCR test_config
     \<in> pcrs_in_quote (fst (projr (check_pcrs_blocks test_env test_config test_agent
                                     (Inr [(''16'', [''aaaa''])]) [(16, ''ffff'')] None None
                                     (DDict []) None None None test_hash)))
 \<and> Event PCR_VALIDATION [] (''invalid_pcr_'' @ str_int (TPM_DATA_PCR test_config))
       (Fields [(''context'', VStr ''PCR value is not in allowlist''),
                (''got'', VStr ''ffff''), (''expected'', VStrs [''aaaa''])]) True
     \<in> set (events (failure (fst (projr (check_pcrs_blocks test_env test_config test_agent
                                     (Inr [(''16'', [''aaaa''])]) [(16, ''ffff'')] None None
                                     (DDict []) None None None test_hash)))))"
proof -
  let ?F = "\<lparr>component = PCR_VALIDATION, sub_components = [],
        events = [Event PCR_VALIDATION [] ''missing_pcr_16''
                    (Text ''Data PCR 16 is missing in quote, but is required'') True,
                  Event PCR_VALIDATION [] ''invalid_pcr_16''
                    (Fields [(''context'', VStr ''PCR value is not in allowlist''),
                             (''got'', VStr ''ffff''), (''expected'', VStrs [''aaaa''])]) True]\<rparr>"
  let ?MBF = "\<lparr>component = MEASURED_BOOT, sub_components = [''parser''], events = []\<rparr>"
  have e1: "check_pcrs test_env test_config test_agent (Inr [(''16'', [''aaaa''])]) [(16, ''ffff'')]
              None None (DDict []) None None None test_hash = Inr ?F"
    by (simp add: eval_defs)
  have e2: "check_pcrs_blocks test_env test_config test_agent (Inr [(''16'', [''aaaa''])])
              [(16, ''ffff'')] None None (DDict []) None None None test_hash =
            Inr (\<lparr>failure = ?F, pcrs_in_quote = {16}\<rparr>, ?MBF, DDict [])"
    by (simp add: eval_defs)
  have al: "pcr_allowlist_of [(''16'', [''aaaa''])] = Inr [(16, [''aaaa''])]"
    by (simp add: eval_defs)
  have c: "TPM_DATA_PCR test_config \<noteq> IMA_PCR test_config"
    "TPM_DATA_PCR test_config \<notin> set (MEASUREDBOOT_PCRS test_config)"
    "map_of [(16, ''ffff'')] (TPM_DATA_PCR test_config) = Some ''ffff''"
    "map_of [(16, [''aaaa''])] (TPM_DATA_PCR test_config) = Some [''aaaa'']"
    "''ffff'' \<notin> set [''aaaa'']"
    "TPM_DATA_PCR test_config \<in> set (map fst [(16 :: int, ''ffff'')])"
    by (simp_all add: test_config_def)
  note t = absent_data_reports_missing_pcr
             [OF refl, where env = test_env and cfg = test_config and agent = test_agent
                and tpm_policy = "Inr [(''16'', [''aaaa''])]" and pcrs_dict = "[(16, ''ffff'')]"
                and ima_ml = None and runtime_policy = "DDict []" and ima_keyrings = None
                and mb_ml = None and mb_refstate = None and hash_alg = test_hash]
  have m1: "Event PCR_VALIDATION [] (''missing_pcr_'' @ str_int (TPM_DATA_PCR test_config))
       (Text (''Data PCR '' @ str_int (TPM_DATA_PCR test_config)
               @ '' is missing in quote, but is required'')) True \<in> set (events ?F)"
    using t e1 by blast
  have m2: "TPM_DATA_PCR test_config \<in> pcrs_in_quote \<lparr>failure = ?F, pcrs_in_quote = {16}\<rparr>"
    using t e2 al c by (auto simp del: map_of.simps)
  have m3: "Event PCR_VALIDATION [] (''invalid_pcr_'' @ str_int (TPM_DATA_PCR test_config))
       (Fields [(''context'', VStr ''PCR value is not in allowlist''),
                (''got'', VStr ''ffff''), (''expected'', VStrs [''aaaa''])]) True
     \<in> set (events (failure \<lparr>failure = ?F, pcrs_in_quote = {16}\<rparr>))"
    using t e2 al c by (auto simp del: map_of.simps)
  from e1 e2 m1 m2 m3 show ?thesis by simp
qed

subsection \<open>Measured-boot PCRs without a measurement list\<close>

lemma measured_boot_pcrs_no_refstate:
  assumes mb: "measured_boot_pcrs env cfg al pd rs mbl ph mbf st = Inr st'"
    and rs: "\<not> truthy rs"
  shows "adds {} {} st st'"
proof (cases "failed mbf")
  case True
  with mb show ?thesis by (auto simp: measured_boot_pcrs_def adds_def)
next
  case False
  let ?L = "set_iter env (filter (\<lambda>n. n \<in> set (map fst pd)) (MEASUREDBOOT_PCRS cfg))"
  from False mb obtain s3 mf where
    loop: "for_each (mb_pcr_step al pd rs mbl ph) ?L (st, new_Failure MEASURED_BOOT []) = Inr (s3, mf)"
    and st': "st' = s3\<lparr>failure := merge (failure s3) mf\<rparr>"
    by (auto simp: measured_boot_pcrs_def Let_def split: sum.splits)
  have "(s3, mf) = (st, new_Failure MEASURED_BOOT [])"
  proof (rule for_each_invariant [where P = "\<lambda>p. p = (st, new_Failure MEASURED_BOOT [])", OF loop])
    show "(st, new_Failure MEASURED_BOOT []) = (st, new_Failure MEASURED_BOOT [])" ..
  next
    fix x s s'
    assume "s = (st, new_Failure MEASURED_BOOT [])" "mb_pcr_step al pd rs mbl ph x s = Inr s'"
    with rs show "s' = (st, new_Failure MEASURED_BOOT [])"
      by (simp add: mb_pcr_step_def)
  qed
  with st' show ?thesis by (simp add: adds_def)
qed

lemma validate_data_pcr_claimed:
  "pcrs_in_quote (validate_data_pcr cfg pd data h st) =
     (if map_of pd (TPM_DATA_PCR cfg) \<noteq> None \<and> data \<noteq> None
      then insert (TPM_DATA_PCR cfg) (pcrs_in_quote st) else pcrs_in_quote st)"
  by (auto simp: validate_data_pcr_def Let_def split: option.splits)

lemma check_ima_pcr_claimed:
  "pcrs_in_quote (check_ima_pcr env cfg agent pd iml rp kr ba h st) =
     (if map_of pd (IMA_PCR cfg) \<noteq> None
      then insert (IMA_PCR cfg) (pcrs_in_quote st) else pcrs_in_quote st)"
  by (auto simp: check_ima_pcr_def split: option.splits)

lemma mb_pcr_step_unused:
  assumes "truthy rs" and "mbl = None \<or> mbl = Some []"
  shows "mb_pcr_step al pd rs mbl ph n (st, mf) =
           Inr (st\<lparr>failure :=
                      add_event (failure st) (''unused_pcr_'' @ str_int n)
                        (Text (''Measured Boot PCR '' @ str_int n
                                @ '' in policy, but no measurement list provided'')) True\<rparr>, mf)"
  using assms by (auto simp: mb_pcr_step_def)

lemma mb_pcr_step_skip:
  assumes "\<not> truthy rs"
  shows "mb_pcr_step al pd rs mbl ph n (st, mf) = Inr (st, mf)"
  using assms by (simp add: mb_pcr_step_def)

text \<open>
  Claim C7, amended. For a measured-boot PCR of the quote and no measurement list (so the
  parser reports nothing and the loop runs): when a reference state was resolved,
  \<open>check_pcrs\<close> reports \<open>unused_pcr_<index>\<close> with flag \<open>True\<close>; when none was
  resolved, the loop does nothing and the report holds no event of that name (the index
  not being the IMA PCR, the outside evaluators reporting none). In neither case does the
  loop put the index into \<open>pcrs_in_quote\<close>: at the end the index is in that set
  exactly if it is the data PCR with bound data, the IMA PCR, or has an allowlist entry.
\<close>

theorem measured_boot_pcr_without_list:
  assumes n: "n \<in> set (MEASUREDBOOT_PCRS cfg)" "map_of pcrs_dict n = Some v"
    and nl: "mb_ml = None \<or> mb_ml = Some []"
  shows "(truthy rs \<longrightarrow>
            mb_pcr_step al pcrs_dict rs mb_ml ph n (st, mf) =
              Inr (st\<lparr>failure :=
                         add_event (failure st) (''unused_pcr_'' @ str_int n)
                           (Text (''Measured Boot PCR '' @ str_int n
                                   @ '' in policy, but no measurement list provided'')) True\<rparr>, mf))
       \<and> (\<not> truthy rs \<longrightarrow> mb_pcr_step al pcrs_dict rs mb_ml ph n (st, mf) = Inr (st, mf))
       \<and> (\<forall>f.
             check_pcrs env cfg agent tpm_policy pcrs_dict data ima_ml runtime_policy
               ima_keyrings mb_ml mb_refstate hash_alg = Inr f \<longrightarrow>
             (truthy (snd (snd (get_policy env mb_refstate))) \<longrightarrow>
                Event PCR_VALIDATION [] (''unused_pcr_'' @ str_int n)
                  (Text (''Measured Boot PCR '' @ str_int n
                          @ '' in policy, but no measurement list provided'')) True
                \<in> set (events f))
           \<and> (\<not> truthy (snd (snd (get_policy env mb_refstate))) \<and> n \<noteq> IMA_PCR cfg
                \<and> collaborators_silent env (''unused_pcr_'' @ str_int n) \<longrightarrow>
                (\<forall>e\<in>set (events f). name e \<noteq> ''unused_pcr_'' @ str_int n)))
       \<and> (\<forall>st' mbf mbd dd al.
             check_pcrs_blocks env cfg agent tpm_policy pcrs_dict data ima_ml runtime_policy
               ima_keyrings mb_ml mb_refstate hash_alg = Inr (st', mbf, mbd)
             \<and> (case tpm_policy of Inl s \<Rightarrow> json_loads env s | Inr p \<Rightarrow> Inr p) = Inr dd
             \<and> pcr_allowlist_of dd = Inr al \<longrightarrow>
             (n \<in> pcrs_in_quote st' \<longleftrightarrow>
                (n = TPM_DATA_PCR cfg \<and> data \<noteq> None) \<or> n = IMA_PCR cfg \<or> map_of al n \<noteq> None))"
proof (intro conjI allI impI)
  assume "truthy rs"
  then show "mb_pcr_step al pcrs_dict rs mb_ml ph n (st, mf) =
              Inr (st\<lparr>failure :=
                         add_event (failure st) (''unused_pcr_'' @ str_int n)
                           (Text (''Measured Boot PCR '' @ str_int n
                                   @ '' in policy, but no measurement list provided'')) True\<rparr>, mf)"
    using nl by (rule mb_pcr_step_unused)
next
  assume "\<not> truthy rs"
  then show "mb_pcr_step al pcrs_dict rs mb_ml ph n (st, mf) = Inr (st, mf)"
    by (rule mb_pcr_step_skip)
next
  fix f
  assume c: "check_pcrs env cfg agent tpm_policy pcrs_dict data ima_ml runtime_policy
               ima_keyrings mb_ml mb_refstate hash_alg = Inr f"
    and rs: "truthy (snd (snd (get_policy env mb_refstate)))"
  from c obtain st' mbf mbd where
    b: "check_pcrs_blocks env cfg agent tpm_policy pcrs_dict data ima_ml runtime_policy
               ima_keyrings mb_ml mb_refstate hash_alg = Inr (st', mbf, mbd)"
    and f: "set (events (failure st')) \<subseteq> set (events f)"
    by (rule check_pcrs_cases) auto
  from b obtain dd al ph ba st3 st4 where
    parse: "parse_mb_bootlog env cfg mb_ml hash_alg = Inr (ph, ba, mbd, mbf)"
    and mb: "measured_boot_pcrs env cfg al pcrs_dict (snd (snd (get_policy env mb_refstate))) mb_ml ph mbf
       (check_ima_pcr env cfg agent pcrs_dict ima_ml runtime_policy ima_keyrings ba hash_alg
          (validate_data_pcr cfg pcrs_dict data hash_alg
             \<lparr>failure = merge (new_Failure PCR_VALIDATION []) mbf, pcrs_in_quote = {}\<rparr>)) = Inr st3"
    and rem: "remaining_pcrs env al pcrs_dict st3 = Inr st4"
    and st': "st' = missing_pcrs env al st4"
    by (rule check_pcrs_blocks_cases)
  let ?st0 = "\<lparr>failure = merge (new_Failure PCR_VALIDATION []) mbf, pcrs_in_quote = {}\<rparr>"
  let ?st1 = "validate_data_pcr cfg pcrs_dict data hash_alg ?st0"
  let ?st2 = "check_ima_pcr env cfg agent pcrs_dict ima_ml runtime_policy ima_keyrings ba hash_alg ?st1"
  from parse nl have ok: "\<not> failed mbf" by (auto simp: parse_mb_bootlog_def)
  from n(2) have k: "n \<in> set (map fst pcrs_dict)" by (auto dest: map_of_SomeD intro: rev_image_eqI)
  have "adds UNIV UNIV ?st0 ?st1" by (rule validate_data_pcr_adds) simp_all
  moreover have "adds UNIV UNIV ?st1 ?st2" by (rule check_ima_pcr_adds) simp_all
  ultimately have "adds UNIV UNIV ?st0 ?st2" by (rule adds_trans)
  then have sc2: "component (failure ?st2) = PCR_VALIDATION" "sub_components (failure ?st2) = []"
    by (simp_all add: adds_def)
  have "Event (component (failure ?st2)) (sub_components (failure ?st2))
           (''unused_pcr_'' @ str_int n)
           (Text (''Measured Boot PCR '' @ str_int n
                   @ '' in policy, but no measurement list provided'')) True
         \<in> set (events (failure st3))"
    by (rule measured_boot_pcrs_reports_unused [OF mb ok rs nl n(1) k])
  moreover have "adds UNIV UNIV st3 st4" by (rule remaining_pcrs_adds [OF rem]) simp
  moreover have "adds UNIV UNIV st4 st'" unfolding st' by (rule missing_pcrs_adds) simp
  ultimately have "Event PCR_VALIDATION [] (''unused_pcr_'' @ str_int n)
                  (Text (''Measured Boot PCR '' @ str_int n
                          @ '' in policy, but no measurement list provided'')) True
                \<in> set (events (failure st'))"
    unfolding sc2 by (blast intro: adds_member)
  with f show "Event PCR_VALIDATION [] (''unused_pcr_'' @ str_int n)
                  (Text (''Measured Boot PCR '' @ str_int n
                          @ '' in policy, but no measurement list provided'')) True
                \<in> set (events f)" by blast
next
  fix f
  assume c: "check_pcrs env cfg agent tpm_policy pcrs_dict data ima_ml runtime_policy
               ima_keyrings mb_ml mb_refstate hash_alg = Inr f"
    and h: "\<not> truthy (snd (snd (get_policy env mb_refstate))) \<and> n \<noteq> IMA_PCR cfg
                \<and> collaborators_silent env (''unused_pcr_'' @ str_int n)"
  let ?nm = "''unused_pcr_'' @ str_int n"
  let ?N = "{x. x \<noteq> ?nm}"
  from h have rs: "\<not> truthy (snd (snd (get_policy env mb_refstate)))"
    and nima: "n \<noteq> IMA_PCR cfg" and sil: "collaborators_silent env ?nm" by simp_all
  from c obtain st' mbf mbd where
    b: "check_pcrs_blocks env cfg agent tpm_policy pcrs_dict data ima_ml runtime_policy
               ima_keyrings mb_ml mb_refstate hash_alg = Inr (st', mbf, mbd)"
    and f: "f = (if \<not> failed mbf \<and> truthy (snd (snd (get_policy env mb_refstate)))
          then merge (failure st')
                 (evaluate_policy env (fst (get_policy env mb_refstate))
                    (fst (snd (get_policy env mb_refstate)))
                    (snd (snd (get_policy env mb_refstate))) mbd (pcrs_in_quote st')
                    (agent_id agent))
          else failure st')"
    by (rule check_pcrs_cases)
  from f rs have f': "f = failure st'" by simp
  from b obtain dd al ph ba st3 st4 where
    parse: "parse_mb_bootlog env cfg mb_ml hash_alg = Inr (ph, ba, mbd, mbf)"
    and mb: "measured_boot_pcrs env cfg al pcrs_dict (snd (snd (get_policy env mb_refstate))) mb_ml ph mbf
       (check_ima_pcr env cfg agent pcrs_dict ima_ml runtime_policy ima_keyrings ba hash_alg
          (validate_data_pcr cfg pcrs_dict data hash_alg
             \<lparr>failure = merge (new_Failure PCR_VALIDATION []) mbf, pcrs_in_quote = {}\<rparr>)) = Inr st3"
    and rem: "remaining_pcrs env al pcrs_dict st3 = Inr st4"
    and st': "st' = missing_pcrs env al st4"
    by (rule check_pcrs_blocks_cases)
  let ?st0 = "\<lparr>failure = merge (new_Failure PCR_VALIDATION []) mbf, pcrs_in_quote = {}\<rparr>"
  let ?st1 = "validate_data_pcr cfg pcrs_dict data hash_alg ?st0"
  let ?st2 = "check_ima_pcr env cfg agent pcrs_dict ima_ml runtime_policy ima_keyrings ba hash_alg ?st1"
  have a1: "adds ?N UNIV ?st0 ?st1" by (rule validate_data_pcr_adds) simp_all
  have a2: "adds ?N UNIV ?st1 ?st2"
  proof (rule check_ima_pcr_adds)
    show "''unused_pcr_'' @ str_int (IMA_PCR cfg) \<in> ?N" using nima by simp
    show "\<And>v ml. map_of pcrs_dict (IMA_PCR cfg) = Some v \<Longrightarrow> ima_ml = Some ml \<Longrightarrow>
            \<forall>e\<in>set (events (check_ima env agent v ml runtime_policy ima_keyrings ba hash_alg)).
              name e \<in> ?N"
      using silent_check_ima [OF sil] by blast
  qed simp
  have "adds {} {} ?st2 st3" by (rule measured_boot_pcrs_no_refstate [OF mb rs])
  then have a3: "adds ?N UNIV ?st2 st3" by (auto simp: adds_def)
  have a4: "adds ?N UNIV st3 st4" by (rule remaining_pcrs_adds [OF rem]) simp
  have a5: "adds ?N UNIV st4 st'" unfolding st' by (rule missing_pcrs_adds) simp
  from a1 a2 a3 a4 a5 have a: "adds ?N UNIV ?st0 st'" by (blast intro: adds_trans)
  show "\<forall>e\<in>set (events f). name e \<noteq> ?nm"
  proof
    fix e assume "e \<in> set (events f)"
    with f' have "e \<in> set (events (failure st'))" by simp
    from adds_names [OF a this] have "e \<in> set (events mbf) \<or> name e \<noteq> ?nm" by simp
    with parse_mb_bootlog_names [OF parse] parser_names_not_pcr(3) show "name e \<noteq> ?nm"
      by metis
  qed
next
  fix st' mbf mbd dd al
  assume h: "check_pcrs_blocks env cfg agent tpm_policy pcrs_dict data ima_ml runtime_policy
               ima_keyrings mb_ml mb_refstate hash_alg = Inr (st', mbf, mbd)
             \<and> (case tpm_policy of Inl s \<Rightarrow> json_loads env s | Inr p \<Rightarrow> Inr p) = Inr dd
             \<and> pcr_allowlist_of dd = Inr al"
  let ?keys = "set (map fst pcrs_dict)"
  from h have b: "check_pcrs_blocks env cfg agent tpm_policy pcrs_dict data ima_ml runtime_policy
               ima_keyrings mb_ml mb_refstate hash_alg = Inr (st', mbf, mbd)"
    and dd: "(case tpm_policy of Inl s \<Rightarrow> json_loads env s | Inr p \<Rightarrow> Inr p) = Inr dd"
    and al: "pcr_allowlist_of dd = Inr al"
    by simp_all
  from b obtain dd' al' ph ba st3 st4 where
    dd': "(case tpm_policy of Inl s \<Rightarrow> json_loads env s | Inr p \<Rightarrow> Inr p) = Inr dd'"
    and al': "pcr_allowlist_of dd' = Inr al'"
    and mb': "measured_boot_pcrs env cfg al' pcrs_dict (snd (snd (get_policy env mb_refstate))) mb_ml ph mbf
       (check_ima_pcr env cfg agent pcrs_dict ima_ml runtime_policy ima_keyrings ba hash_alg
          (validate_data_pcr cfg pcrs_dict data hash_alg
             \<lparr>failure = merge (new_Failure PCR_VALIDATION []) mbf, pcrs_in_quote = {}\<rparr>)) = Inr st3"
    and rem': "remaining_pcrs env al' pcrs_dict st3 = Inr st4"
    and st': "st' = missing_pcrs env al' st4"
    by (rule check_pcrs_blocks_cases)
  from dd dd' al al' have same: "al' = al" by simp
  note mb = mb' [unfolded same] and rem = rem' [unfolded same]
  let ?st0 = "\<lparr>failure = merge (new_Failure PCR_VALIDATION []) mbf, pcrs_in_quote = {}\<rparr>"
  let ?st1 = "validate_data_pcr cfg pcrs_dict data hash_alg ?st0"
  let ?st2 = "check_ima_pcr env cfg agent pcrs_dict ima_ml runtime_policy ima_keyrings ba hash_alg ?st1"
  from n(2) have k: "n \<in> ?keys" by (auto dest: map_of_SomeD intro: rev_image_eqI)
  have cl3: "pcrs_in_quote st3 = pcrs_in_quote ?st2"
    by (rule measured_boot_pcrs_no_list [OF mb nl])
  have n3: "n \<in> pcrs_in_quote st3 \<longleftrightarrow> (n = TPM_DATA_PCR cfg \<and> data \<noteq> None) \<or> n = IMA_PCR cfg"
    unfolding cl3 check_ima_pcr_claimed validate_data_pcr_claimed using n(2) by auto
  have cl': "pcrs_in_quote st' = pcrs_in_quote st4"
    unfolding st' same by (simp add: missing_pcrs_def Let_def)
  have a4: "adds UNIV {m \<in> ?keys. map_of al m \<noteq> None} st3 st4"
    by (rule remaining_pcrs_adds [OF rem]) simp
  show "n \<in> pcrs_in_quote st' \<longleftrightarrow>
          (n = TPM_DATA_PCR cfg \<and> data \<noteq> None) \<or> n = IMA_PCR cfg \<or> map_of al n \<noteq> None"
  proof
    assume "n \<in> pcrs_in_quote st'"
    with cl' a4 have "n \<in> pcrs_in_quote st3 \<or> map_of al n \<noteq> None" by (auto simp: adds_def)
    with n3 show "(n = TPM_DATA_PCR cfg \<and> data \<noteq> None) \<or> n = IMA_PCR cfg \<or> map_of al n \<noteq> None"
      by blast
  next
    assume r: "(n = TPM_DATA_PCR cfg \<and> data \<noteq> None) \<or> n = IMA_PCR cfg \<or> map_of al n \<noteq> None"
    show "n \<in> pcrs_in_quote st'"
    proof (cases "map_of al n \<noteq> None")
      case True
      with k have "n \<in> pcrs_in_quote st4" using remaining_pcrs_claims [OF rem] by blast
      with cl' show ?thesis by simp
    next
      case False
      with r n3 have "n \<in> pcrs_in_quote st3" by blast
      with a4 cl' show ?thesis by (auto simp: adds_def)
    qed
  qed
qed

text \<open>
  Claim C7 says that without a resolved reference state and without a measurement list a
  quoted measured-boot PCR gets the event \<open>unused_pcr_<index>\<close> and is marked as used.
  In the source the event is under \<open>if mb_refstate_data:\<close>: for PCR 0 in the quote and no
  reference state the report holds the data-PCR event only, and \<open>pcrs_in_quote\<close> is
  empty.
\<close>

theorem measured_boot_pcr_without_refstate_counterexample:
  "check_pcrs_blocks test_env test_config test_agent (Inr []) [(0, ''aa'')] (Some ''data'') None
     (DDict []) None None None test_hash =
   Inr (\<lparr>failure =
           \<lparr>component = PCR_VALIDATION, sub_components = [],
            events = [Event PCR_VALIDATION [] ''missing_pcr_16''
                        (Text ''Data PCR 16 is missing in quote, but is required'') True]\<rparr>,
         pcrs_in_quote = {}\<rparr>,
        \<lparr>component = MEASURED_BOOT, sub_components = [''parser''], events = []\<rparr>,
        DDict [])
 \<and> check_pcrs test_env test_config test_agent (Inr []) [(0, ''aa'')] (Some ''data'') None
     (DDict []) None None None test_hash =
   Inr \<lparr>component = PCR_VALIDATION, sub_components = [],
        events = [Event PCR_VALIDATION [] ''missing_pcr_16''
                    (Text ''Data PCR 16 is missing in quote, but is required'') True]\<rparr>
 \<and> \<not> truthy (snd (snd (get_policy test_env None)))
 \<and> 0 \<in> set (MEASUREDBOOT_PCRS test_config)"
  by (simp add: eval_defs)

theorem measured_boot_pcr_without_list_witness:
  "check_pcrs test_env test_config test_agent (Inr []) [(0, ''aa'')] (Some ''data'') None
     (DDict []) None None (Some ''ref'') test_hash =
   Inr \<lparr>component = PCR_VALIDATION, sub_components = [],
        events = [Event PCR_VALIDATION [] ''missing_pcr_16''
                    (Text ''Data PCR 16 is missing in quote, but is required'') True,
                  Event PCR_VALIDATION [] ''unused_pcr_0''
                    (Text ''Measured Boot PCR 0 in policy, but no measurement list provided'')
                    True]\<rparr>
 \<and> Event PCR_VALIDATION [] (''unused_pcr_'' @ str_int 0)
       (Text (''Measured Boot PCR '' @ str_int 0 @ '' in policy, but no measurement list provided''))
       True
     \<in> set (events (projr (check_pcrs test_env test_config test_agent (Inr []) [(0, ''aa'')]
                               (Some ''data'') None (DDict []) None None (Some ''ref'') test_hash)))
 \<and> 0 \<notin> pcrs_in_quote (fst (projr (check_pcrs_blocks test_env test_config test_agent (Inr [])
                                        [(0, ''aa'')] (Some ''data'') None (DDict []) None None
                                        (Some ''ref'') test_hash)))
 \<and> list_all (\<lambda>e. name e \<noteq> ''unused_pcr_'' @ str_int 0)
       (events (projr (check_pcrs test_env test_config test_agent (Inr []) [(0, ''aa'')]
                         (Some ''data'') None (DDict []) None None None test_hash)))"
proof -
  let ?M = "Event PCR_VALIDATION [] ''missing_pcr_16''
              (Text ''Data PCR 16 is missing in quote, but is required'') True"
  let ?U = "Event PCR_VALIDATION [] ''unused_pcr_0''
              (Text ''Measured Boot PCR 0 in policy, but no measurement list provided'') True"
  let ?F = "\<lparr>component = PCR_VALIDATION, sub_components = [], events = [?M, ?U]\<rparr>"
  let ?G = "\<lparr>component = PCR_VALIDATION, sub_components = [], events = [?M]\<rparr>"
  let ?MBF = "\<lparr>component = MEASURED_BOOT, sub_components = [''parser''], events = []\<rparr>"
  have e1: "check_pcrs test_env test_config test_agent (Inr []) [(0, ''aa'')] (Some ''data'') None
              (DDict []) None None (Some ''ref'') test_hash = Inr ?F"
    by code_simp
  have e2: "check_pcrs_blocks test_env test_config test_agent (Inr []) [(0, ''aa'')] (Some ''data'')
              None (DDict []) None None (Some ''ref'') test_hash =
            Inr (\<lparr>failure = ?F, pcrs_in_quote = {}\<rparr>, ?MBF, DDict [])"
    by code_simp
  have e3: "check_pcrs test_env test_config test_agent (Inr []) [(0, ''aa'')] (Some ''data'') None
              (DDict []) None None None test_hash = Inr ?G"
    by code_simp
  have n: "0 \<in> set (MEASUREDBOOT_PCRS test_config)" "map_of [(0 :: int, ''aa'')] 0 = Some ''aa''"
    by (simp_all add: test_config_def)
  have nl: "(None :: string option) = None \<or> (None :: string option) = Some []" by simp
  have rs: "truthy (snd (snd (get_policy test_env (Some ''ref''))))"
    "\<not> truthy (snd (snd (get_policy test_env None)))"
    by (simp_all add: test_env_def)
  have c: "0 \<noteq> IMA_PCR test_config" "0 \<noteq> TPM_DATA_PCR test_config"
    "collaborators_silent test_env (''unused_pcr_'' @ str_int 0)"
    "pcr_allowlist_of [] = Inr []" "map_of ([] :: (int \<times> string list) list) 0 = None"
    by (simp_all add: test_config_def collaborators_silent_def test_env_def pcr_allowlist_of_def)
  note t = measured_boot_pcr_without_list
             [OF n nl, where env = test_env and agent = test_agent and tpm_policy = "Inr []"
                and data = "Some ''data''" and ima_ml = None and runtime_policy = "DDict []"
                and ima_keyrings = None and hash_alg = test_hash]
  have m1: "Event PCR_VALIDATION [] (''unused_pcr_'' @ str_int 0)
       (Text (''Measured Boot PCR '' @ str_int 0 @ '' in policy, but no measurement list provided''))
       True \<in> set (events ?F)"
    using t [where mb_refstate = "Some ''ref''"] e1 rs(1) by blast
  have m2: "0 \<notin> pcrs_in_quote \<lparr>failure = ?F, pcrs_in_quote = {}\<rparr>"
    using t [where mb_refstate = "Some ''ref''"] e2 c by simp
  have "\<forall>e\<in>set (events ?G). name e \<noteq> ''unused_pcr_'' @ str_int 0"
    using t [where mb_refstate = None] e3 rs(2) c(1,3) by blast
  then have m3: "list_all (\<lambda>e. name e \<noteq> ''unused_pcr_'' @ str_int 0) (events ?G)"
    by (simp only: list_all_iff)
  from e1 e2 e3 m1 m2 m3 show ?thesis by simp
qed

subsection \<open>Allowlist indices missing from the quote\<close>

lemma adds_mono: "adds N I a b \<Longrightarrow> N \<subseteq> N' \<Longrightarrow> I \<subseteq> I' \<Longrightarrow> adds N' I' a b"
  unfolding adds_def by (elim conjE exE, intro conjI) auto

lemma distinct_set_iter [simp]: "distinct (set_iter env xs)"
  by (simp add: set_iter_def)

lemma missing_pcrs_claimed [simp]: "pcrs_in_quote (missing_pcrs env al st) = pcrs_in_quote st"
  by (simp add: missing_pcrs_def Let_def)

lemma events_check_ima_pcr:
  "events (failure (check_ima_pcr env cfg agent pd iml rp kr ba h st)) =
     events (failure st) @
     (case (map_of pd (IMA_PCR cfg), iml) of
        (Some v, Some ml) \<Rightarrow>
          events (process_measurement_list env agent (split_on (CHR 0x0A) ml) rp v kr ba h)
      | (Some v, None) \<Rightarrow>
          [Event (component (failure st)) (sub_components (failure st))
             (''unused_pcr_'' @ str_int (IMA_PCR cfg))
             (Text ''IMA PCR in policy, but no measurement list provided'') True]
      | (None, _) \<Rightarrow> [])"
  by (simp add: check_ima_pcr_def add_event_def split: option.splits)

lemma filter_through_blocks:
  assumes n: "\<And>e. name e \<in> N \<Longrightarrow> \<not> Q e"
    and d: "''invalid_pcr_'' @ str_int (TPM_DATA_PCR cfg) \<in> N"
      "''missing_pcr_'' @ str_int (TPM_DATA_PCR cfg) \<in> N"
    and i: "''unused_pcr_'' @ str_int (IMA_PCR cfg) \<in> N"
    and a: "adds N UNIV (check_ima_pcr env cfg agent pd iml rp kr ba h
                           (validate_data_pcr cfg pd data h st0)) st4"
  shows "filter Q (events (failure st4)) =
           filter Q (events (failure st0)) @
           filter Q (case (map_of pd (IMA_PCR cfg), iml) of
                       (Some v, Some ml) \<Rightarrow>
                         events (process_measurement_list env agent (split_on (CHR 0x0A) ml)
                                   rp v kr ba h)
                     | _ \<Rightarrow> [])"
proof -
  let ?st1 = "validate_data_pcr cfg pd data h st0"
  let ?st2 = "check_ima_pcr env cfg agent pd iml rp kr ba h ?st1"
  have "adds N UNIV st0 ?st1" by (rule validate_data_pcr_adds) (use d in simp_all)
  from adds_filter [OF this n] have 1: "filter Q (events (failure ?st1)) = filter Q (events (failure st0))"
    by simp
  from adds_filter [OF a n] have 4: "filter Q (events (failure st4)) = filter Q (events (failure ?st2))"
    by simp
  from n [of "Event c sc (''unused_pcr_'' @ str_int (IMA_PCR cfg)) x y" for c sc x y] i
  have u: "\<not> Q (Event c sc (''unused_pcr_'' @ str_int (IMA_PCR cfg)) x y)" for c sc x y
    by simp
  show ?thesis
    using u unfolding 4 events_check_ima_pcr
    by (simp add: 1 split: option.splits)
qed


text \<open>
  Claim C6 ends with "a quoted index with no allowlist entry produces no failure event at
  all". The blocks for the data PCR, the IMA PCR and the measured-boot PCRs do not look at
  the allowlist: with an empty allowlist, the data PCR matching and no IMA measurement
  list, PCR 10 in the quote gives the event \<open>unused_pcr_10\<close>, and the report is empty
  without it.
\<close>

theorem quoted_index_without_allowlist_entry_counterexample:
  "check_pcrs test_env test_config test_agent (Inr []) [(16, ''04ab''), (10, ''aa'')]
     (Some ''data'') None (DDict []) None None None test_hash =
   Inr \<lparr>component = PCR_VALIDATION, sub_components = [],
        events = [Event PCR_VALIDATION [] ''unused_pcr_10''
                    (Text ''IMA PCR in policy, but no measurement list provided'') True]\<rparr>
 \<and> check_pcrs test_env test_config test_agent (Inr []) [(16, ''04ab'')]
     (Some ''data'') None (DDict []) None None None test_hash =
   Inr \<lparr>component = PCR_VALIDATION, sub_components = [], events = []\<rparr>
 \<and> pcr_allowlist_of [] = Inr []
 \<and> map_of ([] :: (int \<times> string list) list) 10 = None"
  by (simp add: eval_defs)

text \<open>
  Claim C6, amended. When \<open>check_pcrs\<close> returns: an allowlist index is in
  \<open>pcrs_in_quote\<close> at the end exactly if it is in the quote, so the indices never used
  are the allowlist indices absent from the quote. \<open>missing\<close> lists each of them once,
  in the order of the interpreter's set. Apart from the events of that name in the reports
  of the two outside evaluators (the IMA evaluator, when the IMA PCR is quoted and a
  measurement list is given, and the measured-boot policy evaluator, when it runs), the
  report holds exactly one event \<open>missing_pcrs\<close>, with flag \<open>True\<close> and that list,
  when the list is not empty, and none otherwise. For a quoted index without allowlist
  entry that is neither the data PCR nor the IMA PCR, nor a measured-boot PCR while a
  reference state is resolved, \<open>check_pcrs\<close> adds no event: the index is not in the
  list, and the events named \<open>invalid_pcr_\<close>, \<open>unused_pcr_\<close> or \<open>missing_pcr_\<close>
  with that index are those of the two outside reports.
\<close>

theorem missing_allowlist_pcrs:
  assumes pol: "(case tpm_policy of Inl s \<Rightarrow> json_loads env s | Inr p \<Rightarrow> Inr p) = Inr dd"
    and al: "pcr_allowlist_of dd = Inr al"
    and parse: "parse_mb_bootlog env cfg mb_ml hash_alg = Inr (ph, ba, mbd, mbf)"
    and blocks: "check_pcrs_blocks env cfg agent tpm_policy pcrs_dict data ima_ml runtime_policy
                   ima_keyrings mb_ml mb_refstate hash_alg = Inr (st, mbf, mbd)"
    and res: "check_pcrs env cfg agent tpm_policy pcrs_dict data ima_ml runtime_policy
                ima_keyrings mb_ml mb_refstate hash_alg = Inr f"
  shows "(\<forall>n\<in>set (map fst al). n \<in> pcrs_in_quote st \<longleftrightarrow> n \<in> set (map fst pcrs_dict))
       \<and> (let missing = set_iter env (filter (\<lambda>n. n \<notin> set (map fst pcrs_dict)) (map fst al));
               ima_events =
                 (case (map_of pcrs_dict (IMA_PCR cfg), ima_ml) of
                    (Some v, Some ml) \<Rightarrow>
                      events (process_measurement_list env agent (split_on (CHR 0x0A) ml)
                                runtime_policy v ima_keyrings ba hash_alg)
                  | _ \<Rightarrow> []);
               policy_events =
                 (if \<not> failed mbf \<and> truthy (snd (snd (get_policy env mb_refstate)))
                  then events (evaluate_policy env (fst (get_policy env mb_refstate))
                                 (fst (snd (get_policy env mb_refstate)))
                                 (snd (snd (get_policy env mb_refstate))) mbd
                                 (pcrs_in_quote st) (agent_id agent))
                  else [])
           in set missing = {n \<in> set (map fst al). n \<notin> set (map fst pcrs_dict)}
            \<and> distinct missing
            \<and> filter (\<lambda>e. name e = ''missing_pcrs'') (events f) =
                filter (\<lambda>e. name e = ''missing_pcrs'') ima_events @
                (if missing = [] then []
                 else [Event PCR_VALIDATION [] ''missing_pcrs''
                         (Fields [(''context'', VStr ''PCRs are missing in quote''),
                                  (''data'', VInts missing)]) True]) @
                filter (\<lambda>e. name e = ''missing_pcrs'') policy_events
            \<and> (\<forall>m. map_of al m = None \<and> m \<noteq> TPM_DATA_PCR cfg \<and> m \<noteq> IMA_PCR cfg
                    \<and> (m \<in> set (MEASUREDBOOT_PCRS cfg) \<longrightarrow>
                         \<not> truthy (snd (snd (get_policy env mb_refstate)))) \<longrightarrow>
                  m \<notin> set missing
                  \<and> filter (\<lambda>e. name e \<in> {''invalid_pcr_'' @ str_int m, ''unused_pcr_'' @ str_int m,
                                           ''missing_pcr_'' @ str_int m}) (events f) =
                      filter (\<lambda>e. name e \<in> {''invalid_pcr_'' @ str_int m, ''unused_pcr_'' @ str_int m,
                                           ''missing_pcr_'' @ str_int m}) ima_events @
                      filter (\<lambda>e. name e \<in> {''invalid_pcr_'' @ str_int m, ''unused_pcr_'' @ str_int m,
                                           ''missing_pcr_'' @ str_int m}) policy_events))"
proof -
  let ?rs = "snd (snd (get_policy env mb_refstate))"
  let ?K = "set (map fst pcrs_dict)"
  let ?missing = "set_iter env (filter (\<lambda>n. n \<notin> ?K) (map fst al))"
  let ?ima = "case (map_of pcrs_dict (IMA_PCR cfg), ima_ml) of
                (Some v, Some ml) \<Rightarrow>
                  events (process_measurement_list env agent (split_on (CHR 0x0A) ml)
                            runtime_policy v ima_keyrings ba hash_alg)
              | _ \<Rightarrow> []"
  let ?policy = "if \<not> failed mbf \<and> truthy ?rs
                 then events (evaluate_policy env (fst (get_policy env mb_refstate))
                                (fst (snd (get_policy env mb_refstate))) ?rs mbd
                                (pcrs_in_quote st) (agent_id agent))
                 else []"
  let ?E = "Event PCR_VALIDATION [] ''missing_pcrs''
              (Fields [(''context'', VStr ''PCRs are missing in quote''),
                       (''data'', VInts ?missing)]) True"
  from blocks obtain dd' al' ph' ba' st3 st4 where
    pol': "(case tpm_policy of Inl s \<Rightarrow> json_loads env s | Inr d \<Rightarrow> Inr d) = Inr dd'"
    and al': "pcr_allowlist_of dd' = Inr al'"
    and parse': "parse_mb_bootlog env cfg mb_ml hash_alg = Inr (ph', ba', mbd, mbf)"
    and mb: "measured_boot_pcrs env cfg al' pcrs_dict ?rs mb_ml ph' mbf
       (check_ima_pcr env cfg agent pcrs_dict ima_ml runtime_policy ima_keyrings ba' hash_alg
          (validate_data_pcr cfg pcrs_dict data hash_alg
             \<lparr>failure = merge (new_Failure PCR_VALIDATION []) mbf, pcrs_in_quote = {}\<rparr>)) = Inr st3"
    and rem: "remaining_pcrs env al' pcrs_dict st3 = Inr st4"
    and st: "st = missing_pcrs env al' st4"
    by (rule check_pcrs_blocks_cases)
  from pol pol' have "dd' = dd" by simp
  with al al' have same: "al' = al" by simp
  from parse parse' have same': "ph' = ph" "ba' = ba" by simp_all
  note mb = mb [unfolded same same'] and rem = rem [unfolded same] and st = st [unfolded same]
  let ?st0 = "\<lparr>failure = merge (new_Failure PCR_VALIDATION []) mbf, pcrs_in_quote = {}\<rparr>"
  let ?st1 = "validate_data_pcr cfg pcrs_dict data hash_alg ?st0"
  let ?st2 = "check_ima_pcr env cfg agent pcrs_dict ima_ml runtime_policy ima_keyrings ba
                hash_alg ?st1"
  \<comment> \<open>what is used\<close>
  have k01: "adds UNIV ?K ?st0 ?st1"
    by (rule validate_data_pcr_adds) (auto dest: map_of_SomeD intro: rev_image_eqI)
  have k14: "adds UNIV ?K ?st1 st4"
    by (rule blocks_after_data_adds [OF mb rem]) (auto dest: map_of_SomeD intro: rev_image_eqI)
  from k01 k14 have k04: "adds UNIV ?K ?st0 st4" by (rule adds_trans)
  from adds_claimed_within [OF k04] have sub: "pcrs_in_quote st4 \<subseteq> ?K" by simp
  have claims: "n \<in> pcrs_in_quote st4" if "n \<in> set (map fst al)" "n \<in> ?K" for n
    using remaining_pcrs_claims [OF rem that(2)] that(1) by (auto simp: map_of_eq_None_iff)
  from sub claims have p: "\<forall>n\<in>set (map fst al). n \<in> pcrs_in_quote st4 \<longleftrightarrow> n \<in> ?K" by blast
  then have missing: "filter (\<lambda>n. n \<notin> pcrs_in_quote st4) (map fst al) =
                      filter (\<lambda>n. n \<notin> ?K) (map fst al)"
    by (intro filter_cong) auto
  from p have one: "\<forall>n\<in>set (map fst al). n \<in> pcrs_in_quote st \<longleftrightarrow> n \<in> ?K"
    by (simp add: st)
  have two: "set ?missing = {n \<in> set (map fst al). n \<notin> ?K}" "distinct ?missing"
    by auto
  \<comment> \<open>the events of the report\<close>
  from adds_scope [OF k04] have sc: "component (failure st4) = PCR_VALIDATION"
    "sub_components (failure st4) = []" by simp_all
  have ev_st: "events (failure st) = events (failure st4) @ (if ?missing = [] then [] else [?E])"
    unfolding st by (simp add: missing_pcrs_def Let_def missing sc add_event_def)
  from res obtain st' mbf' mbd' where
    b': "check_pcrs_blocks env cfg agent tpm_policy pcrs_dict data ima_ml runtime_policy
           ima_keyrings mb_ml mb_refstate hash_alg = Inr (st', mbf', mbd')"
    and f: "f = (if \<not> failed mbf' \<and> truthy ?rs
          then merge (failure st')
                 (evaluate_policy env (fst (get_policy env mb_refstate))
                    (fst (snd (get_policy env mb_refstate))) ?rs mbd' (pcrs_in_quote st')
                    (agent_id agent))
          else failure st')"
    by (rule check_pcrs_cases)
  from b' blocks have "st' = st" "mbf' = mbf" "mbd' = mbd" by simp_all
  with f have ev_f: "events f = events (failure st) @ ?policy" by simp
  have through: "filter Q (events f) =
                   filter Q ?ima @ filter Q (if ?missing = [] then [] else [?E]) @ filter Q ?policy"
    if n: "\<And>e. name e \<in> N \<Longrightarrow> \<not> Q e"
      and pn: "parser_names \<subseteq> N"
      and d: "''invalid_pcr_'' @ str_int (TPM_DATA_PCR cfg) \<in> N"
        "''missing_pcr_'' @ str_int (TPM_DATA_PCR cfg) \<in> N"
      and i: "''unused_pcr_'' @ str_int (IMA_PCR cfg) \<in> N"
      and a23: "adds N UNIV ?st2 st3"
      and a34: "adds N UNIV st3 st4"
    for Q N
  proof -
    from a23 a34 have "adds N UNIV ?st2 st4" by (rule adds_trans)
    from filter_through_blocks [OF n d i this]
    have "filter Q (events (failure st4)) = filter Q (events (failure ?st0)) @ filter Q ?ima"
      by simp
    moreover from parse_mb_bootlog_names [OF parse] pn n
    have "filter Q (events (failure ?st0)) = []"
      by (auto simp: filter_empty_conv)
    ultimately show ?thesis by (simp add: ev_f ev_st)
  qed
  have three: "filter (\<lambda>e. name e = ''missing_pcrs'') (events f) =
                 filter (\<lambda>e. name e = ''missing_pcrs'') ?ima @
                 (if ?missing = [] then [] else [?E]) @
                 filter (\<lambda>e. name e = ''missing_pcrs'') ?policy"
  proof -
    let ?N = "{s. s \<noteq> ''missing_pcrs''}"
    have a23: "adds ?N UNIV ?st2 st3"
      by (rule measured_boot_pcrs_adds [OF mb]) simp
    have a34: "adds ?N UNIV st3 st4"
      by (rule remaining_pcrs_adds [OF rem]) simp
    have "filter (\<lambda>e. name e = ''missing_pcrs'') (events f) =
            filter (\<lambda>e. name e = ''missing_pcrs'') ?ima @
            filter (\<lambda>e. name e = ''missing_pcrs'') (if ?missing = [] then [] else [?E]) @
            filter (\<lambda>e. name e = ''missing_pcrs'') ?policy"
      by (rule through [where N = ?N, OF _ _ _ _ _ a23 a34])
         (use parser_names_not_pcr(4) in auto)
    then show ?thesis by simp
  qed
  have four: "m \<notin> set ?missing \<and>
        filter (\<lambda>e. name e \<in> {''invalid_pcr_'' @ str_int m, ''unused_pcr_'' @ str_int m,
                                 ''missing_pcr_'' @ str_int m}) (events f) =
        filter (\<lambda>e. name e \<in> {''invalid_pcr_'' @ str_int m, ''unused_pcr_'' @ str_int m,
                                 ''missing_pcr_'' @ str_int m}) ?ima @
        filter (\<lambda>e. name e \<in> {''invalid_pcr_'' @ str_int m, ''unused_pcr_'' @ str_int m,
                                 ''missing_pcr_'' @ str_int m}) ?policy"
    if m: "map_of al m = None" "m \<noteq> TPM_DATA_PCR cfg" "m \<noteq> IMA_PCR cfg"
      "m \<in> set (MEASUREDBOOT_PCRS cfg) \<longrightarrow> \<not> truthy ?rs" for m
  proof
    from m(1) show "m \<notin> set ?missing" by (auto simp: map_of_eq_None_iff)
  next
    let ?M = "{''invalid_pcr_'' @ str_int m, ''unused_pcr_'' @ str_int m,
               ''missing_pcr_'' @ str_int m}"
    let ?N = "- ?M"
    have a23: "adds ?N UNIV ?st2 st3"
    proof (cases "truthy ?rs")
      case False
      from measured_boot_pcrs_no_refstate [OF mb False] show ?thesis
        by (rule adds_mono) simp_all
    next
      case True
      with m(4) have "m \<notin> set (MEASUREDBOOT_PCRS cfg)" by blast
      then show ?thesis
        by (intro measured_boot_pcrs_adds [OF mb]) auto
    qed
    have a34: "adds ?N UNIV st3 st4"
      by (rule remaining_pcrs_adds [OF rem]) (use m(1) in auto)
    have "filter (\<lambda>e. name e \<in> ?M) (events f) =
            filter (\<lambda>e. name e \<in> ?M) ?ima @
            filter (\<lambda>e. name e \<in> ?M) (if ?missing = [] then [] else [?E]) @
            filter (\<lambda>e. name e \<in> ?M) ?policy"
      by (rule through [where N = ?N, OF _ _ _ _ _ a23 a34])
         (use parser_names_not_pcr(1-3) m(2,3) in auto)
    then show "filter (\<lambda>e. name e \<in> ?M) (events f) =
            filter (\<lambda>e. name e \<in> ?M) ?ima @ filter (\<lambda>e. name e \<in> ?M) ?policy"
      by simp
  qed
  from one two three four show ?thesis
    unfolding Let_def by blast
qed


theorem missing_allowlist_pcrs_witness:
  "check_pcrs test_env test_config test_agent
     (Inr [(''8'', [''aa'']), (''1'', [''bb'']), (''3'', [''cc''])])
     [(3, ''cc''), (20, ''dd'')] (Some ''data'') None (DDict []) None None None test_hash =
   Inr \<lparr>component = PCR_VALIDATION, sub_components = [],
        events = [Event PCR_VALIDATION [] ''missing_pcr_16''
                    (Text ''Data PCR 16 is missing in quote, but is required'') True,
                  Event PCR_VALIDATION [] ''missing_pcrs''
                    (Fields [(''context'', VStr ''PCRs are missing in quote''),
                             (''data'', VInts [8, 1])]) True]\<rparr>
 \<and> pcr_allowlist_of [(''8'', [''aa'']), (''1'', [''bb'']), (''3'', [''cc''])] =
     Inr [(8, [''aa'']), (1, [''bb'']), (3, [''cc''])]
 \<and> pcrs_in_quote (fst (projr (check_pcrs_blocks test_env test_config test_agent
                                  (Inr [(''8'', [''aa'']), (''1'', [''bb'']), (''3'', [''cc''])])
                                  [(3, ''cc''), (20, ''dd'')] (Some ''data'') None (DDict [])
                                  None None None test_hash))) = {3}
 \<and> filter (\<lambda>e. name e = ''missing_pcrs'')
      (events (projr (check_pcrs test_env test_config test_agent
                        (Inr [(''8'', [''aa'']), (''1'', [''bb'']), (''3'', [''cc''])])
                        [(3, ''cc''), (20, ''dd'')] (Some ''data'') None (DDict []) None None None
                        test_hash))) =
    [Event PCR_VALIDATION [] ''missing_pcrs''
       (Fields [(''context'', VStr ''PCRs are missing in quote''), (''data'', VInts [8, 1])]) True]
 \<and> filter (\<lambda>e. name e \<in> {''invalid_pcr_20'', ''unused_pcr_20'', ''missing_pcr_20''})
      (events (projr (check_pcrs test_env test_config test_agent
                        (Inr [(''8'', [''aa'']), (''1'', [''bb'']), (''3'', [''cc''])])
                        [(3, ''cc''), (20, ''dd'')] (Some ''data'') None (DDict []) None None None
                        test_hash))) = []"
proof -
  let ?pol = "[(''8'', [''aa'']), (''1'', [''bb'']), (''3'', [''cc''])]"
  let ?al = "[(8 :: int, [''aa'']), (1, [''bb'']), (3, [''cc''])]"
  let ?pd = "[(3 :: int, ''cc''), (20, ''dd'')]"
  let ?M = "Event PCR_VALIDATION [] ''missing_pcr_16''
              (Text ''Data PCR 16 is missing in quote, but is required'') True"
  let ?E = "Event PCR_VALIDATION [] ''missing_pcrs''
              (Fields [(''context'', VStr ''PCRs are missing in quote''), (''data'', VInts [8, 1])])
              True"
  let ?F = "\<lparr>component = PCR_VALIDATION, sub_components = [], events = [?M, ?E]\<rparr>"
  let ?MBF = "\<lparr>component = MEASURED_BOOT, sub_components = [''parser''], events = []\<rparr>"
  have pol: "(case Inr ?pol of Inl s \<Rightarrow> json_loads test_env s | Inr p \<Rightarrow> Inr p) = Inr ?pol"
    by simp
  have al: "pcr_allowlist_of ?pol = Inr ?al"
    by (simp add: eval_defs)
  have parse: "parse_mb_bootlog test_env test_config None test_hash = Inr ([], None, DDict [], ?MBF)"
    by (simp add: parse_mb_bootlog_def new_Failure_def)
  have blocks: "check_pcrs_blocks test_env test_config test_agent (Inr ?pol) ?pd (Some ''data'')
                  None (DDict []) None None None test_hash =
                Inr (\<lparr>failure = ?F, pcrs_in_quote = {3}\<rparr>, ?MBF, DDict [])"
    by code_simp
  have res: "check_pcrs test_env test_config test_agent (Inr ?pol) ?pd (Some ''data'')
               None (DDict []) None None None test_hash = Inr ?F"
    by code_simp
  note t = missing_allowlist_pcrs [OF pol al parse blocks res, unfolded Let_def]
  have order: "set_iter test_env (filter (\<lambda>n. n \<notin> set (map fst ?pd)) (map fst ?al)) = [8, 1]"
    by (simp add: set_iter_def test_env_def)
  have none: "\<not> truthy (snd (snd (get_policy test_env None)))" "failed ?MBF = False"
    by (simp_all add: test_env_def failed_def)
  from t [THEN conjunct2, THEN conjunct2, THEN conjunct2, THEN conjunct1]
  have two: "filter (\<lambda>e. name e = ''missing_pcrs'') (events ?F) = [?E]"
    unfolding order by (simp add: none)
  have c: "map_of ?al 20 = None \<and> 20 \<noteq> TPM_DATA_PCR test_config \<and> 20 \<noteq> IMA_PCR test_config
           \<and> (20 \<in> set (MEASUREDBOOT_PCRS test_config) \<longrightarrow>
                \<not> truthy (snd (snd (get_policy test_env None))))"
    by (simp add: test_config_def)
  from t [THEN conjunct2, THEN conjunct2, THEN conjunct2, THEN conjunct2, rule_format, OF c,
          THEN conjunct2]
  have three: "filter (\<lambda>e. name e \<in> {''invalid_pcr_20'', ''unused_pcr_20'', ''missing_pcr_20''})
                 (events ?F) = []"
    by (simp add: none str_int_def str_nat.simps digit_char_def)
  from al blocks res two three show ?thesis by simp
qed

section \<open>Properties of the event-log enrichment\<close>

subsection \<open>Unescaping\<close>

lemma py_replace_Nil: "py_replace [b, l] new [] = []"
  by (simp add: py_replace.simps)

lemma py_replace_hit: "py_replace [b, l] new (b # l # xs) = new @ py_replace [b, l] new xs"
  by (subst py_replace.simps) simp

lemma py_replace_miss:
  "take 2 (x # xs) \<noteq> [b, l] \<Longrightarrow> py_replace [b, l] new (x # xs) = x # py_replace [b, l] new xs"
  by (subst py_replace.simps) auto

lemma py_replace_tokens:
  assumes "\<And>c. c \<in> set s \<Longrightarrow>
             (g c = [b, l] \<and> g' c = [c0]) \<or>
             (g c = [c] \<and> g' c = [c] \<and> c \<noteq> b \<and> c \<noteq> l) \<or>
             (\<exists>m. g c = [b, m] \<and> g' c = [b, m] \<and> m \<noteq> l \<and> l \<noteq> b)"
  shows "py_replace [b, l] [c0] (concat (map g s)) = concat (map g' s)"
  using assms
proof (induction s)
  case Nil
  show ?case by (simp add: py_replace_Nil)
next
  case (Cons c s)
  have IH: "py_replace [b, l] [c0] (concat (map g s)) = concat (map g' s)"
    by (rule Cons.IH) (use Cons.prems in simp)
  from Cons.prems [of c] consider
      (hit) "g c = [b, l]" "g' c = [c0]"
    | (single) "g c = [c]" "g' c = [c]" "c \<noteq> b" "c \<noteq> l"
    | (other) m where "g c = [b, m]" "g' c = [b, m]" "m \<noteq> l" "l \<noteq> b"
    by auto
  then show ?case
  proof cases
    case hit
    then show ?thesis by (simp add: py_replace_hit IH)
  next
    case single
    then show ?thesis by (simp add: py_replace_miss IH)
  next
    case other
    have start: "take 2 (m # concat (map g s)) \<noteq> [b, l]"
    proof (cases s)
      case Nil
      then show ?thesis by simp
    next
      case (Cons d s')
      from Cons.prems [of d] Cons other(4) obtain x xs where "g d = x # xs" "x \<noteq> l"
        by auto
      with Cons show ?thesis by simp
    qed
    from other have "py_replace [b, l] [c0] (concat (map g (c # s))) =
                     b # py_replace [b, l] [c0] (m # concat (map g s))"
      by (simp add: py_replace_miss)
    also have "\<dots> = b # m # py_replace [b, l] [c0] (concat (map g s))"
      using start by (simp add: py_replace_miss)
    finally show ?thesis using other IH by simp
  qed
qed


lemma foldl_escaped_chars:
  "foldl f d escaped_chars =
     f (f (f (f (f (f (f (f (f (f d ([CHR 0x00], [CHR 0x5C, CHR 0x30]))
                                  ([CHR 0x07], [CHR 0x5C, CHR 0x61]))
                               ([CHR 0x08], [CHR 0x5C, CHR 0x62]))
                            ([CHR 0x09], [CHR 0x5C, CHR 0x74]))
                         ([CHR 0x0B], [CHR 0x5C, CHR 0x76]))
                      ([CHR 0x0C], [CHR 0x5C, CHR 0x66]))
                   ([CHR 0x0D], [CHR 0x5C, CHR 0x72]))
                ([CHR 0x1B], [CHR 0x5C, CHR 0x65]))
             ([CHR 0x27], [CHR 0x5C, CHR 0x27]))
       ([CHR 0x5C], [CHR 0x5C, CHR 0x5C])"
  by (simp add: escaped_chars_def)

lemma unescape_escaped_body:
  assumes "set s \<subseteq> escape_set"
  shows "foldl (\<lambda>d (orig, escaped). py_replace escaped orig d)
           (concat (map (escape_with escaped_chars) s)) escaped_chars = s"
proof -
  have in_set: "c \<in> escape_set" if "c \<in> set s" for c
    using assms that by blast
  have s0: "py_replace [CHR 0x5C, CHR 0x30] [CHR 0x00] (concat (map (escape_with escaped_chars) s)) =
              concat (map (escape_with (drop 1 escaped_chars)) s)"
    by (rule py_replace_tokens, drule in_set, simp add: escape_set_def escaped_chars_def,
        elim disjE, simp_all add: escape_with_def)
  have s1: "py_replace [CHR 0x5C, CHR 0x61] [CHR 0x07] (concat (map (escape_with (drop 1 escaped_chars)) s)) =
              concat (map (escape_with (drop 2 escaped_chars)) s)"
    by (rule py_replace_tokens, drule in_set, simp add: escape_set_def escaped_chars_def,
        elim disjE, simp_all add: escape_with_def)
  have s2: "py_replace [CHR 0x5C, CHR 0x62] [CHR 0x08] (concat (map (escape_with (drop 2 escaped_chars)) s)) =
              concat (map (escape_with (drop 3 escaped_chars)) s)"
    by (rule py_replace_tokens, drule in_set, simp add: escape_set_def escaped_chars_def,
        elim disjE, simp_all add: escape_with_def)
  have s3: "py_replace [CHR 0x5C, CHR 0x74] [CHR 0x09] (concat (map (escape_with (drop 3 escaped_chars)) s)) =
              concat (map (escape_with (drop 4 escaped_chars)) s)"
    by (rule py_replace_tokens, drule in_set, simp add: escape_set_def escaped_chars_def,
        elim disjE, simp_all add: escape_with_def)
  have s4: "py_replace [CHR 0x5C, CHR 0x76] [CHR 0x0B] (concat (map (escape_with (drop 4 escaped_chars)) s)) =
              concat (map (escape_with (drop 5 escaped_chars)) s)"
    by (rule py_replace_tokens, drule in_set, simp add: escape_set_def escaped_chars_def,
        elim disjE, simp_all add: escape_with_def)
  have s5: "py_replace [CHR 0x5C, CHR 0x66] [CHR 0x0C] (concat (map (escape_with (drop 5 escaped_chars)) s)) =
              concat (map (escape_with (drop 6 escaped_chars)) s)"
    by (rule py_replace_tokens, drule in_set, simp add: escape_set_def escaped_chars_def,
        elim disjE, simp_all add: escape_with_def)
  have s6: "py_replace [CHR 0x5C, CHR 0x72] [CHR 0x0D] (concat (map (escape_with (drop 6 escaped_chars)) s)) =
              concat (map (escape_with (drop 7 escaped_chars)) s)"
    by (rule py_replace_tokens, drule in_set, simp add: escape_set_def escaped_chars_def,
        elim disjE, simp_all add: escape_with_def)
  have s7: "py_replace [CHR 0x5C, CHR 0x65] [CHR 0x1B] (concat (map (escape_with (drop 7 escaped_chars)) s)) =
              concat (map (escape_with (drop 8 escaped_chars)) s)"
    by (rule py_replace_tokens, drule in_set, simp add: escape_set_def escaped_chars_def,
        elim disjE, simp_all add: escape_with_def)
  have s8: "py_replace [CHR 0x5C, CHR 0x27] [CHR 0x27] (concat (map (escape_with (drop 8 escaped_chars)) s)) =
              concat (map (escape_with (drop 9 escaped_chars)) s)"
    by (rule py_replace_tokens, drule in_set, simp add: escape_set_def escaped_chars_def,
        elim disjE, simp_all add: escape_with_def)
  have s9: "py_replace [CHR 0x5C, CHR 0x5C] [CHR 0x5C] (concat (map (escape_with (drop 9 escaped_chars)) s)) =
              concat (map (escape_with (drop 10 escaped_chars)) s)"
    by (rule py_replace_tokens, drule in_set, simp add: escape_set_def escaped_chars_def,
        elim disjE, simp_all add: escape_with_def)
  have last_step: "concat (map (escape_with (drop 10 escaped_chars)) s) = s"
    by (induction s) (simp_all add: escaped_chars_def escape_with_def)
  show ?thesis
    unfolding foldl_escaped_chars [where d = "concat (map (escape_with escaped_chars) s)"]
    by (simp only: prod.case s0 s1 s2 s3 s4 s5 s6 s7 s8 s9 last_step)
qed


lemma rstrip_no_trailing:
  assumes "s = [] \<or> last s \<notin> set chars"
  shows "rstrip chars s = s"
  using assms by (cases s rule: rev_cases) (simp_all add: rstrip_def)

lemma unescape_str_escape_str:
  assumes "set s \<subseteq> escape_set"
  shows "unescape_str (escape_str s) = rstrip [CHR 0x00] s"
  using unescape_escaped_body [OF assms]
  by (simp add: unescape_str_def escape_str_def Let_def)

text \<open>
  Claim C9 says that unescaping the escaped form of a string over the escape set gives
  the string back. The pass ends with \<open>rstrip("\0")\<close>, and NUL is in the escape set:
  the escaped form of the string that is one NUL unescapes to the empty string.
\<close>

theorem unescape_trailing_nul_counterexample:
  "[CHR 0x00] \<in> set (map fst escaped_chars)
 \<and> escape_str [CHR 0x00] = [CHR 0x22, CHR 0x5C, CHR ''0'', CHR 0x22]
 \<and> unescape_str (escape_str [CHR 0x00]) = []
 \<and> unescape_str (escape_str [CHR 0x00]) \<noteq> [CHR 0x00]
 \<and> unescape_eventlog (DDict [(KStr ''Event'', DStr (escape_str [CHR 0x00]))]) =
     DDict [(KStr ''Event'', DStr [])]"
proof -
  have a: "set [CHR 0x00] \<subseteq> escape_set"
    by (simp add: escape_set_def escaped_chars_def)
  have b: "unescape_str (escape_str [CHR 0x00]) = []"
    by (simp add: unescape_str_escape_str [OF a] rstrip_def)
  have c: "escape_str [CHR 0x00] = [CHR 0x22, CHR 0x5C, CHR ''0'', CHR 0x22]"
    by (simp add: escape_str_def escape_with_def escaped_chars_def)
  from a b c show ?thesis
    by (simp add: unescape_eventlog_def Tpm_tools_version_def escape_set_def)
qed

text \<open>
  Claim C9, amended. For a string over the escape set, unescaping its escaped form gives
  the string without its trailing NUL characters, so the string itself when it does not
  end in NUL; this is what the pass, once it runs, does to such a string wherever it
  stands in the log, and it leaves alone what is no string.
\<close>

theorem unescape_escaped:
  assumes "set s \<subseteq> escape_set"
  shows "unescape_str (escape_str s) = rstrip [CHR 0x00] s
       \<and> (s = [] \<or> last s \<noteq> CHR 0x00 \<longrightarrow> unescape_str (escape_str s) = s)
       \<and> recursive_unescape (DDict [(k, DList [DStr (escape_str s), DInt i, DNull])]) =
           DDict [(k, DList [DStr (rstrip [CHR 0x00] s), DInt i, DNull])]"
proof (intro conjI impI)
  show r: "unescape_str (escape_str s) = rstrip [CHR 0x00] s"
    by (rule unescape_str_escape_str [OF assms])
  show "unescape_str (escape_str s) = s" if "s = [] \<or> last s \<noteq> CHR 0x00"
    using that by (simp add: r rstrip_no_trailing)
  show "recursive_unescape (DDict [(k, DList [DStr (escape_str s), DInt i, DNull])]) =
          DDict [(k, DList [DStr (rstrip [CHR 0x00] s), DInt i, DNull])]"
    by (simp add: r)
qed

theorem unescape_escaped_witness:
  "unescape_str (escape_str [CHR 0x09, CHR 0x5C, CHR 0x27]) = [CHR 0x09, CHR 0x5C, CHR 0x27]
 \<and> escape_str [CHR 0x09, CHR 0x5C, CHR 0x27] =
     [CHR 0x22, CHR 0x5C, CHR ''t'', CHR 0x5C, CHR 0x5C, CHR 0x5C, CHR 0x27, CHR 0x22]
 \<and> recursive_unescape
      (DDict [(KStr ''Event'',
               DList [DStr (escape_str [CHR 0x09, CHR 0x5C, CHR 0x27]), DInt 7, DNull])]) =
     DDict [(KStr ''Event'', DList [DStr [CHR 0x09, CHR 0x5C, CHR 0x27], DInt 7, DNull])]"
proof -
  let ?s = "[CHR 0x09, CHR 0x5C, CHR 0x27]"
  have a: "set ?s \<subseteq> escape_set"
    by (simp add: escape_set_def escaped_chars_def)
  have e: "escape_str ?s =
             [CHR 0x22, CHR 0x5C, CHR ''t'', CHR 0x5C, CHR 0x5C, CHR 0x5C, CHR 0x27, CHR 0x22]"
    by (simp add: escape_str_def escape_with_def escaped_chars_def)
  have r: "rstrip [CHR 0x00] ?s = ?s"
    by (simp add: rstrip_def)
  note t = unescape_escaped [OF a, where k = "KStr ''Event''" and i = 7]
  from t [THEN conjunct2, THEN conjunct1] have one: "unescape_str (escape_str ?s) = ?s"
    by simp
  from t [THEN conjunct2, THEN conjunct2]
  have "recursive_unescape (DDict [(KStr ''Event'', DList [DStr (escape_str ?s), DInt 7, DNull])]) =
          DDict [(KStr ''Event'', DList [DStr (rstrip [CHR 0x00] ?s), DInt 7, DNull])]"
    by simp
  then have two: "recursive_unescape
                    (DDict [(KStr ''Event'', DList [DStr (escape_str ?s), DInt 7, DNull])]) =
                  DDict [(KStr ''Event'', DList [DStr ?s, DInt 7, DNull])]"
    by (simp only: r)
  from one e two show ?thesis by (simp only: simp_thms)
qed

text \<open>
  The version test of the pass. It reads the class attribute \<open>Tpm.tools_version\<close>,
  which stays empty, and not the attribute \<open>self.tools_version\<close> the detection
  assigns: the test never returns early. With the tools version 4.2 detected, whose output
  the docstring and the test mean to leave alone, \<open>parse_binary_bootlog\<close> gives the
  log unescaped all the same.
\<close>

lemma unescape_eventlog_runs:
  "unescape_eventlog log = (case log of DStr s \<Rightarrow> log | _ \<Rightarrow> recursive_unescape log)"
  by (simp add: unescape_eventlog_def Tpm_tools_version_def)

lemma detected_version_is_not_read:
  "parse_binary_bootlog
     (test_env\<lparr>self_tools_version := ''4.2'',
                yaml_to_dict :=
                  (\<lambda>lines. Some (DDict [(KStr ''Event'',
                                         DStr [CHR 0x22, CHR ''a'', CHR 0x5C, CHR ''t'', CHR ''b'',
                                               CHR 0x5C, CHR ''0'', CHR 0x5C, CHR ''0'',
                                               CHR 0x22])]))\<rparr>)
     test_config [] =
   Inr (\<lparr>component = MEASURED_BOOT, sub_components = [''parser''], events = []\<rparr>,
        Some (DDict [(KStr ''Event'', DStr [CHR ''a'', CHR 0x09, CHR ''b''])]))"
  by code_simp

subsection \<open>Boot aggregates\<close>


lemma hex_nat_digits: "c \<in> set (hex_nat n) \<Longrightarrow> hex_value c \<noteq> None"
proof (induction n rule: hex_nat.induct)
  case (1 n)
  show ?case
  proof (cases "n < 16")
    case True
    with 1(2) show ?thesis by (simp add: hex_nat.simps [of n] hex_value_digit_char)
  next
    case False
    with 1 show ?thesis
      by (auto simp: hex_nat.simps [of n] hex_value_digit_char)
  qed
qed







lemma hclass_hash_update [simp]: "hclass (hash_update h bs) = hclass h"
  by (simp add: hash_update_def)















end
